(* ===== verification/Prelude.thy ===== *)
theory Prelude
  imports Main "HOL-Library.Word"
begin

text \<open>
  The prelude of the development: the collections of rewrite rules the component proofs use,
  the outcome of a C function, and generic lemmas on lists and options that several components
  share.

  A C function of the program ends in one of three ways: it returns a value, it calls
  \<open>exit(n)\<close>, or it has undefined behaviour (a write or a read outside a block, a null or an
  uninitialised pointer).  The type \<open>cres\<close> below has one constructor for each; functions with an
  effect on a state return the outcome together with the state they leave.
\<close>

section \<open>Collections of rewrite rules\<close>

text \<open>
  \<open>csimps\<close>: equations of the C run time and of the data layout, safe to use everywhere.
  \<open>layout\<close>: the sizes and offsets of \<open>include/database.h\<close>.
  \<open>fmt_simps\<close>: evaluation of format strings.
\<close>

named_theorems csimps
named_theorems layout
named_theorems fmt_simps

section \<open>Machine types\<close>

type_synonym i32 = "32 word"
type_synonym i64 = "64 word"
type_synonym bytes = "char list"

section \<open>Outcomes of C functions\<close>

datatype 'a cres =
    Val 'a        \<comment> \<open>the function returned\<close>
  | Exit int      \<comment> \<open>the process called exit with this status\<close>
  | Crash         \<comment> \<open>undefined behaviour\<close>

primrec cbind :: "'a cres \<Rightarrow> ('a \<Rightarrow> 'b cres) \<Rightarrow> 'b cres" where
  "cbind (Val x) f = f x"
| "cbind (Exit n) f = Exit n"
| "cbind Crash f = Crash"

text \<open>The same for functions that also thread a state: the continuation runs only after a return.\<close>

fun sbind :: "'a cres \<times> 's \<Rightarrow> ('a \<Rightarrow> 's \<Rightarrow> 'b cres \<times> 's) \<Rightarrow> 'b cres \<times> 's" where
  "sbind (Val x, s) f = f x s"
| "sbind (Exit n, s) f = (Exit n, s)"
| "sbind (Crash, s) f = (Crash, s)"

text \<open>A memory access that is out of bounds (\<open>None\<close>) is undefined behaviour.\<close>

definition deref :: "'a option \<Rightarrow> 'a cres" where
  "deref p = (case p of None \<Rightarrow> Crash | Some x \<Rightarrow> Val x)"

lemma deref_simps [simp]: "deref None = Crash" "deref (Some x) = Val x"
  by (simp_all add: deref_def)

lemma deref_Val_iff [simp]: "deref p = Val x \<longleftrightarrow> p = Some x"
  by (cases p) auto

lemma cbind_Val_iff: "cbind m f = Val y \<longleftrightarrow> (\<exists>x. m = Val x \<and> f x = Val y)"
  by (cases m) auto

lemma cbind_split:
  "P (cbind m f) \<longleftrightarrow>
     (\<forall>x. m = Val x \<longrightarrow> P (f x)) \<and> (\<forall>n. m = Exit n \<longrightarrow> P (Exit n)) \<and> (m = Crash \<longrightarrow> P Crash)"
  by (cases m) auto

lemma sbind_Val_iff:
  "sbind m f = (Val y, t) \<longleftrightarrow> (\<exists>x s. m = (Val x, s) \<and> f x s = (Val y, t))"
  by (cases m; cases "fst m") auto

section \<open>Words\<close>

lemma ucast_word_of_int: "ucast (word_of_int n :: i64) = (word_of_int n :: i32)"
  by (simp add: unsigned_of_int word_of_int_eq_iff)

lemma unat_of_nat_small: "n < 2 ^ LENGTH('a) \<Longrightarrow> unat (word_of_nat n :: 'a::len word) = n"
  by (simp add: unat_of_nat take_bit_nat_eq_self)

section \<open>Lists\<close>

lemma take_append_exact [simp]: "length xs = n \<Longrightarrow> take n (xs @ ys) = xs"
  by simp

lemma drop_append_exact [simp]: "length xs = n \<Longrightarrow> drop n (xs @ ys) = ys"
  by simp

text \<open>Consecutive chunks of a list join: the shape a structure read member by member has.\<close>

lemma take_chunk: "take n xs @ take m (drop n xs) @ ys = take (n + m) xs @ ys"
  by (simp add: take_add)

lemma take_chunk_end: "take n xs @ take m (drop n xs) = take (n + m) xs"
  by (simp add: take_add)

lemma map_nth_upt: "map (\<lambda>i. f (xs ! i)) [0..<length xs] = map f xs"
  by (rule nth_equalityI) simp_all

lemma concat_map_const_length:
  "(\<And>x. x \<in> set xs \<Longrightarrow> length (f x) = n) \<Longrightarrow> length (concat (map f xs)) = n * length xs"
  by (induction xs) auto

end
