(* ===== verification/CLib.thy ===== *)
theory CLib
  imports Prelude
begin

text \<open>
  The part of the C language and of its library that the program uses: byte blocks with bounds,
  the little-endian layout of integers in them, NUL-terminated strings (\<open>strlen\<close>, \<open>strcpy\<close>,
  \<open>strcmp\<close>, \<open>strncmp\<close>), \<open>atoi\<close>, and \<open>sprintf\<close> with the conversions the format strings of
  the program use (\<open>%d\<close>, \<open>%.4d\<close>, \<open>%ld\<close>, \<open>%s\<close>).  A byte is a \<open>char\<close>; a block is the list
  of its bytes, so its length is the size \<open>malloc\<close> was called with.
\<close>

section \<open>Blocks\<close>

text \<open>A block fresh from \<open>malloc\<close> holds whatever was there: the parameter \<open>junk\<close>.\<close>

definition alloc :: "(nat \<Rightarrow> char) \<Rightarrow> nat \<Rightarrow> bytes" where
  "alloc junk n = map junk [0..<n]"

lemma length_alloc [simp]: "length (alloc junk n) = n"
  by (simp add: alloc_def)

text \<open>\<open>realloc\<close> keeps the bytes both blocks have.\<close>

definition realloc :: "(nat \<Rightarrow> char) \<Rightarrow> bytes \<Rightarrow> nat \<Rightarrow> bytes" where
  "realloc junk b n = take n b @ map junk [length b..<n]"

lemma length_realloc [simp]: "length (realloc junk b n) = n"
  by (simp add: realloc_def)

lemma realloc_same [simp]: "length b = n \<Longrightarrow> realloc junk b n = b"
  by (simp add: realloc_def)

definition peek :: "nat \<Rightarrow> nat \<Rightarrow> bytes \<Rightarrow> bytes option" where
  "peek off n b = (if off + n \<le> length b then Some (take n (drop off b)) else None)"

definition poke :: "nat \<Rightarrow> bytes \<Rightarrow> bytes \<Rightarrow> bytes option" where
  "poke off src b =
     (if off + length src \<le> length b then Some (take off b @ src @ drop (off + length src) b)
      else None)"

lemma length_poke: "poke off src b = Some b' \<Longrightarrow> length b' = length b"
  by (auto simp: poke_def split: if_splits)

lemma peek_poke_same:
  "poke off src b = Some b' \<Longrightarrow> peek off (length src) b' = Some src"
  by (auto simp: poke_def peek_def split: if_splits)

lemma peek_poke_before:
  "poke off src b = Some b' \<Longrightarrow> o' + n \<le> off \<Longrightarrow> peek o' n b' = peek o' n b"
  by (auto simp: poke_def peek_def drop_take min_def split: if_splits)

lemma poke_eq_None_iff: "poke off src b = None \<longleftrightarrow> length b < off + length src"
  by (auto simp: poke_def)

lemma poke_0: "length src \<le> length b \<Longrightarrow> poke 0 src b = Some (src @ drop (length src) b)"
  by (simp add: poke_def)

section \<open>Integers in memory\<close>

text \<open>Little-endian bytes of a natural number, least significant first.\<close>

primrec le :: "nat \<Rightarrow> nat \<Rightarrow> bytes" where
  "le 0 n = []"
| "le (Suc k) n = char_of (n mod 256) # le k (n div 256)"

primrec unle :: "bytes \<Rightarrow> nat" where
  "unle [] = 0"
| "unle (c # cs) = of_char c + 256 * unle cs"

lemma length_le [simp]: "length (le k n) = k"
  by (induction k arbitrary: n) auto

lemma unle_le: "unle (le k n) = n mod 256 ^ k"
proof (induction k arbitrary: n)
  case 0
  then show ?case by simp
next
  case (Suc k)
  have "unle (le (Suc k) n) = n mod 256 + 256 * ((n div 256) mod 256 ^ k)"
    by (simp add: Suc.IH)
  also have "\<dots> = n mod (256 * 256 ^ k)"
    by (simp add: mod_mult2_eq)
  finally show ?case by simp
qed

lemma unle_less: "unle cs < 256 ^ length cs"
proof (induction cs)
  case Nil
  then show ?case by simp
next
  case (Cons c cs)
  have "of_char c < (256::nat)" by simp
  with Cons have "of_char c + 256 * unle cs < 256 * 256 ^ length cs"
    by linarith
  then show ?case by simp
qed

lemma le_unle: "le (length cs) (unle cs) = cs"
proof (induction cs)
  case Nil
  then show ?case by simp
next
  case (Cons c cs)
  have "(of_char c :: nat) < 256" by simp
  with Cons show ?case by simp
qed

definition le4 :: "i32 \<Rightarrow> bytes" where
  "le4 w = le 4 (unat w)"

definition le8 :: "i64 \<Rightarrow> bytes" where
  "le8 w = le 8 (unat w)"

definition rd4 :: "bytes \<Rightarrow> i32" where
  "rd4 b = word_of_nat (unle (take 4 b))"

definition rd8 :: "bytes \<Rightarrow> i64" where
  "rd8 b = word_of_nat (unle (take 8 b))"

lemma length_le4 [simp]: "length (le4 w) = 4"
  by (simp add: le4_def)

lemma length_le8 [simp]: "length (le8 w) = 8"
  by (simp add: le8_def)

lemma rd4_le4 [simp]: "rd4 (le4 w @ b) = w"
proof -
  have "unat w < 256 ^ 4" using unsigned_less [of w, where ?'a = nat] by simp
  then show ?thesis by (simp add: rd4_def le4_def unle_le)
qed

lemma rd8_le8 [simp]: "rd8 (le8 w @ b) = w"
proof -
  have "unat w < 256 ^ 8" using unsigned_less [of w, where ?'a = nat] by simp
  then show ?thesis by (simp add: rd8_def le8_def unle_le)
qed

lemma rd4_le4_Nil [simp]: "rd4 (le4 w) = w"
  using rd4_le4 [of w "[]"] by simp

lemma rd8_le8_Nil [simp]: "rd8 (le8 w) = w"
  using rd8_le8 [of w "[]"] by simp

lemma le4_rd4:
  assumes "4 \<le> length b"
  shows "le4 (rd4 b) = take 4 b"
proof -
  have len: "length (take 4 b) = 4" using assms by simp
  have "unle (take 4 b) < 2 ^ 32" using unle_less [of "take 4 b"] len by simp
  then have "unat (rd4 b) = unle (take 4 b)"
    by (simp add: rd4_def unat_of_nat take_bit_nat_eq_self)
  then show ?thesis using le_unle [of "take 4 b"] len by (simp add: le4_def)
qed

lemma le8_rd8:
  assumes "8 \<le> length b"
  shows "le8 (rd8 b) = take 8 b"
proof -
  have len: "length (take 8 b) = 8" using assms by simp
  have "unle (take 8 b) < 2 ^ 64" using unle_less [of "take 8 b"] len by simp
  then have "unat (rd8 b) = unle (take 8 b)"
    by (simp add: rd8_def unat_of_nat take_bit_nat_eq_self)
  then show ?thesis using le_unle [of "take 8 b"] len by (simp add: le8_def)
qed

section \<open>Strings\<close>

abbreviation NUL :: char where
  "NUL \<equiv> CHR 0x00"

text \<open>The string at the start of a block, \<open>None\<close> when no NUL ends it inside the block.\<close>

fun cstr :: "bytes \<Rightarrow> string option" where
  "cstr [] = None"
| "cstr (c # cs) = (if c = NUL then Some [] else map_option ((#) c) (cstr cs))"

definition nul_free :: "string \<Rightarrow> bool" where
  "nul_free s \<longleftrightarrow> NUL \<notin> set s"

lemma nul_free_simps [simp]:
  "nul_free []"
  "nul_free (c # s) \<longleftrightarrow> c \<noteq> NUL \<and> nul_free s"
  "nul_free (s @ t) \<longleftrightarrow> nul_free s \<and> nul_free t"
  by (auto simp: nul_free_def)

lemma cstr_append [simp]: "nul_free s \<Longrightarrow> cstr (s @ NUL # b) = Some s"
  by (induction s) auto

lemma cstr_SomeD: "cstr b = Some s \<Longrightarrow> nul_free s \<and> (\<exists>r. b = s @ NUL # r)"
proof (induction b arbitrary: s)
  case Nil
  then show ?case by simp
next
  case (Cons c cs)
  then show ?case by (cases "c = NUL") fastforce+
qed

lemma cstr_length: "cstr b = Some s \<Longrightarrow> length s < length b"
  by (auto dest!: cstr_SomeD)

text \<open>\<open>strcpy\<close> writes the string and its NUL.\<close>

definition strcpy :: "nat \<Rightarrow> string \<Rightarrow> bytes \<Rightarrow> bytes option" where
  "strcpy off s b = poke off (s @ [NUL]) b"

text \<open>\<open>strcmp (a, b) == 0\<close> and \<open>strncmp (a, b, n) == 0\<close> on NUL-free strings.\<close>

definition streq :: "string \<Rightarrow> string \<Rightarrow> bool" where
  "streq a b \<longleftrightarrow> a = b"

definition strneq :: "nat \<Rightarrow> string \<Rightarrow> string \<Rightarrow> bool" where
  "strneq n a b \<longleftrightarrow> take n a = take n b"

section \<open>Decimal numbers\<close>

definition digit :: "nat \<Rightarrow> char" where
  "digit d = ''0123456789'' ! d"

definition is_digit :: "char \<Rightarrow> bool" where
  "is_digit c \<longleftrightarrow> (48::nat) \<le> of_char c \<and> of_char c \<le> (57::nat)"

definition digit_val :: "char \<Rightarrow> nat" where
  "digit_val c = of_char c - 48"

fun dec_nat :: "nat \<Rightarrow> string" where
  "dec_nat n = (if n < 10 then [digit n] else dec_nat (n div 10) @ [digit (n mod 10)])"

declare dec_nat.simps [simp del]

definition dec :: "int \<Rightarrow> string" where
  "dec i = (if i < 0 then CHR ''-'' # dec_nat (nat (- i)) else dec_nat (nat i))"

lemma digit_cases: "d < 10 \<Longrightarrow> d \<in> {0, 1, 2, 3, 4, 5, 6, 7, 8, 9}" for d :: nat
  by auto

lemma is_digit_digit [simp]: "d < 10 \<Longrightarrow> is_digit (digit d)"
  by (drule digit_cases) (auto simp: is_digit_def digit_def)

lemma digit_val_digit [simp]: "d < 10 \<Longrightarrow> digit_val (digit d) = d"
  by (drule digit_cases) (auto simp: digit_val_def digit_def)

lemma dec_nat_digits: "list_all is_digit (dec_nat n)"
proof (induction n rule: dec_nat.induct)
  case (1 n)
  then show ?case by (subst dec_nat.simps) auto
qed

lemma dec_nat_not_Nil [simp]: "dec_nat n \<noteq> []"
  by (subst dec_nat.simps) simp

lemma is_digit_NUL [simp]: "\<not> is_digit NUL"
  by (simp add: is_digit_def)

lemma nul_free_digits: "list_all is_digit s \<Longrightarrow> nul_free s"
  by (induction s) auto

lemma nul_free_dec [simp]: "nul_free (dec i)"
  by (simp add: dec_def nul_free_digits [OF dec_nat_digits])

lemma length_dec_nat: "n < 10 ^ k \<Longrightarrow> 0 < k \<Longrightarrow> length (dec_nat n) \<le> k"
proof (induction k arbitrary: n)
  case 0
  then show ?case by simp
next
  case (Suc k)
  show ?case
  proof (cases "n < 10")
    case True
    then show ?thesis by (subst dec_nat.simps) simp
  next
    case False
    with Suc.prems have "n div 10 < 10 ^ k" "0 < k" by (cases k; simp)+
    then have "length (dec_nat (n div 10)) \<le> k" by (rule Suc.IH)
    with False show ?thesis by (subst dec_nat.simps) simp
  qed
qed

text \<open>Reading digits: the accumulating loop of \<open>strtol\<close>, and the rest it leaves.\<close>

fun span_digits :: "string \<Rightarrow> string \<times> string" where
  "span_digits [] = ([], [])"
| "span_digits (c # cs) =
     (if is_digit c then let (d, r) = span_digits cs in (c # d, r) else ([], c # cs))"

definition num_val :: "string \<Rightarrow> nat" where
  "num_val ds = foldl (\<lambda>a c. 10 * a + digit_val c) 0 ds"

lemma num_val_snoc [simp]: "num_val (ds @ [c]) = 10 * num_val ds + digit_val c"
  by (simp add: num_val_def)

lemma num_val_Nil [simp]: "num_val [] = 0"
  by (simp add: num_val_def)

lemma num_val_dec_nat [simp]: "num_val (dec_nat n) = n"
proof (induction n rule: dec_nat.induct)
  case (1 n)
  show ?case
  proof (cases "n < 10")
    case True
    then show ?thesis using num_val_snoc [of "[]" "digit n"] by (subst dec_nat.simps) simp
  next
    case False
    with 1 show ?thesis by (subst dec_nat.simps) simp
  qed
qed

lemma span_digits_append:
  "list_all is_digit ds \<Longrightarrow> (case r of [] \<Rightarrow> True | c # _ \<Rightarrow> \<not> is_digit c) \<Longrightarrow>
   span_digits (ds @ r) = (ds, r)"
  by (induction ds) (auto split: list.splits)

lemma span_digits_dec_nat:
  "(case r of [] \<Rightarrow> True | c # _ \<Rightarrow> \<not> is_digit c) \<Longrightarrow> span_digits (dec_nat n @ r) = (dec_nat n, r)"
  by (rule span_digits_append [OF dec_nat_digits])

text \<open>
  \<open>atoi (s)\<close> is \<open>(int) strtol (s, NULL, 10)\<close>: leading white space, an optional sign, digits;
  \<open>strtol\<close> saturates at the bounds of \<open>long\<close>, the cast keeps the low 32 bits.
\<close>

definition is_space :: "char \<Rightarrow> bool" where
  "is_space c \<longleftrightarrow> c = CHR '' '' \<or> ((9::nat) \<le> of_char c \<and> of_char c \<le> (13::nat))"

definition clamp_long :: "int \<Rightarrow> int" where
  "clamp_long i = max (- (2 ^ 63)) (min (2 ^ 63 - 1) i)"

definition strtol :: "string \<Rightarrow> int" where
  "strtol s =
     (case dropWhile is_space s of
        [] \<Rightarrow> 0
      | c # cs \<Rightarrow>
          clamp_long
            (if c = CHR ''-'' then - int (num_val (fst (span_digits cs)))
             else if c = CHR ''+'' then int (num_val (fst (span_digits cs)))
             else int (num_val (fst (span_digits (c # cs))))))"

definition atoi :: "string \<Rightarrow> i32" where
  "atoi s = word_of_int (strtol s)"

lemma is_digit_not_space: "is_digit c \<Longrightarrow> \<not> is_space c"
  by (auto simp: is_digit_def is_space_def)

lemma strtol_digits:
  assumes "list_all is_digit s" "s \<noteq> []"
  shows "strtol s = clamp_long (int (num_val s))"
proof -
  obtain c cs where s: "s = c # cs" using assms(2) by (cases s) auto
  with assms(1) have d: "is_digit c" by simp
  then have "\<not> is_space c" "c \<noteq> CHR ''-''" "c \<noteq> CHR ''+''"
    by (auto simp: is_digit_def is_space_def)
  moreover have "span_digits (s @ []) = (s, [])"
    using assms(1) by (intro span_digits_append) auto
  ultimately show ?thesis using s by (simp add: strtol_def)
qed

lemma strtol_neg_digits:
  assumes "list_all is_digit s"
  shows "strtol (CHR ''-'' # s) = clamp_long (- int (num_val s))"
proof -
  have "span_digits (s @ []) = (s, [])" using assms by (intro span_digits_append) auto
  then show ?thesis by (simp add: strtol_def is_space_def)
qed

lemma clamp_long_id: "- (2 ^ 63) \<le> i \<Longrightarrow> i < 2 ^ 63 \<Longrightarrow> clamp_long i = i"
  by (simp add: clamp_long_def)

lemma strtol_dec:
  assumes "- (2 ^ 63) \<le> i" "i < 2 ^ 63"
  shows "strtol (dec i) = i"
proof (cases "i < 0")
  case True
  then have "strtol (dec i) = clamp_long i"
    by (simp add: dec_def strtol_neg_digits dec_nat_digits)
  then show ?thesis using assms by (simp only: clamp_long_id)
next
  case False
  then have "strtol (dec i) = clamp_long i"
    by (simp add: dec_def strtol_digits dec_nat_digits)
  then show ?thesis using assms by (simp only: clamp_long_id)
qed

lemma atoi_dec [simp]: "atoi (dec (sint (w::i32))) = w"
proof -
  have "- (2 ^ 31) \<le> sint w" "sint w < 2 ^ 31"
    using sint_ge [of w] sint_lt [of w] by simp_all
  then have "strtol (dec (sint w)) = sint w"
    by (intro strtol_dec) auto
  then show ?thesis by (simp add: atoi_def)
qed

section \<open>sprintf\<close>

datatype carg = AInt i32 | ALong i64 | AStr string

text \<open>\<open>%.4d\<close> pads the digits with zeros to four.\<close>

definition dec4 :: "int \<Rightarrow> string" where
  "dec4 i =
     (let ds = dec_nat (nat \<bar>i\<bar>)
      in (if i < 0 then ''-'' else '''') @ replicate (4 - length ds) (CHR ''0'') @ ds)"

text \<open>
  The conversions of the program's format strings; an argument that does not fit the conversion
  or is missing is undefined.
\<close>

fun format :: "string \<Rightarrow> carg list \<Rightarrow> string option" where
  "format [] as = Some []"
| "format (c # f) as =
     (if c = CHR ''%'' then
        (case (f, as) of
           (d # f', AInt w # as') \<Rightarrow>
             (if d = CHR ''d'' then map_option ((@) (dec (sint w))) (format f' as')
              else if d = CHR ''.'' \<and> take 2 f' = ''4d''
              then map_option ((@) (dec4 (sint w))) (format (drop 2 f') as')
              else None)
         | (l # d # f', ALong w # as') \<Rightarrow>
             (if l = CHR ''l'' \<and> d = CHR ''d'' then map_option ((@) (dec (sint w))) (format f' as')
              else None)
         | (s # f', AStr x # as') \<Rightarrow>
             (if s = CHR ''s'' then map_option ((@) x) (format f' as') else None)
         | _ \<Rightarrow> None)
      else map_option ((#) c) (format f as))"

text \<open>\<open>sprintf\<close> into an array of \<open>n\<close> bytes: out of bounds when the text and its NUL do not fit.\<close>

definition sprintf :: "nat \<Rightarrow> string \<Rightarrow> carg list \<Rightarrow> string option" where
  "sprintf n fmt as =
     (case format fmt as of
        None \<Rightarrow> None
      | Some s \<Rightarrow> if length s < n then Some s else None)"

text \<open>\<open>printf\<close>: the text it prints.\<close>

definition printf :: "string \<Rightarrow> carg list \<Rightarrow> string cres" where
  "printf fmt as = deref (format fmt as)"

lemma length_dec_i32: "length (dec (sint (w::i32))) \<le> 11"
proof -
  have "nat \<bar>sint w\<bar> < 10 ^ 10"
    using sint_ge [of w] sint_lt [of w] by simp
  then have "length (dec_nat (nat \<bar>sint w\<bar>)) \<le> 10" by (intro length_dec_nat) auto
  then show ?thesis by (simp add: dec_def abs_if split: if_splits)
qed

lemma length_dec_i64: "length (dec (sint (w::i64))) \<le> 20"
proof -
  have "nat \<bar>sint w\<bar> < 10 ^ 19"
    using sint_ge [of w] sint_lt [of w] by simp
  then have "length (dec_nat (nat \<bar>sint w\<bar>)) \<le> 19" by (intro length_dec_nat) auto
  then show ?thesis by (simp add: dec_def abs_if split: if_splits)
qed

end
