(* ===== verification/Datagram.thy ===== *)
theory Datagram
  imports CLib
begin

text \<open>
  The data of \<open>include/database.h\<close> and the constants of \<open>include/config.h\<close>: flights
  (\<open>DB_ENTRY\<close>), the datagram exchanged between client and server (\<open>DB_DATAGRAM\<close>) and its
  layout in memory, with the round trips between the records and their bytes.

  Every member of the first union (\<open>_data\<close>) is four bytes wide, so the union is one 32-bit word
  and its members are readings of that word.  The second union (\<open>_raw_data\<close>) ends the structure
  and is used past its end for variable-length contents, so it is the list of the bytes from its
  offset to the end of the block that holds the datagram.
\<close>

section \<open>Build variants and constants\<close>

text \<open>
  The Makefiles build one program for each transport; \<open>-DMSGQUEUE\<close> adds the member \<open>sender\<close>.
  \<open>LOCAL\<close> is \<open>localclient\<close>, which has no transport.
\<close>

datatype build = SHMEM | SOCKET | FIFO | FILES | MSGQUEUE | LOCAL

definition DATAGRAM_MAXSIZE :: nat where [layout]: "DATAGRAM_MAXSIZE = 4096"
definition SHMEM_SIZE :: nat where [layout]: "SHMEM_SIZE = 4096"
definition FLIGHT_SIZE :: nat where [layout]: "FLIGHT_SIZE = 32"

definition DB_PATH :: string where "DB_PATH = ''../database.sqlite''"
definition FIFO_INITIAL_PATH :: string where "FIFO_INITIAL_PATH = ''/tmp/so-wannafight-fifo''"
definition FILES_INITIAL_PATH :: string where "FILES_INITIAL_PATH = ''/tmp/so-wannafight-files''"
definition LOCALCLIENT_MUTEX_PATH :: string where
  "LOCALCLIENT_MUTEX_PATH = ''/tmp/so-wannafight.mutex''"

text \<open>\<open>typedef enum {FALSE, TRUE} bool\<close>\<close>

definition c_bool :: "bool \<Rightarrow> i32" where "c_bool b = (if b then 1 else 0)"

section \<open>Operation codes\<close>

datatype opcode =
  OP_PURCHASE | OP_CONSULT | OP_CANCEL | OP_EXIT | OP_CONNECT | OP_PING | OP_PONG | OP_ADDFLIGHT

primrec opc :: "opcode \<Rightarrow> i32" where
  "opc OP_PURCHASE = 0"
| "opc OP_CONSULT = 1"
| "opc OP_CANCEL = 2"
| "opc OP_EXIT = 3"
| "opc OP_CONNECT = 4"
| "opc OP_PING = 5"
| "opc OP_PONG = 6"
| "opc OP_ADDFLIGHT = 7"

lemma opc_inj [simp]: "opc a = opc b \<longleftrightarrow> a = b"
  by (cases a; cases b) simp_all

text \<open>An enumeration is ordered as its numbers are.\<close>

instantiation opcode :: linorder
begin

definition less_eq_opcode :: "opcode \<Rightarrow> opcode \<Rightarrow> bool" where
  "less_eq_opcode x y \<longleftrightarrow> opc x \<le> opc y"

definition less_opcode :: "opcode \<Rightarrow> opcode \<Rightarrow> bool" where
  "less_opcode x y \<longleftrightarrow> opc x < opc y"

instance
  by standard (auto simp: less_eq_opcode_def less_opcode_def order_less_le dest: order.antisym)

end

section \<open>Flights\<close>

type_synonym flight_id = i32
type_synonym airport_id = i32
type_synonym res_id = i32

text \<open>A header no code uses, a seat, and a flight.\<close>

record db_header =
  last_flight_id :: i32
  last_reservation :: res_id

record db_seat =
  seat_res_id :: i32

record db_entry =
  fl_id :: flight_id
  fl_departure :: i64
  fl_seats :: "db_seat list"
  fl_is_empty :: i32
  fl_origin :: airport_id
  fl_destination :: airport_id

text \<open>
  The structure is packed: \<open>id\<close> at 0, \<open>departure\<close> at 4, the 32 seats at 12, \<open>is_empty\<close> at 140,
  \<open>origin\<close> at 144 and \<open>destination\<close> at 148.
\<close>

definition SIZEOF_ENTRY :: nat where [layout]: "SIZEOF_ENTRY = 152"

primrec seats_of :: "nat \<Rightarrow> bytes \<Rightarrow> db_seat list" where
  "seats_of 0 b = []"
| "seats_of (Suc n) b = \<lparr>seat_res_id = rd4 b\<rparr> # seats_of n (drop 4 b)"

definition seats_bytes :: "db_seat list \<Rightarrow> bytes" where
  "seats_bytes ss = concat (map (\<lambda>s. le4 (seat_res_id s)) ss)"

definition entry_bytes :: "db_entry \<Rightarrow> bytes" where
  "entry_bytes e =
     le4 (fl_id e) @ le8 (fl_departure e) @ seats_bytes (fl_seats e) @ le4 (fl_is_empty e) @
     le4 (fl_origin e) @ le4 (fl_destination e)"

definition entry_of :: "bytes \<Rightarrow> db_entry" where
  "entry_of b =
     \<lparr>fl_id = rd4 b, fl_departure = rd8 (drop 4 b), fl_seats = seats_of FLIGHT_SIZE (drop 12 b),
      fl_is_empty = rd4 (drop 140 b), fl_origin = rd4 (drop 144 b),
      fl_destination = rd4 (drop 148 b)\<rparr>"

definition entry_wf :: "db_entry \<Rightarrow> bool" where
  "entry_wf e \<longleftrightarrow> length (fl_seats e) = FLIGHT_SIZE"

lemma length_seats_of [simp]: "length (seats_of n b) = n"
  by (induction n arbitrary: b) auto

lemma length_seats_bytes [simp]: "length (seats_bytes ss) = 4 * length ss"
  by (induction ss) (auto simp: seats_bytes_def)

lemma seats_of_bytes: "seats_of (length ss) (seats_bytes ss @ b) = ss"
  by (induction ss) (auto simp: seats_bytes_def)

lemma seats_bytes_of: "4 * n \<le> length b \<Longrightarrow> seats_bytes (seats_of n b) = take (4 * n) b"
proof (induction n arbitrary: b)
  case 0
  then show ?case by (simp add: seats_bytes_def)
next
  case (Suc n)
  then have "seats_bytes (seats_of n (drop 4 b)) = take (4 * n) (drop 4 b)" by simp
  with Suc.prems have "seats_bytes (seats_of (Suc n) b) = take 4 b @ take (4 * n) (drop 4 b)"
    by (simp add: seats_bytes_def le4_rd4)
  also have "\<dots> = take (4 * Suc n) b" by (simp add: take_add)
  finally show ?case .
qed

lemma entry_wf_of [simp]: "entry_wf (entry_of b)"
  by (simp add: entry_wf_def entry_of_def)

lemma length_entry_bytes [simp]: "entry_wf e \<Longrightarrow> length (entry_bytes e) = 152"
  by (simp add: entry_bytes_def entry_wf_def layout)

text \<open>Writing an entry and reading it back gives the entry, whatever follows it in memory.\<close>

lemma entry_of_bytes: "entry_wf e \<Longrightarrow> entry_of (entry_bytes e @ r) = e"
  using seats_of_bytes [of "fl_seats e"]
  by (simp add: entry_of_def entry_bytes_def entry_wf_def layout)

lemma entry_bytes_of:
  assumes "length b = 152"
  shows "entry_bytes (entry_of b) = b"
proof -
  have "entry_bytes (entry_of b) =
      take 4 b @ take 8 (drop 4 b) @ take 128 (drop 12 b) @ take 4 (drop 140 b) @
      take 4 (drop 144 b) @ take 4 (drop 148 b)"
    using assms seats_bytes_of [of 32 "drop 12 b"]
    by (simp add: entry_bytes_def entry_of_def le4_rd4 le8_rd8 layout)
  also have "\<dots> = take 152 b"
    by (simp add: take_chunk take_chunk_end)
  finally show ?thesis using assms by simp
qed

section \<open>Datagrams\<close>

record datagram =
  dg_size :: i64
  dg_opcode :: i32
  dg_sender :: i32
  dg_data :: i32
  dg_raw :: bytes

text \<open>Offset of \<open>_raw_data\<close> and size of the structure (aligned to eight bytes).\<close>

definition HDR :: "build \<Rightarrow> nat" where
  [layout]: "HDR b = (if b = MSGQUEUE then 20 else 16)"

definition SIZEOF_DG :: "build \<Rightarrow> nat" where
  [layout]: "SIZEOF_DG b = (if b = MSGQUEUE then 176 else 168)"

lemma HDR_le_SIZEOF: "HDR b \<le> SIZEOF_DG b"
  by (simp add: layout)

text \<open>The members of \<open>_data\<close>.\<close>

abbreviation dg_count :: "datagram \<Rightarrow> i32" where "dg_count \<equiv> dg_data"
abbreviation dg_seat :: "datagram \<Rightarrow> i32" where "dg_seat \<equiv> dg_data"
abbreviation dg_result :: "datagram \<Rightarrow> i32" where "dg_result \<equiv> dg_data"
abbreviation dg_shmemkey :: "datagram \<Rightarrow> i32" where "dg_shmemkey \<equiv> dg_data"
abbreviation dg_flightid :: "datagram \<Rightarrow> i32" where "dg_flightid \<equiv> dg_data"
abbreviation dg_origin :: "datagram \<Rightarrow> i32" where "dg_origin \<equiv> dg_data"
abbreviation dg_pid :: "datagram \<Rightarrow> i32" where "dg_pid \<equiv> dg_data"

text \<open>The members of \<open>_raw_data\<close>; \<open>None\<close> when the access leaves the block.\<close>

definition dg_cmd :: "datagram \<Rightarrow> string option" where
  "dg_cmd d = cstr (dg_raw d)"

definition dg_destination :: "datagram \<Rightarrow> i32 option" where
  "dg_destination d = map_option rd4 (peek 0 4 (dg_raw d))"

definition dg_results :: "datagram \<Rightarrow> nat \<Rightarrow> db_entry option" where
  "dg_results d i = map_option entry_of (peek (i * SIZEOF_ENTRY) SIZEOF_ENTRY (dg_raw d))"

definition put_raw :: "nat \<Rightarrow> bytes \<Rightarrow> datagram \<Rightarrow> datagram option" where
  "put_raw off bs d = map_option (\<lambda>r. d\<lparr>dg_raw := r\<rparr>) (poke off bs (dg_raw d))"

definition put_cmd :: "string \<Rightarrow> datagram \<Rightarrow> datagram option" where
  "put_cmd s d = map_option (\<lambda>r. d\<lparr>dg_raw := r\<rparr>) (strcpy 0 s (dg_raw d))"

definition put_destination :: "i32 \<Rightarrow> datagram \<Rightarrow> datagram option" where
  "put_destination w d = put_raw 0 (le4 w) d"

definition put_result :: "nat \<Rightarrow> db_entry \<Rightarrow> datagram \<Rightarrow> datagram option" where
  "put_result i e d = put_raw (i * SIZEOF_ENTRY) (entry_bytes e) d"

section \<open>Datagrams as bytes\<close>

definition dg_bytes :: "build \<Rightarrow> datagram \<Rightarrow> bytes" where
  "dg_bytes b d =
     le8 (dg_size d) @ le4 (dg_opcode d) @ (if b = MSGQUEUE then le4 (dg_sender d) else []) @
     le4 (dg_data d) @ dg_raw d"

text \<open>
  A block read as a datagram; \<open>None\<close> when the block is too short for the members before
  \<open>_raw_data\<close>.  Without \<open>-DMSGQUEUE\<close> there is no \<open>sender\<close>; the record has 0 there.
\<close>

definition dg_of_bytes :: "build \<Rightarrow> bytes \<Rightarrow> datagram option" where
  "dg_of_bytes b bs =
     (if length bs < HDR b then None
      else Some \<lparr>dg_size = rd8 bs, dg_opcode = rd4 (drop 8 bs),
                 dg_sender = (if b = MSGQUEUE then rd4 (drop 12 bs) else 0),
                 dg_data = rd4 (drop (if b = MSGQUEUE then 16 else 12) bs),
                 dg_raw = drop (HDR b) bs\<rparr>)"

definition malloc_dg :: "build \<Rightarrow> (nat \<Rightarrow> char) \<Rightarrow> nat \<Rightarrow> datagram" where
  "malloc_dg b junk n =
     (let bs = alloc junk n in
      \<lparr>dg_size = rd8 bs, dg_opcode = rd4 (drop 8 bs),
       dg_sender = (if b = MSGQUEUE then rd4 (drop 12 bs) else 0),
       dg_data = rd4 (drop (if b = MSGQUEUE then 16 else 12) bs), dg_raw = drop (HDR b) bs\<rparr>)"

lemma length_dg_bytes [simp]: "length (dg_bytes b d) = HDR b + length (dg_raw d)"
  by (simp add: dg_bytes_def layout)

lemma length_malloc_raw [simp]: "length (dg_raw (malloc_dg b junk n)) = n - HDR b"
  by (simp add: malloc_dg_def Let_def)

lemma malloc_dg_sender [simp]: "b \<noteq> MSGQUEUE \<Longrightarrow> dg_sender (malloc_dg b junk n) = 0"
  by (simp add: malloc_dg_def Let_def)

text \<open>
  A datagram of the build \<open>b\<close> is well formed when its \<open>size\<close> member is the size of its block
  and the block is at least the structure.
\<close>

definition dg_wf :: "build \<Rightarrow> datagram \<Rightarrow> bool" where
  "dg_wf b d \<longleftrightarrow>
     unat (dg_size d) = HDR b + length (dg_raw d) \<and> SIZEOF_DG b \<le> unat (dg_size d) \<and>
     (b \<noteq> MSGQUEUE \<longrightarrow> dg_sender d = 0)"

lemma dg_wf_length: "dg_wf b d \<Longrightarrow> length (dg_bytes b d) = unat (dg_size d)"
  by (simp add: dg_wf_def)

lemma dg_wf_data [simp]: "dg_wf b (d\<lparr>dg_data := x\<rparr>) = dg_wf b d"
  by (simp add: dg_wf_def)

text \<open>Sending the bytes of a datagram and reading them as a datagram gives it back.\<close>

lemma dg_of_bytes_bytes:
  "(b \<noteq> MSGQUEUE \<longrightarrow> dg_sender d = 0) \<Longrightarrow> dg_of_bytes b (dg_bytes b d) = Some d"
  by (auto simp: dg_of_bytes_def dg_bytes_def layout)

lemma dg_bytes_of_bytes:
  assumes "dg_of_bytes b bs = Some d"
  shows "dg_bytes b d = bs"
proof -
  have len: "HDR b \<le> length bs" using assms by (auto simp: dg_of_bytes_def split: if_splits)
  show ?thesis
  proof (cases "b = MSGQUEUE")
    case True
    with len have "dg_bytes b d =
        take 8 bs @ take 4 (drop 8 bs) @ take 4 (drop 12 bs) @ take 4 (drop 16 bs) @ drop 20 bs"
      using assms by (auto simp: dg_of_bytes_def dg_bytes_def le4_rd4 le8_rd8 layout)
    then show ?thesis by (simp add: take_chunk)
  next
    case False
    with len have "dg_bytes b d =
        take 8 bs @ take 4 (drop 8 bs) @ take 4 (drop 12 bs) @ drop 16 bs"
      using assms by (auto simp: dg_of_bytes_def dg_bytes_def le4_rd4 le8_rd8 layout)
    then show ?thesis by (simp add: take_chunk)
  qed
qed

section \<open>Building datagrams\<close>

text \<open>A fresh datagram: \<open>malloc\<close>, then the members \<open>size\<close> and \<open>opcode\<close>.\<close>

definition new_dg :: "build \<Rightarrow> (nat \<Rightarrow> char) \<Rightarrow> nat \<Rightarrow> opcode \<Rightarrow> datagram" where
  "new_dg b hp n op = (malloc_dg b hp n)\<lparr>dg_size := word_of_nat n, dg_opcode := opc op\<rparr>"

lemma new_dg_simps [simp]:
  "dg_opcode (new_dg b hp n op) = opc op"
  "length (dg_raw (new_dg b hp n op)) = n - HDR b"
  "b \<noteq> MSGQUEUE \<Longrightarrow> dg_sender (new_dg b hp n op) = 0"
  "dg_size (new_dg b hp n op) = word_of_nat n"
  by (simp_all add: new_dg_def)

lemma dg_wf_new: "SIZEOF_DG b \<le> n \<Longrightarrow> n < 2 ^ 64 \<Longrightarrow> dg_wf b (new_dg b hp n op)"
  using HDR_le_SIZEOF [of b] by (simp add: dg_wf_def unat_of_nat_small)

lemma put_cmd_fits:
  assumes "length s < length (dg_raw d)"
  shows "\<exists>d'. put_cmd s d = Some d' \<and> (nul_free s \<longrightarrow> dg_cmd d' = Some s) \<and>
    d' = d\<lparr>dg_raw := dg_raw d'\<rparr> \<and> length (dg_raw d') = length (dg_raw d)"
  using assms by (simp add: put_cmd_def strcpy_def dg_cmd_def poke_0)

lemma put_cmd_None: "length (dg_raw d) \<le> length s \<Longrightarrow> put_cmd s d = None"
  by (simp add: put_cmd_def strcpy_def poke_def)

lemma dg_cmd_length: "dg_cmd d = Some s \<Longrightarrow> length s < length (dg_raw d) \<and> nul_free s"
  using cstr_length cstr_SomeD by (fastforce simp: dg_cmd_def)

section \<open>Printing a datagram\<close>

text \<open>\<open>DUMP_DBENTRY\<close>, \<open>DUMP_RESULT_DATAGRAM\<close>, \<open>DATAGRAM_PRINT\<close> and \<open>DUMP_DATAGRAM\<close>.\<close>

definition nl :: string where "nl = [CHR 0x0A]"
definition tab :: string where "tab = [CHR 0x09]"

definition dump_entry :: "db_entry \<Rightarrow> string" where
  "dump_entry e =
     ''[DB_ENTRY]['' @ nl @ tab @ tab @ ''Vuelo ID: '' @ dec (sint (fl_id e)) @ nl @
     tab @ tab @ ''Salida: '' @ dec (sint (fl_departure e)) @ nl @
     tab @ tab @ ''Origen: '' @ dec (sint (fl_origin e)) @ nl @
     tab @ tab @ ''Destino: '' @ dec (sint (fl_destination e)) @ nl @ '']'' @ nl"

primrec dump_results :: "datagram \<Rightarrow> nat \<Rightarrow> string cres" where
  "dump_results d 0 = Val []"
| "dump_results d (Suc n) =
     cbind (dump_results d n) (\<lambda>out. cbind (deref (dg_results d n)) (\<lambda>e. Val (out @ dump_entry e)))"

definition datagram_print :: "build \<Rightarrow> datagram \<Rightarrow> string" where
  "datagram_print b d =
     ''[DATAGRAM]['' @ nl @ tab @ ''Tama'' @ [CHR 0xC3, CHR 0xB1] @ ''o: '' @
     dec (int (unat (dg_size d))) @ nl @ tab @ ''opcode: '' @ dec (sint (dg_opcode d)) @ nl @
     (if b = MSGQUEUE then tab @ ''sender: '' @ dec (sint (dg_sender d)) @ nl
      else if b = FILES then tab @ ''pid: '' @ dec (sint (dg_pid d)) @ nl
      else [])"

definition dump_datagram :: "build \<Rightarrow> datagram \<Rightarrow> string cres" where
  "dump_datagram b d =
     cbind
       (if dg_opcode d = opc OP_CONSULT then
          cbind (deref (dg_destination d)) (\<lambda>dest.
          cbind (dump_results d (nat (sint (dg_count d)))) (\<lambda>out.
            Val (tab @ ''Cantidad: '' @ dec (sint (dg_count d)) @ nl @
                 tab @ ''Origen: '' @ dec (sint (dg_origin d)) @ nl @
                 tab @ ''Destino: '' @ dec (sint dest) @ nl @ out)))
        else if dg_opcode d = opc OP_PING \<or> dg_opcode d = opc OP_PONG then
          cbind (deref (dg_cmd d)) (\<lambda>cmd. Val (tab @ ''CMD: '' @ cmd @ nl))
        else Val [])
       (\<lambda>out. Val (datagram_print b d @ out @ '']'' @ nl))"

end
