(* ===== verification/Proc.thy ===== *)
theory Proc
  imports Datagram
begin

text \<open>
  Processes.  A function of the program that makes system calls is a resumption: the C code between
  two system calls is pure, and each system call is one atomic step on the state \<open>'s\<close> of the
  operating system, which may block (\<open>None\<close>).  \<open>Halt\<close> is \<open>exit\<close>, \<open>Undef\<close> is undefined behaviour, and
  \<open>Fork\<close> is \<open>fork\<close>: the child and the parent, each a function of the child's number.

  Several processes run by interleaving their steps (\<open>sys_step\<close>), and one alone by \<open>run_proc\<close>.
\<close>

section \<open>Resumptions\<close>

datatype (dead 's, 'a) proc =
    Ret 'a
  | Halt int
  | Undef
  | Act "'s \<Rightarrow> ('s \<times> ('s, 'a) proc) option"
  | Fork "nat \<Rightarrow> ('s, 'a) proc" "nat \<Rightarrow> ('s, 'a) proc"

primrec pbind :: "('s, 'a) proc \<Rightarrow> ('a \<Rightarrow> ('s, 'b) proc) \<Rightarrow> ('s, 'b) proc" where
  "pbind (Ret x) k = k x"
| "pbind (Halt n) k = Halt n"
| "pbind Undef k = Undef"
| "pbind (Act f) k = Act (\<lambda>s. map_option (map_prod id (\<lambda>p. pbind p k)) (f s))"
| "pbind (Fork c p) k = Fork (\<lambda>j. pbind (c j) k) (\<lambda>j. pbind (p j) k)"

definition pseq :: "('s, 'a) proc \<Rightarrow> ('s, 'b) proc \<Rightarrow> ('s, 'b) proc" where
  "pseq p q = pbind p (\<lambda>_. q)"

text \<open>A system call: \<open>None\<close> when it has to wait.\<close>

definition sys :: "('s \<Rightarrow> ('a \<times> 's) option) \<Rightarrow> ('s, 'a) proc" where
  "sys f = Act (\<lambda>s. map_option (\<lambda>(x, s'). (s', Ret x)) (f s))"

definition upd :: "('s \<Rightarrow> 's) \<Rightarrow> ('s, unit) proc" where
  "upd f = sys (\<lambda>s. Some ((), f s))"

text \<open>A step that reads the state and may be undefined (an access outside a block).\<close>

definition access :: "('s \<Rightarrow> ('a \<times> 's) option) \<Rightarrow> ('s, 'a) proc" where
  "access f = Act (\<lambda>s. Some (case f s of None \<Rightarrow> (s, Undef) | Some (x, s') \<Rightarrow> (s', Ret x)))"

lemma pbind_sys [simp]:
  "pbind (sys f) k = Act (\<lambda>s. map_option (\<lambda>(x, s'). (s', k x)) (f s))"
  by (auto simp: sys_def option.map_comp comp_def split_beta map_prod_def intro!: ext option.map_cong)

lemma pbind_access [simp]:
  "pbind (access f) k = Act (\<lambda>s. Some (case f s of None \<Rightarrow> (s, Undef) | Some (x, s') \<Rightarrow> (s', k x)))"
  by (auto simp: access_def intro!: ext split: option.splits)

text \<open>Induction with the hypothesis for every process a step may leave.\<close>

lemma proc_induct [case_names Ret Halt Undef Act Fork]:
  assumes "\<And>x. P (Ret x)" "\<And>n. P (Halt n)" "P Undef"
    and "\<And>f. (\<And>s s' q. f s = Some (s', q) \<Longrightarrow> P q) \<Longrightarrow> P (Act f)"
    and "\<And>c p. (\<And>j. P (c j)) \<Longrightarrow> (\<And>j. P (p j)) \<Longrightarrow> P (Fork c p)"
  shows "P p"
proof (induction p)
  case (Act f)
  have "P q" if "f s = Some (s', q)" for s s' q
    by (rule Act [of "f s" "(s', q)" q]) (use that in \<open>auto simp: snds.simps intro: range_eqI [of _ f s]\<close>)
  then show ?case by (rule assms(4))
next
  case (Fork c p)
  show ?case by (rule assms(5)) (rule Fork [OF rangeI])+
qed (rule assms)+

lemma pbind_assoc: "pbind (pbind p f) g = pbind p (\<lambda>x. pbind (f x) g)"
proof (induction p rule: proc_induct)
  case (Act h)
  then show ?case by (auto intro!: ext simp: option.map_comp intro: option.map_cong)
qed simp_all

lemma pbind_Ret [simp]: "pbind p Ret = p"
proof (induction p rule: proc_induct)
  case (Act h)
  then have "map_option (map_prod id (\<lambda>p. pbind p Ret)) (h s) = h s" for s
    by (cases "h s") auto
  then show ?case by simp
qed simp_all

section \<open>One process alone\<close>

datatype 'a outcome = Done 'a | Halted int | Undefined | Blocked | Forks

primrec run_proc :: "('s, 'a) proc \<Rightarrow> 's \<Rightarrow> 'a outcome \<times> 's" where
  "run_proc (Ret x) s = (Done x, s)"
| "run_proc (Halt n) s = (Halted n, s)"
| "run_proc Undef s = (Undefined, s)"
| "run_proc (Act f) s =
     (case map_option (map_prod id run_proc) (f s) of
        None \<Rightarrow> (Blocked, s)
      | Some (s', k) \<Rightarrow> k s')"
| "run_proc (Fork c p) s = (Forks, s)"

lemma run_proc_Act [simp]:
  "f s = None \<Longrightarrow> run_proc (Act f) s = (Blocked, s)"
  "f s = Some (s', p) \<Longrightarrow> run_proc (Act f) s = run_proc p s'"
  by simp_all

lemma run_proc_bind:
  "run_proc (pbind p k) s =
     (case run_proc p s of
        (Done x, s') \<Rightarrow> run_proc (k x) s'
      | (Halted n, s') \<Rightarrow> (Halted n, s')
      | (Undefined, s') \<Rightarrow> (Undefined, s')
      | (Blocked, s') \<Rightarrow> (Blocked, s')
      | (Forks, s') \<Rightarrow> (Forks, s'))"
proof (induction p arbitrary: s rule: proc_induct)
  case (Act h)
  then show ?case by (cases "h s") auto
qed simp_all

section \<open>Several processes\<close>

text \<open>The processes are numbered; a fork appends the child.\<close>

type_synonym ('s, 'a) config = "'s \<times> ('s, 'a) proc list"

fun step_of :: "nat \<Rightarrow> ('s, 'a) config \<Rightarrow> ('s, 'a) config option" where
  "step_of i (s, ps) =
     (if i < length ps then
        (case ps ! i of
           Act f \<Rightarrow> map_option (\<lambda>(s', p). (s', ps[i := p])) (f s)
         | Fork c p \<Rightarrow> Some (s, ps[i := p (length ps)] @ [c (length ps)])
         | _ \<Rightarrow> None)
      else None)"

inductive sys_step :: "('s, 'a) config \<Rightarrow> ('s, 'a) config \<Rightarrow> bool" where
  "step_of i c = Some c' \<Longrightarrow> sys_step c c'"

primrec run_schedule :: "nat list \<Rightarrow> ('s, 'a) config \<Rightarrow> ('s, 'a) config option" where
  "run_schedule [] c = Some c"
| "run_schedule (i # is) c = Option.bind (step_of i c) (run_schedule is)"

lemma run_schedule_reach: "run_schedule is c = Some c' \<Longrightarrow> sys_step\<^sup>*\<^sup>* c c'"
proof (induction "is" arbitrary: c)
  case (Cons i "is")
  then obtain d where "step_of i c = Some d" "run_schedule is d = Some c'"
    by (cases "step_of i c") auto
  then show ?case using Cons.IH by (meson converse_rtranclp_into_rtranclp sys_step.intros)
qed simp

lemma run_schedule_append:
  "run_schedule (is @ js) c = Option.bind (run_schedule is c) (run_schedule js)"
  by (induction "is" arbitrary: c) (simp_all add: Option.bind_assoc split: bind_split)

text \<open>A configuration in which no process can take a step.\<close>

definition stuck :: "('s, 'a) config \<Rightarrow> bool" where
  "stuck c \<longleftrightarrow> (\<forall>i < length (snd c). Option.is_none (step_of i c))"

lemma stuck_no_step: "stuck c \<Longrightarrow> \<not> sys_step c c'"
proof
  assume "stuck c" "sys_step c c'"
  then obtain i where "step_of i c = Some c'" by (auto elim: sys_step.cases)
  moreover from this have "i < length (snd c)" by (cases c) (auto split: if_splits)
  ultimately show False using \<open>stuck c\<close> by (force simp: stuck_def)
qed

text \<open>What the system does when a process ends, whichever way it ends.\<close>

primrec on_exit :: "('s \<Rightarrow> 's) \<Rightarrow> ('s, 'a) proc \<Rightarrow> ('s, 'a) proc" where
  "on_exit e (Ret x) = Act (\<lambda>s. Some (e s, Ret x))"
| "on_exit e (Halt n) = Act (\<lambda>s. Some (e s, Halt n))"
| "on_exit e Undef = Act (\<lambda>s. Some (e s, Undef))"
| "on_exit e (Act f) = Act (\<lambda>s. map_option (map_prod id (on_exit e)) (f s))"
| "on_exit e (Fork c p) = Fork (\<lambda>j. on_exit e (c j)) (\<lambda>j. on_exit e (p j))"

end
