(* ===== verification/Semaphore.thy ===== *)
theory Semaphore
  imports Proc
begin

text \<open>
  \<open>ipc/lib/semaphore.c\<close> over a model of the System V semaphores it calls (\<open>semget\<close>, \<open>semctl\<close>,
  \<open>semop\<close>, the adjustment of \<open>SEM_UNDO\<close> when a process ends).  The messages it prints are left out.

  The results of \<open>semop\<close> and \<open>semctl\<close> are not looked at by the code: on a set that is gone both
  return at once.  \<open>sem_up\<close> leaves the member \<open>sem_flg\<close> of its operation uninitialised: the value
  found there is a parameter.
\<close>

section \<open>Semaphores of the system\<close>

record sem_state =
  sem_ids :: "i32 \<Rightarrow> int option"           \<comment> \<open>key to identifier\<close>
  sem_sets :: "int \<Rightarrow> nat list option"      \<comment> \<open>identifier to values\<close>
  sem_adj :: "nat \<Rightarrow> int \<Rightarrow> nat \<Rightarrow> int"     \<comment> \<open>process, set, number: what its end adds\<close>
  sem_next :: int
  sem_room :: bool                          \<comment> \<open>the system allows one more set\<close>

text \<open>
  \<open>ftok (path, id)\<close> of the GNU library: made of the file's inode and device (\<open>None\<close>: there is no
  such file) and of the low eight bits of \<open>id\<close>.
\<close>

type_synonym file_stat = "(nat \<times> nat) option"

definition ftok :: "file_stat \<Rightarrow> int \<Rightarrow> i32" where
  "ftok st i =
     (case st of
        None \<Rightarrow> -1
      | Some (ino, dev) \<Rightarrow>
          word_of_nat (ino mod 65536 + dev mod 256 * 65536) + word_of_int (i mod 256 * 16777216))"

definition IPC_PRIVATE :: i32 where "IPC_PRIVATE = 0"

definition new_set :: "i32 \<Rightarrow> nat \<Rightarrow> 'z sem_state_scheme \<Rightarrow> int \<times> 'z sem_state_scheme" where
  "new_set key n s =
     (if sem_room s \<and> 0 < n then
        (sem_next s,
         s\<lparr>sem_ids := (if key = IPC_PRIVATE then sem_ids s else (sem_ids s)(key := Some (sem_next s))),
           sem_sets := (sem_sets s)(sem_next s := Some (replicate n 0)),
           sem_next := sem_next s + 1\<rparr>)
      else (-1, s))"

definition semget :: "i32 \<Rightarrow> nat \<Rightarrow> bool \<Rightarrow> 'z sem_state_scheme \<Rightarrow> int \<times> 'z sem_state_scheme" where
  "semget key n creat s =
     (if key = IPC_PRIVATE then new_set key n s
      else case sem_ids s key of
          None \<Rightarrow> if creat then new_set key n s else (-1, s)
        | Some i \<Rightarrow>
            (case sem_sets s i of
               None \<Rightarrow> (-1, s)
             | Some vs \<Rightarrow> if n \<le> length vs then (i, s) else (-1, s)))"

definition semctl_SETVAL :: "int \<Rightarrow> nat \<Rightarrow> nat \<Rightarrow> 'z sem_state_scheme \<Rightarrow> int \<times> 'z sem_state_scheme" where
  "semctl_SETVAL semid num v s =
     (case sem_sets s semid of
        None \<Rightarrow> (-1, s)
      | Some vs \<Rightarrow>
          if num < length vs then
            (0, s\<lparr>sem_sets := (sem_sets s)(semid := Some (vs[num := v])),
                  sem_adj := (\<lambda>p. (sem_adj s p)(semid := (sem_adj s p semid)(num := 0)))\<rparr>)
          else (-1, s))"

definition semctl_RMID :: "int \<Rightarrow> 'z sem_state_scheme \<Rightarrow> int \<times> 'z sem_state_scheme" where
  "semctl_RMID semid s =
     (case sem_sets s semid of
        None \<Rightarrow> (-1, s)
      | Some vs \<Rightarrow>
          (0, s\<lparr>sem_ids := (\<lambda>k. if sem_ids s k = Some semid then None else sem_ids s k),
                sem_sets := (sem_sets s)(semid := None),
                sem_adj := (\<lambda>p. (sem_adj s p)(semid := (\<lambda>_. 0)))\<rparr>))"

definition semctl_GETVAL :: "int \<Rightarrow> nat \<Rightarrow> 'z sem_state_scheme \<Rightarrow> int" where
  "semctl_GETVAL semid num s =
     (case sem_sets s semid of
        None \<Rightarrow> -1
      | Some vs \<Rightarrow> if num < length vs then int (vs ! num) else -1)"

text \<open>
  \<open>semop\<close> with one operation, 1 or -1: \<open>None\<close> when it waits.  \<open>undo\<close> and \<open>nowait\<close> are the flags
  \<open>SEM_UNDO\<close> and \<open>IPC_NOWAIT\<close>.
\<close>

definition add_adj :: "bool \<Rightarrow> nat \<Rightarrow> int \<Rightarrow> nat \<Rightarrow> int \<Rightarrow> 'z sem_state_scheme \<Rightarrow> 'z sem_state_scheme" where
  "add_adj undo pid semid num x s =
     (if undo then
        s\<lparr>sem_adj := (sem_adj s)(pid := (sem_adj s pid)
            (semid := (sem_adj s pid semid)(num := sem_adj s pid semid num + x)))\<rparr>
      else s)"

definition semop ::
    "nat \<Rightarrow> int \<Rightarrow> nat \<Rightarrow> int \<Rightarrow> bool \<Rightarrow> bool \<Rightarrow> 'z sem_state_scheme \<Rightarrow> (int \<times> 'z sem_state_scheme) option" where
  "semop pid semid num x undo nowait s =
     (case sem_sets s semid of
        None \<Rightarrow> Some (-1, s)
      | Some vs \<Rightarrow>
          if length vs \<le> num then Some (-1, s)
          else if int (vs ! num) + x < 0 then (if nowait then Some (-1, s) else None)
          else if 32767 < int (vs ! num) + x then Some (-1, s)
          else Some (0, add_adj undo pid semid num (- x)
                 (s\<lparr>sem_sets := (sem_sets s)(semid := Some (vs[num := nat (int (vs ! num) + x)]))\<rparr>)))"

text \<open>The end of a process: its adjustments are added, no value goes below 0.\<close>

definition sem_exit :: "nat \<Rightarrow> 'z sem_state_scheme \<Rightarrow> 'z sem_state_scheme" where
  "sem_exit pid s =
     s\<lparr>sem_sets := (\<lambda>i. map_option
          (\<lambda>vs. map (\<lambda>n. nat (int (vs ! n) + sem_adj s pid i n)) [0..<length vs]) (sem_sets s i)),
       sem_adj := (sem_adj s)(pid := (\<lambda>_ _. 0))\<rparr>"

section \<open>The functions\<close>

definition SEM_QUEUE :: nat where "SEM_QUEUE = 0"
definition SEM_SRV_QUEUE :: nat where "SEM_SRV_QUEUE = 1"
definition SEM_SERVER :: nat where "SEM_SERVER = 0"
definition SEM_CLIENT :: nat where "SEM_CLIENT = 1"

lemmas sem_numbers = SEM_QUEUE_def SEM_SRV_QUEUE_def SEM_SERVER_def SEM_CLIENT_def

text \<open>Both initialisers return the identifier they store through their pointer.\<close>

definition sem_init_with_key :: "i32 \<Rightarrow> nat \<Rightarrow> ('z sem_state_scheme, int) proc" where
  "sem_init_with_key semkey n =
     pbind (sys (\<lambda>s. Some (semget semkey n False s))) (\<lambda>semid.
       if 0 \<le> semid then Ret semid
       else pbind (sys (\<lambda>s. Some (semget semkey n True s))) (\<lambda>semid.
              if semid = -1 then Halt 1 else Ret semid))"

definition sem_init :: "file_stat \<Rightarrow> nat \<Rightarrow> ('z sem_state_scheme, int) proc" where
  "sem_init st n = sem_init_with_key (ftok st 0) n"

definition sem_queue_init :: "file_stat \<Rightarrow> nat \<Rightarrow> ('z sem_state_scheme, int) proc" where
  "sem_queue_init st n =
     (let queuekey = ftok st 0xFF in
      pbind (sys (\<lambda>s. Some (semget queuekey n False s))) (\<lambda>queueid.
        if 0 \<le> queueid then Ret queueid
        else pbind (sys (\<lambda>s. Some (semget queuekey n True s))) (\<lambda>queueid.
               if queueid = -1 then Halt 1 else Ret queueid)))"

definition sem_set :: "int \<Rightarrow> nat \<Rightarrow> nat \<Rightarrow> ('z sem_state_scheme, unit) proc" where
  "sem_set semid semnum val = upd (\<lambda>s. snd (semctl_SETVAL semid semnum val s))"

definition sem_destroy :: "int \<Rightarrow> ('z sem_state_scheme, unit) proc" where
  "sem_destroy semid = upd (\<lambda>s. snd (semctl_RMID semid s))"

definition sem_queue_destroy :: "int \<Rightarrow> ('z sem_state_scheme, unit) proc" where
  "sem_queue_destroy queueid = upd (\<lambda>s. snd (semctl_RMID queueid s))"

definition sem_down :: "nat \<Rightarrow> int \<Rightarrow> nat \<Rightarrow> ('z sem_state_scheme, unit) proc" where
  "sem_down pid semid semnum =
     sys (\<lambda>s. map_option (\<lambda>(rc, s'). ((), s')) (semop pid semid semnum (-1) True False s))"

text \<open>\<open>SEM_UNDO\<close> is bit 12 of the flags and \<open>IPC_NOWAIT\<close> bit 11.\<close>

definition sem_up :: "16 word \<Rightarrow> nat \<Rightarrow> int \<Rightarrow> nat \<Rightarrow> ('z sem_state_scheme, unit) proc" where
  "sem_up sem_flg pid semid semnum =
     sys (\<lambda>s. map_option (\<lambda>(rc, s'). ((), s')) (semop pid semid semnum 1 (bit sem_flg 12) (bit sem_flg 11) s))"

definition get_sem_val :: "int \<Rightarrow> nat \<Rightarrow> ('z sem_state_scheme, int) proc" where
  "get_sem_val semid semnum = sys (\<lambda>s. Some (semctl_GETVAL semid semnum s, s))"

section \<open>Laws\<close>

text \<open>The value of a semaphore that exists.\<close>

definition sem_val :: "'z sem_state_scheme \<Rightarrow> int \<Rightarrow> nat \<Rightarrow> nat option" where
  "sem_val s semid num =
     (case sem_sets s semid of
        None \<Rightarrow> None
      | Some vs \<Rightarrow> if num < length vs then Some (vs ! num) else None)"

definition adjust :: "bool \<Rightarrow> nat \<Rightarrow> int \<Rightarrow> nat \<Rightarrow> int \<Rightarrow> 'z sem_state_scheme \<Rightarrow> 'z sem_state_scheme" where
  "adjust undo pid semid num x s =
     add_adj undo pid semid num (- x)
       (s\<lparr>sem_sets := (sem_sets s)(semid := Some ((the (sem_sets s semid))
          [num := nat (int (the (sem_sets s semid) ! num) + x)]))\<rparr>)"

lemma semop_value:
  "sem_val s semid num = Some v \<Longrightarrow>
   semop pid semid num x undo nowait s =
     (if int v + x < 0 then (if nowait then Some (-1, s) else None)
      else if 32767 < int v + x then Some (-1, s)
      else Some (0, adjust undo pid semid num x s))"
  by (auto simp: sem_val_def semop_def adjust_def Let_def split: option.splits if_splits)

lemma sem_val_add_adj [simp]: "sem_val (add_adj u p i n x s) = sem_val s"
  by (auto simp: add_adj_def sem_val_def intro!: ext)

lemma sem_val_adjust:
  "sem_val s semid num = Some v \<Longrightarrow>
   sem_val (adjust u p semid num x s) i n =
     (if i = semid \<and> n = num then Some (nat (int v + x)) else sem_val s i n)"
  by (auto simp: sem_val_def adjust_def add_adj_def nth_list_update split: option.splits if_splits)

lemma sem_adj_adjust:
  "sem_adj (adjust u p semid num x s) q i n =
     sem_adj s q i n - (if u \<and> q = p \<and> i = semid \<and> n = num then x else 0)"
  by (auto simp: adjust_def add_adj_def)

lemma sem_val_set:
  "sem_val s semid num = Some v \<Longrightarrow>
   sem_val (snd (semctl_SETVAL semid num w s)) i n =
     (if i = semid \<and> n = num then Some w else sem_val s i n)"
  by (auto simp: sem_val_def semctl_SETVAL_def nth_list_update split: option.splits if_splits)

lemma sem_val_exit:
  "sem_val (sem_exit p s) i n = map_option (\<lambda>v. nat (int v + sem_adj s p i n)) (sem_val s i n)"
  by (auto simp: sem_val_def sem_exit_def split: option.splits)

lemma run_sem_down:
  "sem_val s semid num = Some v \<Longrightarrow> 0 < v \<Longrightarrow> v \<le> 32768 \<Longrightarrow>
   run_proc (sem_down pid semid num) s = (Done (), adjust True pid semid num (-1) s)"
  by (simp add: sem_down_def sys_def semop_value)

lemma run_sem_down_waits:
  "sem_val s semid num = Some 0 \<Longrightarrow> run_proc (sem_down pid semid num) s = (Blocked, s)"
  by (simp add: sem_down_def sys_def semop_value)

lemma run_sem_up:
  "sem_val s semid num = Some v \<Longrightarrow> v < 32767 \<Longrightarrow>
   run_proc (sem_up flg pid semid num) s = (Done (), adjust (bit flg 12) pid semid num 1 s)"
  by (simp add: sem_up_def sys_def semop_value)

lemma run_sem_gone:
  "sem_sets s semid = None \<Longrightarrow> run_proc (sem_down pid semid num) s = (Done (), s)"
  "sem_sets s semid = None \<Longrightarrow> run_proc (sem_up flg pid semid num) s = (Done (), s)"
  by (simp_all add: sem_down_def sem_up_def sys_def semop_def)

end
