(* ===== verification/Ipc.thy ===== *)
theory Ipc
  imports Semaphore
begin

text \<open>
  \<open>include/ipc.h\<close>: the interface the five transports implement, as locales, and what the transports
  share.  The client's and the server's side of a file are compiled apart (\<open>-DCLIENT\<close>, \<open>-DSERVER\<close>):
  the functions both have take the role.
\<close>

datatype role = SERVER | CLIENT

section \<open>Blocks received\<close>

text \<open>Reading a member of a block that is too short to have it is undefined.\<close>

definition dg_block :: "build \<Rightarrow> bytes \<Rightarrow> ('s, datagram) proc" where
  "dg_block b bs = (case dg_of_bytes b bs of None \<Rightarrow> Undef | Some d \<Rightarrow> Ret d)"

text \<open>
  The block a receiver that reads a stream keeps of the \<open>n\<close> bytes it read: the \<open>size\<close> member is
  set to \<open>n\<close> and the block is cut to \<open>n\<close> bytes; \<open>realloc\<close> to no bytes frees it and gives a null
  pointer.
\<close>

definition kept_block :: "build \<Rightarrow> bytes \<Rightarrow> ('s, datagram option) proc" where
  "kept_block b data =
     (let n = length data in
      if n = 0 then Ret None
      else pbind (dg_block b (take n (le8 (of_nat n) @ drop 8 data))) (\<lambda>d. Ret (Some d)))"

text \<open>\<open>sprintf\<close> into \<open>char[64]\<close>.\<close>

definition path_buf :: "string \<Rightarrow> carg list \<Rightarrow> ('s, string) proc" where
  "path_buf fmt as = (case sprintf 64 fmt as of None \<Rightarrow> Undef | Some p \<Rightarrow> Ret p)"

lemma size_word: "dg_wf b d \<Longrightarrow> word_of_nat (length (dg_bytes b d)) = dg_size d"
  unfolding length_dg_bytes dg_wf_def by (metis of_nat_unat ucast_id)

lemma le8_dg_bytes: "take 8 (dg_bytes b d) = le8 (dg_size d)"
  by (simp add: dg_bytes_def)

lemma rd8_dg_bytes [simp]: "rd8 (dg_bytes b d @ r) = dg_size d" "rd8 (dg_bytes b d) = dg_size d"
  by (simp_all add: dg_bytes_def)

lemma dg_block_bytes:
  "dg_wf b d \<Longrightarrow> dg_block b (dg_bytes b d) = Ret d"
  by (simp add: dg_block_def dg_of_bytes_bytes dg_wf_def)

text \<open>A datagram sent whole over a stream and read whole comes out as it went in.\<close>

lemma kept_block_bytes:
  assumes "dg_wf b d"
  shows "kept_block b (dg_bytes b d) = Ret (Some d)"
proof -
  have "length (dg_bytes b d) \<noteq> 0" using assms by (simp add: dg_wf_def layout)
  moreover have "le8 (dg_size d) @ drop 8 (dg_bytes b d) = dg_bytes b d"
    using le8_dg_bytes [of b d] append_take_drop_id [of 8 "dg_bytes b d"] by simp
  ultimately show ?thesis
    using assms
    by (simp add: kept_block_def Let_def size_word dg_block_bytes take_all_iff del: length_dg_bytes)
qed

text \<open>Any number of datagrams, each received before the next is sent.\<close>

primrec transfer ::
    "(datagram \<Rightarrow> ('s, int) proc) \<Rightarrow> ('s, datagram option) proc \<Rightarrow> datagram list \<Rightarrow>
     ('s, datagram option list) proc" where
  "transfer snd_op rcv_op [] = Ret []"
| "transfer snd_op rcv_op (d # ds) =
     pbind (pseq (snd_op d) rcv_op) (\<lambda>x. pbind (transfer snd_op rcv_op ds) (\<lambda>xs. Ret (x # xs)))"

section \<open>One direction of a connection\<close>

text \<open>
  \<open>snd_op\<close> is \<open>ipc_send\<close> of one side, \<open>rcv_op\<close> is \<open>ipc_receive\<close> of the other; \<open>idle\<close>: the two are
  connected and nothing is on its way; \<open>fits\<close>: what the transport carries; \<open>seen\<close>: what the receiver
  makes of a datagram.
\<close>

locale ipc_channel =
  fixes snd_op :: "datagram \<Rightarrow> ('s, int) proc"
    and rcv_op :: "('s, datagram option) proc"
    and idle :: "'s \<Rightarrow> bool"
    and fits :: "datagram \<Rightarrow> bool"
    and seen :: "datagram \<Rightarrow> datagram"
  assumes delivers: "idle s \<Longrightarrow> fits d \<Longrightarrow>
      \<exists>s1 s2. run_proc (snd_op d) s = (Done 0, s1) \<and> run_proc rcv_op s1 = (Done (Some (seen d)), s2) \<and>
        idle s2"
    and waits: "idle s \<Longrightarrow> fst (run_proc rcv_op s) = Blocked"
begin

lemma delivers_run:
  assumes "idle s" "fits d"
  shows "\<exists>s'. run_proc (pseq (snd_op d) rcv_op) s = (Done (Some (seen d)), s') \<and> idle s'"
  using delivers [OF assms] by (auto simp: pseq_def run_proc_bind)

lemma transfer_in_order:
  "idle s \<Longrightarrow> \<forall>d \<in> set ds. fits d \<Longrightarrow>
   \<exists>s'. run_proc (transfer snd_op rcv_op ds) s = (Done (map (Some \<circ> seen) ds), s') \<and> idle s'"
proof (induction ds arbitrary: s)
  case (Cons d ds)
  obtain s1 where s1: "run_proc (pseq (snd_op d) rcv_op) s = (Done (Some (seen d)), s1)" "idle s1"
    using delivers_run [OF Cons.prems(1), of d] Cons.prems(2) by auto
  obtain s2 where "run_proc (transfer snd_op rcv_op ds) s1 = (Done (map (Some \<circ> seen) ds), s2)" "idle s2"
    using Cons.IH [OF s1(2)] Cons.prems(2) by auto
  then show ?case using s1(1) by (simp add: run_proc_bind)
qed simp

end

text \<open>A transport that looks at the size: what does not fit is refused and nothing happens.\<close>

locale ipc_checked = ipc_channel +
  assumes refuses: "dg_size d > of_nat DATAGRAM_MAXSIZE \<Longrightarrow> run_proc (snd_op d) s = (Done (-1), s)"

section \<open>A connection\<close>

text \<open>Both directions, over one state: a request and its answer.\<close>

locale ipc_link =
  req: ipc_channel c_send s_recv idle req_fits req_seen +
  ans: ipc_channel s_send c_recv idle ans_fits ans_seen
  for c_send :: "datagram \<Rightarrow> ('s, int) proc" and s_recv :: "('s, datagram option) proc"
    and s_send :: "datagram \<Rightarrow> ('s, int) proc" and c_recv :: "('s, datagram option) proc"
    and idle :: "'s \<Rightarrow> bool"
    and req_fits :: "datagram \<Rightarrow> bool" and req_seen :: "datagram \<Rightarrow> datagram"
    and ans_fits :: "datagram \<Rightarrow> bool" and ans_seen :: "datagram \<Rightarrow> datagram"
begin

lemma round_trip:
  assumes "idle s" "req_fits d" "ans_fits (f (req_seen d))"
  shows "\<exists>s1 s2 s3 s4. run_proc (c_send d) s = (Done 0, s1) \<and>
    run_proc s_recv s1 = (Done (Some (req_seen d)), s2) \<and>
    run_proc (s_send (f (req_seen d))) s2 = (Done 0, s3) \<and>
    run_proc c_recv s3 = (Done (Some (ans_seen (f (req_seen d)))), s4) \<and> idle s4"
  using req.delivers [OF assms(1,2)] ans.delivers [OF _ assms(3)] by meson

end

end
