(* ===== verification/Shmem.thy ===== *)
theory Shmem
  imports Ipc
begin

text \<open>
  \<open>ipc/shmem.c\<close>: the transport over System V shared memory, with a public segment for the
  connection and a private one for each client, and semaphores for the turns.

  An attached segment is named by its identifier; \<open>shmat\<close> returns -1, not a null pointer, when it
  fails, so the test in \<open>shmem_attach\<close> never sees a failure.  Each copy from or to a segment is
  one step.  The messages are left out.
\<close>

section \<open>Shared memory of the system\<close>

record shm_seg =
  seg_bytes :: bytes
  seg_att :: nat        \<comment> \<open>number of attachments\<close>
  seg_removed :: bool   \<comment> \<open>\<open>IPC_RMID\<close>: it goes with its last attachment\<close>

record shm_state = sem_state +
  shm_ids :: "i32 \<Rightarrow> int option"
  shm_segs :: "int \<Rightarrow> shm_seg option"
  shm_next :: int
  shm_room :: bool

definition shmget :: "i32 \<Rightarrow> nat \<Rightarrow> bool \<Rightarrow> bool \<Rightarrow> 'z shm_state_scheme \<Rightarrow> int \<times> 'z shm_state_scheme" where
  "shmget key sz creat excl s =
     (case (if key = IPC_PRIVATE then None else shm_ids s key) of
        Some i \<Rightarrow>
          (case shm_segs s i of
             None \<Rightarrow> (-1, s)
           | Some g \<Rightarrow> if (creat \<and> excl) \<or> length (seg_bytes g) < sz then (-1, s) else (i, s))
      | None \<Rightarrow>
          if (creat \<or> key = IPC_PRIVATE) \<and> shm_room s then
            (shm_next s,
             s\<lparr>shm_ids := (if key = IPC_PRIVATE then shm_ids s else (shm_ids s)(key := Some (shm_next s))),
               shm_segs := (shm_segs s)(shm_next s :=
                 Some \<lparr>seg_bytes = replicate sz NUL, seg_att = 0, seg_removed = False\<rparr>),
               shm_next := shm_next s + 1\<rparr>)
          else (-1, s))"

definition shmat :: "int \<Rightarrow> 'z shm_state_scheme \<Rightarrow> int \<times> 'z shm_state_scheme" where
  "shmat memid s =
     (case shm_segs s memid of
        None \<Rightarrow> (-1, s)
      | Some g \<Rightarrow> (memid, s\<lparr>shm_segs := (shm_segs s)(memid := Some (g\<lparr>seg_att := seg_att g + 1\<rparr>))\<rparr>))"

definition shmdt :: "int \<Rightarrow> 'z shm_state_scheme \<Rightarrow> 'z shm_state_scheme" where
  "shmdt a s =
     (case shm_segs s a of
        None \<Rightarrow> s
      | Some g \<Rightarrow> s\<lparr>shm_segs := (shm_segs s)(a :=
            (if seg_removed g \<and> seg_att g \<le> 1 then None else Some (g\<lparr>seg_att := seg_att g - 1\<rparr>)))\<rparr>)"

definition shmctl_RMID :: "int \<Rightarrow> 'z shm_state_scheme \<Rightarrow> 'z shm_state_scheme" where
  "shmctl_RMID memid s =
     (case shm_segs s memid of
        None \<Rightarrow> s
      | Some g \<Rightarrow>
          s\<lparr>shm_ids := (\<lambda>k. if shm_ids s k = Some memid then None else shm_ids s k),
            shm_segs := (shm_segs s)(memid :=
              (if seg_att g = 0 then None else Some (g\<lparr>seg_removed := True\<rparr>)))\<rparr>)"

text \<open>Reading and writing an attached segment; \<open>None\<close> outside it.\<close>

definition shm_load :: "int \<Rightarrow> nat \<Rightarrow> nat \<Rightarrow> 'z shm_state_scheme \<Rightarrow> bytes option" where
  "shm_load a off n s = Option.bind (shm_segs s a) (\<lambda>g. peek off n (seg_bytes g))"

definition shm_store :: "int \<Rightarrow> nat \<Rightarrow> bytes \<Rightarrow> 'z shm_state_scheme \<Rightarrow> 'z shm_state_scheme option" where
  "shm_store a off bs s =
     Option.bind (shm_segs s a) (\<lambda>g. map_option
       (\<lambda>b. s\<lparr>shm_segs := (shm_segs s)(a := Some (g\<lparr>seg_bytes := b\<rparr>))\<rparr>) (poke off bs (seg_bytes g)))"

definition load :: "int \<Rightarrow> nat \<Rightarrow> nat \<Rightarrow> ('z shm_state_scheme, bytes) proc" where
  "load a off n = access (\<lambda>s. map_option (\<lambda>b. (b, s)) (shm_load a off n s))"

definition store :: "int \<Rightarrow> nat \<Rightarrow> bytes \<Rightarrow> ('z shm_state_scheme, unit) proc" where
  "store a off bs = access (\<lambda>s. map_option (\<lambda>s'. ((), s')) (shm_store a off bs s))"

section \<open>Sessions\<close>

record shm_session =
  ss_semid :: int
  ss_queueid :: int
  ss_memid :: int
  ss_alloc :: int

definition shmem_init_with_key ::
    "shm_session \<Rightarrow> i32 \<Rightarrow> bool \<Rightarrow> bool \<Rightarrow> ('z shm_state_scheme, shm_session) proc" where
  "shmem_init_with_key session shmemkey creat excl =
     pbind (sys (\<lambda>s. Some (shmget shmemkey SHMEM_SIZE creat excl s))) (\<lambda>memid.
       if memid = -1 then Halt 1 else Ret (session\<lparr>ss_memid := memid\<rparr>))"

definition shmem_create_with_key :: "shm_session \<Rightarrow> i32 \<Rightarrow> ('z shm_state_scheme, shm_session) proc" where
  "shmem_create_with_key session shmemkey = shmem_init_with_key session shmemkey True True"

definition shmem_get_with_key :: "shm_session \<Rightarrow> i32 \<Rightarrow> ('z shm_state_scheme, shm_session) proc" where
  "shmem_get_with_key session shmemkey = shmem_init_with_key session shmemkey False False"

definition shmem_attach :: "shm_session \<Rightarrow> ('z shm_state_scheme, shm_session) proc" where
  "shmem_attach session =
     pbind (sys (\<lambda>s. Some (shmat (ss_memid session) s))) (\<lambda>alloc.
     pbind (store alloc 0 (replicate SHMEM_SIZE NUL)) (\<lambda>_.
       Ret (session\<lparr>ss_alloc := alloc\<rparr>)))"

definition shmem_detach :: "shm_session \<Rightarrow> ('z shm_state_scheme, unit) proc" where
  "shmem_detach session = upd (shmdt (ss_alloc session))"

definition sem_reset :: "shm_session \<Rightarrow> ('z shm_state_scheme, unit) proc" where
  "sem_reset session =
     pseq (sem_set (ss_semid session) SEM_CLIENT 0) (sem_set (ss_semid session) SEM_SERVER 0)"

definition shmem_destroy :: "shm_session \<Rightarrow> ('z shm_state_scheme, unit) proc" where
  "shmem_destroy session = pseq (shmem_detach session) (upd (shmctl_RMID (ss_memid session)))"

text \<open>\<open>malloc\<close> leaves the members as they are found: the parameter.\<close>

definition shm_ipc_newsession :: "shm_session \<Rightarrow> shm_session" where
  "shm_ipc_newsession junk = junk"

section \<open>Sending and receiving\<close>

text \<open>The receiver copies as many bytes as the \<open>size\<close> member in the segment says.\<close>

definition shm_ipc_receive :: "role \<Rightarrow> nat \<Rightarrow> shm_session \<Rightarrow> ('z shm_state_scheme, datagram) proc" where
  "shm_ipc_receive r pid session =
     pbind (sem_down pid (ss_semid session) (if r = SERVER then SEM_CLIENT else SEM_SERVER)) (\<lambda>_.
     pbind (load (ss_alloc session) 0 8) (\<lambda>size.
     pbind (load (ss_alloc session) 0 (unat (rd8 size))) (dg_block SHMEM)))"

definition shm_ipc_send ::
    "role \<Rightarrow> 16 word \<Rightarrow> nat \<Rightarrow> shm_session \<Rightarrow> datagram \<Rightarrow> ('z shm_state_scheme, int) proc" where
  "shm_ipc_send r flg pid session data =
     (if of_nat SHMEM_SIZE < dg_size data then Ret (-1)
      else if length (dg_bytes SHMEM data) < unat (dg_size data) then Undef
      else pbind (store (ss_alloc session) 0 (take (unat (dg_size data)) (dg_bytes SHMEM data))) (\<lambda>_.
           pbind (sem_up flg pid (ss_semid session) (if r = SERVER then SEM_SERVER else SEM_CLIENT)) (\<lambda>_.
             Ret 0)))"

section \<open>The server's side\<close>

definition shm_ipc_listen ::
    "file_stat \<Rightarrow> shm_session \<Rightarrow> ('z shm_state_scheme, int \<times> shm_session) proc" where
  "shm_ipc_listen st session =
     (let shmemkey = ftok st 0 in
      pbind (shmem_create_with_key session shmemkey) (\<lambda>session.
      pbind (shmem_attach session) (\<lambda>session.
      pbind (sem_init st 2) (\<lambda>semid.
      let session = session\<lparr>ss_semid := semid\<rparr> in
      pbind (sem_queue_init st 2) (\<lambda>queueid.
      let session = session\<lparr>ss_queueid := queueid\<rparr> in
      pseq (sem_set (ss_queueid session) SEM_QUEUE 1)
     (pseq (sem_set (ss_queueid session) SEM_SRV_QUEUE 0)
           (Ret (0, session))))))))"

definition shm_ipc_accept :: "nat \<Rightarrow> shm_session \<Rightarrow> ('z shm_state_scheme, unit) proc" where
  "shm_ipc_accept pid session = pseq (sem_reset session) (sem_down pid (ss_semid session) SEM_CLIENT)"

text \<open>\<open>cli_count\<close> is the server's global counter; the key is written over the four bytes of \<open>_data\<close>.\<close>

definition shm_ipc_sync ::
    "file_stat \<Rightarrow> 16 word \<Rightarrow> nat \<Rightarrow> int \<Rightarrow> shm_session \<Rightarrow> ('z shm_state_scheme, shm_session) proc" where
  "shm_ipc_sync st flg pid cli_count session =
     pseq (sem_down pid (ss_semid session) SEM_CLIENT)
    (pbind (load (ss_alloc session) 8 4) (\<lambda>opcode.
       if rd4 opcode \<noteq> opc OP_CONNECT then Halt 1
       else
         pseq (store (ss_alloc session) 12 (le4 (ftok st cli_count)))
        (let oldsemid = ss_semid session in
         pbind (load (ss_alloc session) 12 4) (\<lambda>shmemkey.
         pseq (shmem_detach session)
        (pbind (shmem_create_with_key session (rd4 shmemkey)) (\<lambda>session.
         pbind (shmem_attach session) (\<lambda>session.
         pbind (sem_init_with_key (rd4 shmemkey) 2) (\<lambda>semid.
         let session = session\<lparr>ss_semid := semid\<rparr> in
         pseq (sem_reset session)
        (pseq (sem_up flg pid oldsemid SEM_SERVER)
        (pseq (sem_down pid oldsemid SEM_CLIENT)
        (pseq (sem_up flg pid (ss_queueid session) SEM_SRV_QUEUE)
              (Ret session))))))))))))"

definition shm_ipc_waitsync :: "nat \<Rightarrow> shm_session \<Rightarrow> ('z shm_state_scheme, unit) proc" where
  "shm_ipc_waitsync pid session = sem_down pid (ss_queueid session) SEM_SRV_QUEUE"

section \<open>The client's side\<close>

definition shm_ipc_connect ::
    "file_stat \<Rightarrow> 16 word \<Rightarrow> nat \<Rightarrow> shm_session \<Rightarrow> ('z shm_state_scheme, int \<times> shm_session) proc" where
  "shm_ipc_connect st flg pid session =
     (let shmemkey = ftok st 0 in
      pbind (shmem_get_with_key session shmemkey) (\<lambda>session.
      pbind (shmem_attach session) (\<lambda>session.
      pbind (sem_init st 2) (\<lambda>semid.
      let session = session\<lparr>ss_semid := semid\<rparr> in
      pbind (sem_queue_init st 2) (\<lambda>queueid.
      let session = session\<lparr>ss_queueid := queueid\<rparr> in
      pseq (sem_down pid (ss_queueid session) SEM_QUEUE)
     (pseq (sem_up flg pid (ss_semid session) SEM_CLIENT)
     (pseq (store (ss_alloc session) 0 (le8 (of_nat (SIZEOF_DG SHMEM))))
     (pseq (store (ss_alloc session) 8 (le4 (opc OP_CONNECT)))
     (pseq (sem_up flg pid (ss_semid session) SEM_CLIENT)
     (pseq (sem_down pid (ss_semid session) SEM_SERVER)
     (let oldsemid = ss_semid session in
      pbind (load (ss_alloc session) 12 4) (\<lambda>shmemkey.
      pseq (store (ss_alloc session) 0 (replicate SHMEM_SIZE NUL))
     (pseq (shmem_detach session)
     (pbind (shmem_get_with_key session (rd4 shmemkey)) (\<lambda>session.
      pbind (shmem_attach session) (\<lambda>session.
      pbind (sem_init_with_key (rd4 shmemkey) 2) (\<lambda>semid.
      let session = session\<lparr>ss_semid := semid\<rparr> in
      pseq (sem_up flg pid oldsemid SEM_CLIENT)
     (pseq (sem_up flg pid (ss_queueid session) SEM_QUEUE)
           (Ret (0, session))))))))))))))))))))"

section \<open>Leaving\<close>

definition shm_ipc_disconnect :: "role \<Rightarrow> shm_session \<Rightarrow> ('z shm_state_scheme, unit) proc" where
  "shm_ipc_disconnect r session =
     (if r = SERVER then pseq (shmem_destroy session) (sem_destroy (ss_semid session))
      else shmem_detach session)"

definition shm_ipc_free :: "role \<Rightarrow> shm_session \<Rightarrow> ('z shm_state_scheme, unit) proc" where
  "shm_ipc_free r session = (if r = SERVER then sem_queue_destroy (ss_queueid session) else Ret ())"

text \<open>\<open>fork\<close> attaches the child to the segment as well; adjustments of semaphores are not inherited.\<close>

definition shm_fork :: "shm_session \<Rightarrow> 'z shm_state_scheme \<Rightarrow> 'z shm_state_scheme" where
  "shm_fork session s = snd (shmat (ss_alloc session) s)"

definition shm_ipc_shouldfork :: bool where "shm_ipc_shouldfork = True"

end
