(* ===== verification/Turns.thy ===== *)
theory Turns
  imports Ipc
begin

text \<open>
  Two processes that take turns: whenever one of them can take a step the other one waits, so the
  interleaving has no choice and every run of the two is the same run.  The contract of
  \<open>include/ipc.h\<close> is strengthened to that (\<open>ipc_turns\<close>): while a side sends or receives, the other one
  waits in its \<open>ipc_receive\<close>.  Shared memory, named pipes and message queues keep it.
\<close>

section \<open>Waiting\<close>

definition waits_at :: "('s, 'a) proc \<Rightarrow> 's \<Rightarrow> bool" where
  "waits_at p s = (case p of Act f \<Rightarrow> Option.is_none (f s) | _ \<Rightarrow> False)"

lemma waits_Act [simp]: "waits_at (Act f) s \<longleftrightarrow> f s = None"
  by (simp add: waits_at_def Option.is_none_def)

lemma waits_sys [simp]: "waits_at (sys f) s \<longleftrightarrow> f s = None"
  by (simp add: sys_def)

lemma waits_bind: "waits_at p s \<Longrightarrow> waits_at (pbind p k) s"
  by (cases p) (simp_all add: waits_at_def Option.is_none_def)

section \<open>Turns of two processes\<close>

inductive hand :: "'s \<times> ('s, 'a) proc \<times> ('s, 'a) proc \<Rightarrow> 's \<times> ('s, 'a) proc \<times> ('s, 'a) proc \<Rightarrow> bool" where
  left: "f s = Some (s', p) \<Longrightarrow> waits_at q s \<Longrightarrow> hand (s, Act f, q) (s', p, q)"
| right: "waits_at p s \<Longrightarrow> f s = Some (s', q) \<Longrightarrow> hand (s, p, Act f) (s', p, q)"

definition pair :: "'s \<times> ('s, 'a) proc \<times> ('s, 'a) proc \<Rightarrow> ('s, 'a) config" where
  "pair x = (case x of (s, p, q) \<Rightarrow> (s, [p, q]))"

lemma step_waits: "i < length ps \<Longrightarrow> waits_at (ps ! i) s \<Longrightarrow> step_of i (s, ps) = None"
  by (cases "ps ! i") (simp_all add: waits_at_def Option.is_none_def)

lemma hand_only:
  assumes "hand x y" "sys_step (pair x) c"
  shows "c = pair y"
proof -
  obtain i where i: "step_of i (pair x) = Some c" using assms(2) by (auto elim: sys_step.cases)
  then have "i < 2" by (cases x) (simp add: pair_def split: if_splits)
  then have n: "i = 0 \<or> i = 1" by auto
  from assms(1) show ?thesis
  proof cases
    case (left f s s' p q)
    then have "step_of 1 (pair x) = None" by (simp add: pair_def step_waits del: step_of.simps)
    with i n left show ?thesis by (auto simp: pair_def)
  next
    case (right p s f s' q)
    then have "step_of 0 (pair x) = None" by (simp add: pair_def step_waits del: step_of.simps)
    with i n right show ?thesis by (auto simp: pair_def)
  qed
qed

text \<open>The same turns among other processes.\<close>

lemma hand_among:
  assumes "hand (s, p, q) (s', p', q')" "i < length ps" "j < length ps" "i \<noteq> j" "ps ! i = p" "ps ! j = q"
  shows "sys_step (s, ps) (s', ps[i := p', j := q'])"
  using assms(1)
proof cases
  case (left f)
  with assms show ?thesis by (intro sys_step.intros [of i]) (auto simp: list_update_swap [of i j])
next
  case (right f)
  with assms show ?thesis by (intro sys_step.intros [of j]) (auto simp: list_update_same_conv)
qed

lemma hands_among:
  "hand\<^sup>*\<^sup>* x y \<Longrightarrow> i < length ps \<Longrightarrow> j < length ps \<Longrightarrow> i \<noteq> j \<Longrightarrow> ps ! i = fst (snd x) \<Longrightarrow> ps ! j = snd (snd x) \<Longrightarrow>
   sys_step\<^sup>*\<^sup>* (fst x, ps) (fst y, ps[i := fst (snd y), j := snd (snd y)])"
proof (induction arbitrary: ps rule: converse_rtranclp_induct)
  case base
  then have "ps[i := fst (snd y), j := snd (snd y)] = ps" by (metis list_update_id)
  then show ?case by simp
next
  case (step x x1)
  let ?ps = "ps[i := fst (snd x1), j := snd (snd x1)]"
  have "sys_step (fst x, ps) (fst x1, ?ps)"
    by (rule hand_among [OF _ step.prems]) (use step.hyps(1) in simp)
  moreover have "sys_step\<^sup>*\<^sup>* (fst x1, ?ps) (fst y, ?ps[i := fst (snd y), j := snd (snd y)])"
    using step.IH [of ?ps] step.prems by simp
  moreover have "?ps[i := p, j := q] = ps[i := p, j := q]" for p q
    using step.prems(3) by (simp add: list_update_swap [of j i])
  ultimately show ?case by (simp add: converse_rtranclp_into_rtranclp)
qed

text \<open>There is one run: whatever the two processes have done, they are on it.\<close>

lemma hands_only:
  assumes "hand\<^sup>*\<^sup>* x y" "sys_step\<^sup>*\<^sup>* (pair x) c"
  shows "sys_step\<^sup>*\<^sup>* c (pair y) \<or> sys_step\<^sup>*\<^sup>* (pair y) c"
  using assms
proof (induction rule: converse_rtranclp_induct)
  case (step x x1)
  have up: "sys_step\<^sup>*\<^sup>* (pair x) (pair y)"
    using hands_among [OF converse_rtranclp_into_rtranclp [of hand, OF step.hyps], of 0 "[fst (snd x), snd (snd x)]" 1]
    by (simp add: pair_def case_prod_unfold)
  from step.prems show ?case
  proof (cases rule: converse_rtranclpE)
    case base
    with up show ?thesis by simp
  next
    case (step d)
    with hand_only [OF \<open>hand x x1\<close> step(1)] \<open>sys_step\<^sup>*\<^sup>* (pair x1) c \<Longrightarrow> sys_step\<^sup>*\<^sup>* c (pair y) \<or> sys_step\<^sup>*\<^sup>* (pair y) c\<close>
    show ?thesis by simp
  qed
qed simp

text \<open>From \<open>c\<close> on there is one run as far as \<open>d\<close>: it gets there, and nothing reachable is off it.\<close>

definition one_run :: "('s, 'a) config \<Rightarrow> ('s, 'a) config \<Rightarrow> bool" where
  "one_run c d \<longleftrightarrow> sys_step\<^sup>*\<^sup>* c d \<and> (\<forall>e. sys_step\<^sup>*\<^sup>* c e \<longrightarrow> sys_step\<^sup>*\<^sup>* e d \<or> sys_step\<^sup>*\<^sup>* d e)"

lemma hands_one_run: "hand\<^sup>*\<^sup>* (s, p, q) (s', p', q') \<Longrightarrow> one_run (s, [p, q]) (s', [p', q'])"
  using hands_only [of "(s, p, q)" "(s', p', q')"] hands_among [of "(s, p, q)" "(s', p', q')" 0 "[p, q]" 1]
  by (auto simp: one_run_def pair_def)


section \<open>One call while the other side waits\<close>

text \<open>\<open>p\<close> runs from \<open>s\<close> to its result, and before each of its steps \<open>q\<close> waits.\<close>

inductive solo :: "('s, 'b) proc \<Rightarrow> ('s, 'a) proc \<Rightarrow> 's \<Rightarrow> 'a \<Rightarrow> 's \<Rightarrow> bool" for q where
  solo_Ret: "solo q (Ret x) s x s"
| solo_Act: "f s = Some (s1, p) \<Longrightarrow> waits_at q s \<Longrightarrow> solo q p s1 x s' \<Longrightarrow> solo q (Act f) s x s'"

inductive_simps solo_simps [simp]: "solo q (Ret x) s y s'" "solo q (Act f) s y s'"

lemma solo_sys [simp]:
  "solo q (sys f) s x s' \<longleftrightarrow> f s = Some (x, s') \<and> waits_at q s"
  by (auto simp: sys_def)

lemma solo_bind:
  "solo q p s x s1 \<Longrightarrow> solo q (k x) s1 y s' \<Longrightarrow> solo q (pbind p k) s y s'"
  by (induction rule: solo.induct) auto

lemma solo_runs: "solo q p s x s' \<Longrightarrow> run_proc p s = (Done x, s')"
  by (induction rule: solo.induct) simp_all

lemma solo_delivers:
  assumes "\<exists>s1 s2. solo q p s x s1 \<and> solo q' p' s1 y s2 \<and> I s2"
  shows "\<exists>s1 s2. run_proc p s = (Done x, s1) \<and> run_proc p' s1 = (Done y, s2) \<and> I s2"
proof -
  obtain s1 s2 where "solo q p s x s1" "solo q' p' s1 y s2" "I s2" using assms by blast
  from solo_runs [OF this(1)] solo_runs [OF this(2)] this(3) show ?thesis by (intro exI conjI)
qed

lemma waits_blocked: "waits_at p s \<Longrightarrow> fst (run_proc p s) = Blocked"
  by (cases p) (simp_all add: waits_at_def Option.is_none_def)

text \<open>Beside a process that never takes a step, that is a run of the one process.\<close>

abbreviation never :: "('s, 'a) proc" where
  "never \<equiv> Act (\<lambda>_. None)"

lemma never_waits: "waits_at never s"
  by simp

section \<open>Links that take turns\<close>

locale ipc_turns =
  fixes c_send :: "datagram \<Rightarrow> ('s, int) proc" and s_recv :: "('s, datagram option) proc"
    and s_send :: "datagram \<Rightarrow> ('s, int) proc" and c_recv :: "('s, datagram option) proc"
    and idle :: "'s \<Rightarrow> bool"
    and req_fits :: "datagram \<Rightarrow> bool" and req_seen :: "datagram \<Rightarrow> datagram"
    and ans_fits :: "datagram \<Rightarrow> bool" and ans_seen :: "datagram \<Rightarrow> datagram"
  assumes req_turn: "idle s \<Longrightarrow> req_fits d \<Longrightarrow>
      \<exists>s1 s2. solo s_recv (c_send d) s 0 s1 \<and> solo c_recv s_recv s1 (Some (req_seen d)) s2 \<and> idle s2"
    and ans_turn: "idle s \<Longrightarrow> ans_fits a \<Longrightarrow>
      \<exists>s1 s2. solo c_recv (s_send a) s 0 s1 \<and> solo s_recv c_recv s1 (Some (ans_seen a)) s2 \<and> idle s2"
    and c_asleep: "idle s \<Longrightarrow> waits_at c_recv s"
    and s_asleep: "idle s \<Longrightarrow> waits_at s_recv s"

text \<open>The contract of \<open>include/ipc.h\<close> follows.\<close>

sublocale ipc_turns \<subseteq> ipc_link
  by unfold_locales (rule solo_delivers [OF req_turn] waits_blocked [OF s_asleep]
      solo_delivers [OF ans_turn] waits_blocked [OF c_asleep]; assumption)+

lemma two_roles: "{CLIENT, SERVER} = {SERVER, CLIENT}" "{SERVER, CLIENT} = {SERVER, CLIENT}"
  by auto

end
