(* ===== verification/ShmemLaws.thy ===== *)
theory ShmemLaws
  imports Shmem Turns
begin

text \<open>
  Laws of the shared-memory transport: segments and the semaphores do not disturb each other, a
  datagram copied into a segment is read back as it was, and the two directions of a connected pair
  of sessions are channels of \<open>Ipc\<close>.
\<close>

section \<open>Segments\<close>

definition seg_ok :: "'z shm_state_scheme \<Rightarrow> int \<Rightarrow> bool" where
  "seg_ok s a \<longleftrightarrow> (\<exists>g. shm_segs s a = Some g \<and> length (seg_bytes g) = SHMEM_SIZE)"

lemma segs_adjust [simp]:
  "shm_segs (adjust u p i n x s) = shm_segs s" "shm_ids (adjust u p i n x s) = shm_ids s"
  "shm_next (adjust u p i n x s) = shm_next s" "shm_room (adjust u p i n x s) = shm_room s"
  by (simp_all add: adjust_def add_adj_def)

lemma seg_ok_adjust [simp]: "seg_ok (adjust u p i n x s) = seg_ok s"
  by (auto simp: seg_ok_def intro!: ext)

lemma shm_load_adjust [simp]: "shm_load a off n (adjust u p i m x s) = shm_load a off n s"
  by (simp add: shm_load_def)

lemma sem_val_store: "shm_store a off bs s = Some s' \<Longrightarrow> sem_val s' = sem_val s"
  by (auto simp: shm_store_def sem_val_def intro!: ext split: bind_splits)

lemma seg_ok_store:
  "seg_ok s a \<Longrightarrow> off + length bs \<le> SHMEM_SIZE \<Longrightarrow>
   \<exists>s'. shm_store a off bs s = Some s' \<and> seg_ok s' a \<and> shm_load a off (length bs) s' = Some bs"
  by (auto simp: seg_ok_def shm_store_def shm_load_def poke_def peek_def)

lemma shm_load_prefix:
  "shm_load a off n s = Some bs \<Longrightarrow> m \<le> n \<Longrightarrow> shm_load a off m s = Some (take m bs)"
  by (auto simp: shm_load_def peek_def split: bind_splits if_splits)

section \<open>Channels\<close>

text \<open>
  Two connected sessions name the same segment and the same semaphores; nothing is on its way when
  both semaphores are 0.
\<close>

definition shm_idle :: "shm_session \<Rightarrow> 'z shm_state_scheme \<Rightarrow> bool" where
  "shm_idle session s \<longleftrightarrow>
     seg_ok s (ss_alloc session) \<and> sem_val s (ss_semid session) SEM_CLIENT = Some 0 \<and>
     sem_val s (ss_semid session) SEM_SERVER = Some 0"

definition shm_fits :: "datagram \<Rightarrow> bool" where
  "shm_fits d \<longleftrightarrow> dg_wf SHMEM d \<and> dg_size d \<le> of_nat SHMEM_SIZE"

lemma shm_fits_length:
  "shm_fits d \<Longrightarrow> length (dg_bytes SHMEM d) = unat (dg_size d) \<and> unat (dg_size d) \<le> 4096 \<and>
     168 \<le> unat (dg_size d)"
  using word_le_nat_alt [of "dg_size d" 4096]
  by (simp add: shm_fits_def dg_wf_def layout)

definition turn :: "role \<Rightarrow> nat" where
  "turn r = (if r = SERVER then SEM_CLIENT else SEM_SERVER)"

lemma turn_simps [simp]: "turn SERVER = SEM_CLIENT" "turn CLIENT = SEM_SERVER" "SEM_CLIENT \<noteq> SEM_SERVER"
  by (simp_all add: turn_def sem_numbers)

lemma sem_both: "shm_idle session s \<Longrightarrow> sem_val s (ss_semid session) (turn r) = Some 0"
  by (simp add: shm_idle_def turn_def)

text \<open>\<open>ipc_receive\<close> never returns a null pointer here.\<close>

definition shm_receive_ptr :: "role \<Rightarrow> nat \<Rightarrow> shm_session \<Rightarrow> ('z shm_state_scheme, datagram option) proc" where
  "shm_receive_ptr r pid session = pbind (shm_ipc_receive r pid session) (\<lambda>d. Ret (Some d))"

text \<open>Shared memory: a copy and the semaphore, the semaphore and two reads.\<close>

lemma shm_asleep:
  assumes "sem_val s (ss_semid session) (turn r) = Some 0"
  shows "waits_at (shm_receive_ptr r q session) s"
  using assms
  by (simp add: shm_receive_ptr_def shm_ipc_receive_def turn_def sem_down_def semop_value split: if_splits)

lemma shm_turn:
  assumes idle: "shm_idle session s" and fits: "shm_fits d" and other: "{r, r'} = {SERVER, CLIENT}"
  shows "\<exists>s1 s2. solo (shm_receive_ptr r' q session) (shm_ipc_send r flg p session d) s 0 s1 \<and>
    solo (shm_receive_ptr r p session) (shm_receive_ptr r' q session) s1 (Some d) s2 \<and> shm_idle session s2"
proof -
  let ?i = "ss_semid session" let ?a = "ss_alloc session" let ?n = "turn r'"
  note len = shm_fits_length [OF fits]
  have n: "(if r = SERVER then SEM_SERVER else SEM_CLIENT) = ?n"
    "(if r' = SERVER then SEM_CLIENT else SEM_SERVER) = ?n" and apart: "turn r \<noteq> ?n"
  proof -
    from other have "r = SERVER \<and> r' = CLIENT \<or> r = CLIENT \<and> r' = SERVER" by (auto simp: doubleton_eq_iff)
    then show "(if r = SERVER then SEM_SERVER else SEM_CLIENT) = ?n"
      "(if r' = SERVER then SEM_CLIENT else SEM_SERVER) = ?n" "turn r \<noteq> ?n"
      by (auto simp: sem_numbers)
  qed
  obtain s' where st: "shm_store ?a 0 (dg_bytes SHMEM d) s = Some s'" "seg_ok s' ?a"
      "shm_load ?a 0 (length (dg_bytes SHMEM d)) s' = Some (dg_bytes SHMEM d)"
    using seg_ok_store [of s ?a 0 "dg_bytes SHMEM d"] idle len
    by (auto simp: shm_idle_def layout simp del: length_dg_bytes)
  have v: "sem_val s' ?i m = sem_val s ?i m" for m using sem_val_store [OF st(1)] by simp
  let ?s1 = "adjust (bit flg 12) p ?i ?n 1 s'" let ?s2 = "adjust True q ?i ?n (-1) ?s1"
  have v1: "sem_val s' ?i ?n = Some 0" using sem_both [OF idle] v by simp
  have v2: "sem_val ?s1 ?i ?n = Some 1" using sem_val_adjust [OF v1] by simp
  have z: "sem_val ?s2 ?i m = Some 0" if "sem_val s ?i m = Some 0" for m
    unfolding sem_val_adjust [OF v2] sem_val_adjust [OF v1] using that v by simp
  have t: "sem_val ?s1 ?i (turn r) = Some 0"
    unfolding sem_val_adjust [OF v1] using apart v sem_both [OF idle, of r] by simp
  have small: "\<not> of_nat SHMEM_SIZE < dg_size d" using fits by (simp add: shm_fits_def not_less)
  have w: "waits_at (shm_receive_ptr r' q session) s" "waits_at (shm_receive_ptr r' q session) s'"
    "waits_at (shm_receive_ptr r p session) ?s1" "waits_at (shm_receive_ptr r p session) ?s2"
    by (rule shm_asleep, rule sem_both [OF idle], rule shm_asleep, rule v1, rule shm_asleep, rule t,
        rule shm_asleep, rule z, rule sem_both [OF idle])
  have "solo (shm_receive_ptr r' q session) (shm_ipc_send r flg p session d) s 0 ?s1"
    using small len st(1) w(1,2)
    by (simp add: shm_ipc_send_def n(1) store_def sem_up_def semop_value [OF v1] del: length_dg_bytes)
  moreover have "solo (shm_receive_ptr r p session) (shm_receive_ptr r' q session) ?s1 (Some d) ?s2"
  proof -
    have l8: "shm_load ?a 0 8 ?s2 = Some (le8 (dg_size d))"
      using shm_load_prefix [OF st(3), of 8] len by (simp add: le8_dg_bytes del: length_dg_bytes)
    have ln: "shm_load ?a 0 (unat (dg_size d)) ?s2 = Some (dg_bytes SHMEM d)"
      using st(3) len by (simp del: length_dg_bytes)
    have wf: "dg_wf SHMEM d" using fits by (simp add: shm_fits_def)
    show ?thesis
      using l8 ln w(3,4) unfolding shm_receive_ptr_def [of r'] shm_ipc_receive_def n(2)
      by (simp add: load_def sem_down_def semop_value [OF v2] pbind_assoc dg_block_bytes [OF wf])
  qed
  moreover have "shm_idle session ?s2" using idle st(2) z by (simp add: shm_idle_def)
  ultimately show ?thesis by (intro exI conjI)
qed

lemma shm_idle_asleep: "shm_idle session s \<Longrightarrow> waits_at (shm_receive_ptr r q session) s"
  by (rule shm_asleep) (rule sem_both)

interpretation shm_turns: ipc_turns
    "shm_ipc_send CLIENT flg' p session" "shm_receive_ptr SERVER q session"
    "shm_ipc_send SERVER flg q session" "shm_receive_ptr CLIENT p session"
    "shm_idle session" shm_fits "\<lambda>d. d" shm_fits "\<lambda>d. d"
  for flg' flg p q session
  by unfold_locales (rule shm_turn [OF _ _ two_roles(1)] shm_turn [OF _ _ two_roles(2)] shm_idle_asleep; assumption)+

text \<open>What is larger than the segment is refused.\<close>

interpretation shm_req: ipc_checked
    "shm_ipc_send CLIENT flg p session" "shm_receive_ptr SERVER q session" "shm_idle session" shm_fits "\<lambda>d. d"
  for flg p q session
  by unfold_locales (simp add: shm_ipc_send_def layout)

interpretation shm_ans: ipc_checked
    "shm_ipc_send SERVER flg q session" "shm_receive_ptr CLIENT p session" "shm_idle session" shm_fits "\<lambda>d. d"
  for flg p q session
  by unfold_locales (simp add: shm_ipc_send_def layout)

end
