(* ===== verification/Fifo.thy ===== *)
theory Fifo
  imports Ipc
begin

text \<open>
  \<open>ipc/fifo.c\<close>: the transport over named pipes: two public pipes for the connection and two private
  ones for each client.  A descriptor is the number of the pipe it is open on, or -1; opening an end
  waits for the other one, reading waits for bytes while there is a writer, writing without a reader
  raises SIGPIPE.  The messages are left out.
\<close>

section \<open>Named pipes of the system\<close>

record pipe =
  p_buf :: bytes
  p_readers :: nat
  p_writers :: nat
  p_r_opens :: nat      \<comment> \<open>how often an end was opened\<close>
  p_w_opens :: nat

record fifo_state = sem_state +
  pipe_names :: "string \<Rightarrow> nat option"
  pipes :: "nat \<Rightarrow> pipe"
  pipe_next :: nat
  pipe_room :: bool

definition new_pipe :: pipe where
  "new_pipe = \<lparr>p_buf = [], p_readers = 0, p_writers = 0, p_r_opens = 0, p_w_opens = 0\<rparr>"

definition PIPE_CAPACITY :: nat where "PIPE_CAPACITY = 65536"

definition fifo_exists :: "string \<Rightarrow> 'z fifo_state_scheme \<Rightarrow> bool" where
  "fifo_exists path s = (pipe_names s path \<noteq> None)"

definition mknod :: "string \<Rightarrow> 'z fifo_state_scheme \<Rightarrow> int \<times> 'z fifo_state_scheme" where
  "mknod path s =
     (if pipe_names s path = None \<and> pipe_room s then
        (0, s\<lparr>pipe_names := (pipe_names s)(path := Some (pipe_next s)),
              pipes := (pipes s)(pipe_next s := new_pipe), pipe_next := pipe_next s + 1\<rparr>)
      else (-1, s))"

definition unlink :: "string \<Rightarrow> 'z fifo_state_scheme \<Rightarrow> 'z fifo_state_scheme" where
  "unlink path s = s\<lparr>pipe_names := (pipe_names s)(path := None)\<rparr>"

definition set_pipe :: "nat \<Rightarrow> pipe \<Rightarrow> 'z fifo_state_scheme \<Rightarrow> 'z fifo_state_scheme" where
  "set_pipe i p s = s\<lparr>pipes := (pipes s)(i := p)\<rparr>"

text \<open>
  \<open>open\<close> with \<open>O_RDONLY\<close>, with \<open>O_WRONLY\<close>: the end is there at once, the call returns when the other
  end is open or has been opened since.
\<close>

definition open_rdonly :: "string \<Rightarrow> ('z fifo_state_scheme, int) proc" where
  "open_rdonly path =
     pbind (sys (\<lambda>s. Some (case pipe_names s path of
         None \<Rightarrow> (None, s)
       | Some i \<Rightarrow> (let p = pipes s i in
            (Some (i, 0 < p_writers p, p_w_opens p),
             set_pipe i (p\<lparr>p_readers := p_readers p + 1, p_r_opens := p_r_opens p + 1\<rparr>) s)))))
       (\<lambda>r. case r of
          None \<Rightarrow> Ret (-1)
        | Some (i, ready, seen) \<Rightarrow>
            if ready then Ret (int i)
            else sys (\<lambda>s. if p_w_opens (pipes s i) = seen then None else Some (int i, s)))"

definition open_wronly :: "string \<Rightarrow> ('z fifo_state_scheme, int) proc" where
  "open_wronly path =
     pbind (sys (\<lambda>s. Some (case pipe_names s path of
         None \<Rightarrow> (None, s)
       | Some i \<Rightarrow> (let p = pipes s i in
            (Some (i, 0 < p_readers p, p_r_opens p),
             set_pipe i (p\<lparr>p_writers := p_writers p + 1, p_w_opens := p_w_opens p + 1\<rparr>) s)))))
       (\<lambda>r. case r of
          None \<Rightarrow> Ret (-1)
        | Some (i, ready, seen) \<Rightarrow>
            if ready then Ret (int i)
            else sys (\<lambda>s. if p_r_opens (pipes s i) = seen then None else Some (int i, s)))"

text \<open>The last \<open>close\<close> of a pipe throws its bytes away.\<close>

definition drop_pipe :: "pipe \<Rightarrow> pipe" where
  "drop_pipe p = (if p_readers p = 0 \<and> p_writers p = 0 then p\<lparr>p_buf := []\<rparr> else p)"

definition close_r :: "int \<Rightarrow> 'z fifo_state_scheme \<Rightarrow> 'z fifo_state_scheme" where
  "close_r fd s =
     (if fd < 0 then s
      else let p = pipes s (nat fd)
           in set_pipe (nat fd) (drop_pipe (p\<lparr>p_readers := p_readers p - 1\<rparr>)) s)"

definition close_w :: "int \<Rightarrow> 'z fifo_state_scheme \<Rightarrow> 'z fifo_state_scheme" where
  "close_w fd s =
     (if fd < 0 then s
      else let p = pipes s (nat fd)
           in set_pipe (nat fd) (drop_pipe (p\<lparr>p_writers := p_writers p - 1\<rparr>)) s)"

text \<open>\<open>read\<close>: \<open>None\<close> is the error, the empty list the end of the file.\<close>

definition pipe_read :: "int \<Rightarrow> nat \<Rightarrow> ('z fifo_state_scheme, bytes option) proc" where
  "pipe_read fd n =
     (if fd < 0 then Ret None
      else sys (\<lambda>s. let p = pipes s (nat fd) in
             if p_buf p = [] \<and> 0 < p_writers p then None
             else Some (Some (take n (p_buf p)), set_pipe (nat fd) (p\<lparr>p_buf := drop n (p_buf p)\<rparr>) s)))"

text \<open>\<open>write\<close> of at most 4096 bytes, which goes in whole; \<open>sigpipe\<close> is what the process does on SIGPIPE.\<close>

definition pipe_write ::
    "('z fifo_state_scheme, int) proc \<Rightarrow> int \<Rightarrow> bytes \<Rightarrow> ('z fifo_state_scheme, int) proc" where
  "pipe_write sigpipe fd bs =
     (if fd < 0 then Ret (-1)
      else Act (\<lambda>s. let p = pipes s (nat fd) in
             if p_readers p = 0 then Some (s, sigpipe)
             else if PIPE_CAPACITY < length (p_buf p) + length bs then None
             else Some (set_pipe (nat fd) (p\<lparr>p_buf := p_buf p @ bs\<rparr>) s, Ret (int (length bs)))))"

section \<open>Sessions\<close>

record fifo_session =
  fs_path_r :: string
  fs_path_w :: string
  fs_serverfd_r :: int
  fs_serverfd_w :: int
  fs_queueid :: int

text \<open>\<open>build_path\<close>: a copy of the path in a block of its own.\<close>

definition fifo_build_path :: "string \<Rightarrow> string" where
  "fifo_build_path path = path"

definition fifo_make_fifo :: "string \<Rightarrow> ('z fifo_state_scheme, int) proc" where
  "fifo_make_fifo path = sys (\<lambda>s. Some (mknod path s))"

definition fifo_file_exist :: "string \<Rightarrow> ('z fifo_state_scheme, bool) proc" where
  "fifo_file_exist path = sys (\<lambda>s. Some (fifo_exists path s, s))"

text \<open>\<open>!file_exist (path) && make_fifo (path) == -1\<close>\<close>

definition fifo_cannot_make :: "string \<Rightarrow> ('z fifo_state_scheme, bool) proc" where
  "fifo_cannot_make path =
     pbind (fifo_file_exist path) (\<lambda>e.
       if e then Ret False else pbind (fifo_make_fifo path) (\<lambda>r. Ret (r = -1)))"

definition fifo_ipc_newsession :: "fifo_session \<Rightarrow> fifo_session" where
  "fifo_ipc_newsession junk = junk"

section \<open>Sending and receiving\<close>

definition fifo_ipc_send ::
    "role \<Rightarrow> ('z fifo_state_scheme, int) proc \<Rightarrow> fifo_session \<Rightarrow> datagram \<Rightarrow> ('z fifo_state_scheme, int) proc" where
  "fifo_ipc_send r sigpipe session data =
     (if of_nat DATAGRAM_MAXSIZE < dg_size data then Ret (-1)
      else if length (dg_bytes FIFO data) < unat (dg_size data) then Undef
      else pseq (pipe_write sigpipe (if r = SERVER then fs_serverfd_w session else fs_serverfd_r session)
                   (take (unat (dg_size data)) (dg_bytes FIFO data)))
                (Ret 0))"

definition fifo_ipc_receive :: "role \<Rightarrow> fifo_session \<Rightarrow> ('z fifo_state_scheme, datagram option) proc" where
  "fifo_ipc_receive r session =
     pbind (pipe_read (if r = SERVER then fs_serverfd_r session else fs_serverfd_w session) DATAGRAM_MAXSIZE)
       (\<lambda>data. case data of None \<Rightarrow> Ret None | Some data \<Rightarrow> kept_block FIFO data)"

text \<open>The server closes the writing end of \<open>-w\<close> and the reading end of \<open>-r\<close>, the client the others.\<close>

definition fifo_close_fds :: "role \<Rightarrow> fifo_session \<Rightarrow> ('z fifo_state_scheme, unit) proc" where
  "fifo_close_fds r session =
     pseq (upd (if r = SERVER then close_w (fs_serverfd_w session) else close_r (fs_serverfd_w session)))
          (upd (if r = SERVER then close_r (fs_serverfd_r session) else close_w (fs_serverfd_r session)))"

definition fifo_ipc_disconnect :: "role \<Rightarrow> fifo_session \<Rightarrow> ('z fifo_state_scheme, unit) proc" where
  "fifo_ipc_disconnect r session =
     pseq (fifo_close_fds r session)
          (if r = SERVER
           then pseq (upd (unlink (fs_path_r session))) (upd (unlink (fs_path_w session)))
           else Ret ())"

definition fifo_ipc_free :: "role \<Rightarrow> fifo_session \<Rightarrow> ('z fifo_state_scheme, unit) proc" where
  "fifo_ipc_free r session = (if r = SERVER then sem_queue_destroy (fs_queueid session) else Ret ())"

text \<open>The error path of the two receives of the server: clean up and \<open>exit (1)\<close>.\<close>

definition fifo_expect_connect ::
    "fifo_session \<Rightarrow> datagram option \<Rightarrow> ('z fifo_state_scheme, 'a) proc \<Rightarrow> ('z fifo_state_scheme, 'a) proc" where
  "fifo_expect_connect session datagram k =
     (case datagram of
        None \<Rightarrow> Undef
      | Some d \<Rightarrow>
          if dg_opcode d \<noteq> opc OP_CONNECT
          then pseq (fifo_ipc_disconnect SERVER session) (pseq (fifo_ipc_free SERVER session) (Halt 1))
          else k)"

text \<open>\<open>fork\<close> gives the child its own copy of both descriptors.\<close>

definition fifo_fork :: "fifo_session \<Rightarrow> 'z fifo_state_scheme \<Rightarrow> 'z fifo_state_scheme" where
  "fifo_fork session s =
     (let s = (if fs_serverfd_r session < 0 then s
               else let i = nat (fs_serverfd_r session); p = pipes s i
                    in set_pipe i (p\<lparr>p_readers := p_readers p + 1\<rparr>) s)
      in if fs_serverfd_w session < 0 then s
         else let i = nat (fs_serverfd_w session); p = pipes s i
              in set_pipe i (p\<lparr>p_writers := p_writers p + 1\<rparr>) s)"

section \<open>The server's side\<close>

definition fifo_ipc_listen ::
    "file_stat \<Rightarrow> fifo_session \<Rightarrow> ('z fifo_state_scheme, int \<times> fifo_session) proc" where
  "fifo_ipc_listen st session =
     pbind (sem_queue_init st 1) (\<lambda>queueid.
     let session = session\<lparr>fs_queueid := queueid\<rparr> in
     pseq (sem_set queueid SEM_QUEUE 0)
    (pbind (fifo_cannot_make (FIFO_INITIAL_PATH @ ''-r'')) (\<lambda>fails.
       if fails then Ret (-1, session)
       else pbind (fifo_cannot_make (FIFO_INITIAL_PATH @ ''-w'')) (\<lambda>fails.
         if fails then Ret (-1, session)
         else Ret (0, session\<lparr>fs_path_r := fifo_build_path (FIFO_INITIAL_PATH @ ''-r''),
                              fs_path_w := fifo_build_path (FIFO_INITIAL_PATH @ ''-w'')\<rparr>)))))"

definition fifo_ipc_accept :: "fifo_session \<Rightarrow> ('z fifo_state_scheme, fifo_session) proc" where
  "fifo_ipc_accept session =
     pbind (open_rdonly (FIFO_INITIAL_PATH @ ''-r'')) (\<lambda>fd.
     let session = session\<lparr>fs_serverfd_r := fd\<rparr> in
     pbind (open_wronly (FIFO_INITIAL_PATH @ ''-w'')) (\<lambda>fd.
     let session = session\<lparr>fs_serverfd_w := fd\<rparr> in
     pbind (fifo_ipc_receive SERVER session) (\<lambda>datagram.
       fifo_expect_connect session datagram (Ret session))))"

definition fifo_ipc_sync ::
    "(nat \<Rightarrow> char) \<Rightarrow> 16 word \<Rightarrow> ('z fifo_state_scheme, int) proc \<Rightarrow> nat \<Rightarrow> i32 \<Rightarrow> fifo_session \<Rightarrow>
     ('z fifo_state_scheme, fifo_session) proc" where
  "fifo_ipc_sync hp flg sigpipe pid cli_count session =
     pbind (path_buf ''%s-%d-r'' [AStr FIFO_INITIAL_PATH, AInt cli_count]) (\<lambda>newpath_r.
     pbind (fifo_cannot_make newpath_r) (\<lambda>fails. if fails then Halt 1 else
     pbind (path_buf ''%s-%d-w'' [AStr FIFO_INITIAL_PATH, AInt cli_count]) (\<lambda>newpath_w.
     pbind (fifo_cannot_make newpath_w) (\<lambda>fails. if fails then Halt 1 else
     pbind (path_buf ''%s-%d'' [AStr FIFO_INITIAL_PATH, AInt cli_count]) (\<lambda>newpath_base.
     let size = SIZEOF_DG FIFO + length newpath_base + 1 in
     (case put_cmd newpath_base (malloc_dg FIFO hp size) of
        None \<Rightarrow> Undef
      | Some datagram \<Rightarrow>
          pseq (fifo_ipc_send SERVER sigpipe session (datagram\<lparr>dg_size := of_nat size\<rparr>))
         (pseq (fifo_close_fds SERVER session)
         (pseq (sem_up flg pid (fs_queueid session) SEM_QUEUE)
         (pbind (open_wronly newpath_w) (\<lambda>fd.
          let session = session\<lparr>fs_serverfd_w := fd, fs_path_w := fifo_build_path newpath_w\<rparr> in
          pbind (open_rdonly newpath_r) (\<lambda>fd.
          let session = session\<lparr>fs_serverfd_r := fd, fs_path_r := fifo_build_path newpath_r\<rparr> in
          pbind (fifo_ipc_receive SERVER session) (\<lambda>datagram.
            fifo_expect_connect session datagram (Ret session)))))))))))))"

definition fifo_ipc_waitsync :: "nat \<Rightarrow> fifo_session \<Rightarrow> ('z fifo_state_scheme, unit) proc" where
  "fifo_ipc_waitsync pid session = sem_down pid (fs_queueid session) SEM_QUEUE"

section \<open>The client's side\<close>

definition fifo_ipc_connect ::
    "(nat \<Rightarrow> char) \<Rightarrow> ('z fifo_state_scheme, int) proc \<Rightarrow> fifo_session \<Rightarrow>
     ('z fifo_state_scheme, int \<times> fifo_session) proc" where
  "fifo_ipc_connect hp sigpipe session =
     pbind (fifo_file_exist (FIFO_INITIAL_PATH @ ''-r'')) (\<lambda>e. if \<not> e then Halt 1 else
     pbind (fifo_file_exist (FIFO_INITIAL_PATH @ ''-w'')) (\<lambda>e. if \<not> e then Halt 1 else
     pbind (open_wronly (FIFO_INITIAL_PATH @ ''-r'')) (\<lambda>fd.
     let session = session\<lparr>fs_serverfd_r := fd\<rparr> in
     pbind (open_rdonly (FIFO_INITIAL_PATH @ ''-w'')) (\<lambda>fd.
     let session = session\<lparr>fs_serverfd_w := fd\<rparr> in
     pseq (fifo_ipc_send CLIENT sigpipe session (new_dg FIFO hp (SIZEOF_DG FIFO) OP_CONNECT))
    (pbind (fifo_ipc_receive CLIENT session) (\<lambda>datagram.
       case datagram of
         None \<Rightarrow> Undef
       | Some d \<Rightarrow>
          (case dg_cmd d of
             None \<Rightarrow> Undef
           | Some base \<Rightarrow>
              pbind (path_buf ''%s-r'' [AStr base]) (\<lambda>newpath_r.
              pbind (path_buf ''%s-w'' [AStr base]) (\<lambda>newpath_w.
              let session = session\<lparr>fs_path_r := fifo_build_path newpath_r, fs_path_w := fifo_build_path newpath_w\<rparr> in
              pseq (upd (close_w (fs_serverfd_r session)))
             (pseq (upd (close_r (fs_serverfd_w session)))
             (pbind (open_rdonly (fs_path_w session)) (\<lambda>fd.
              let session = session\<lparr>fs_serverfd_w := fd\<rparr> in
              pbind (open_wronly (fs_path_r session)) (\<lambda>fd.
              let session = session\<lparr>fs_serverfd_r := fd\<rparr> in
              let d = d\<lparr>dg_raw := realloc hp (dg_raw d) (SIZEOF_DG FIFO - HDR FIFO),
                        dg_size := of_nat (SIZEOF_DG FIFO), dg_opcode := opc OP_CONNECT\<rparr> in
              pseq (fifo_ipc_send CLIENT sigpipe session d) (Ret (0, session)))))))))))))))"

definition fifo_ipc_shouldfork :: bool where "fifo_ipc_shouldfork = True"

end
