(* ===== verification/FifoLaws.thy ===== *)
theory FifoLaws
  imports Fifo Turns
begin

text \<open>
  Laws of the named-pipe transport: the two directions of a connected pair of sessions are channels
  of \<open>Ipc\<close>, whatever the process does on SIGPIPE, since both ends stay open.
\<close>

definition fifo_idle :: "fifo_session \<Rightarrow> 'z fifo_state_scheme \<Rightarrow> bool" where
  "fifo_idle session s \<longleftrightarrow>
     0 \<le> fs_serverfd_r session \<and> 0 \<le> fs_serverfd_w session \<and>
     (\<forall>fd \<in> {fs_serverfd_r session, fs_serverfd_w session}.
        p_buf (pipes s (nat fd)) = [] \<and> 0 < p_readers (pipes s (nat fd)) \<and>
        0 < p_writers (pipes s (nat fd)))"

definition fifo_fits :: "datagram \<Rightarrow> bool" where
  "fifo_fits d \<longleftrightarrow> dg_wf FIFO d \<and> dg_size d \<le> of_nat DATAGRAM_MAXSIZE"

lemma fifo_fits_length:
  "fifo_fits d \<Longrightarrow> length (dg_bytes FIFO d) = unat (dg_size d) \<and> unat (dg_size d) \<le> 4096 \<and>
     dg_bytes FIFO d \<noteq> []"
  using word_le_nat_alt [of "dg_size d" 4096]
  by (auto simp: fifo_fits_def dg_wf_def layout dg_bytes_def)

definition fifo_fd :: "role \<Rightarrow> fifo_session \<Rightarrow> int" where
  "fifo_fd r session = (if r = SERVER then fs_serverfd_w session else fs_serverfd_r session)"

lemma fifo_waits:
  "waits_at (fifo_ipc_receive r session) s \<longleftrightarrow>
     (let fd = (if r = SERVER then fs_serverfd_r session else fs_serverfd_w session) in
      0 \<le> fd \<and> p_buf (pipes s (nat fd)) = [] \<and> 0 < p_writers (pipes s (nat fd)))"
  by (auto simp: fifo_ipc_receive_def pipe_read_def Let_def waits_at_def Option.is_none_def)

text \<open>Each call is one step; between them the datagram is in the pipe of the sender.\<close>

definition fifo_sent :: "role \<Rightarrow> fifo_session \<Rightarrow> datagram \<Rightarrow> 'z fifo_state_scheme \<Rightarrow> 'z fifo_state_scheme" where
  "fifo_sent r session d s =
     (let i = nat (fifo_fd r session) in set_pipe i ((pipes s i)\<lparr>p_buf := dg_bytes FIFO d\<rparr>) s)"

lemma fifo_legs:
  assumes idle: "fifo_idle session s" and fits: "fifo_fits d" and other: "{r, r'} = {SERVER, CLIENT}"
  shows "waits_at q s \<Longrightarrow> solo q (fifo_ipc_send r sigpipe session d) s 0 (fifo_sent r session d s)"
    "waits_at q (fifo_sent r session d s) \<Longrightarrow> solo q (fifo_ipc_receive r' session) (fifo_sent r session d s) (Some d) s"
proof -
  let ?fd = "fifo_fd r session" let ?p = "pipes s (nat ?fd)"
  note len = fifo_fits_length [OF fits]
  have wf: "dg_wf FIFO d" and small: "\<not> of_nat DATAGRAM_MAXSIZE < dg_size d"
    using fits by (simp_all add: fifo_fits_def not_less)
  have fd: "(if r' = SERVER then fs_serverfd_r session else fs_serverfd_w session) = ?fd"
    using other by (cases r; cases r'; auto simp: fifo_fd_def doubleton_eq_iff)
  have p: "0 \<le> ?fd" "p_buf ?p = []" "0 < p_readers ?p"
    using idle by (auto simp: fifo_idle_def fifo_fd_def)
  have same: "s\<lparr>pipes := (pipes s)(nat ?fd := ?p\<lparr>p_buf := []\<rparr>)\<rparr> = s"
    using p(2) by (simp add: fun_upd_idem)
  show "solo q (fifo_ipc_send r sigpipe session d) s 0 (fifo_sent r session d s)" if "waits_at q s"
    using small len p that
    by (simp add: fifo_ipc_send_def fifo_fd_def [symmetric] pipe_write_def pseq_def Let_def PIPE_CAPACITY_def
        fifo_sent_def del: length_dg_bytes)
  show "solo q (fifo_ipc_receive r' session) (fifo_sent r session d s) (Some d) s"
    if "waits_at q (fifo_sent r session d s)"
    using len p that unfolding fifo_ipc_receive_def fd
    by (simp add: pipe_read_def Let_def set_pipe_def layout same kept_block_bytes [OF wf] fifo_sent_def
        del: length_dg_bytes)
qed

lemma fifo_receive_waits: "fifo_idle session s \<Longrightarrow> waits_at (fifo_ipc_receive r session) s"
  by (auto simp: fifo_waits fifo_idle_def Let_def)

lemma fifo_delivers:
  assumes "fifo_idle session s" "fifo_fits d" "{r, r'} = {SERVER, CLIENT}"
  shows "\<exists>s1 s2. run_proc (fifo_ipc_send r sigpipe session d) s = (Done 0, s1) \<and>
    run_proc (fifo_ipc_receive r' session) s1 = (Done (Some d), s2) \<and> fifo_idle session s2"
  using solo_runs [OF fifo_legs(1) [OF assms never_waits]] solo_runs [OF fifo_legs(2) [OF assms never_waits]] assms(1)
  by (intro exI conjI)

interpretation fifo_req: ipc_checked
    "fifo_ipc_send CLIENT sigpipe session" "fifo_ipc_receive SERVER session" "fifo_idle session" fifo_fits "\<lambda>d. d"
  for sigpipe session
  by unfold_locales (rule fifo_delivers [OF _ _ two_roles(1)], simp_all add: waits_blocked fifo_receive_waits fifo_ipc_send_def)

interpretation fifo_ans: ipc_checked
    "fifo_ipc_send SERVER sigpipe session" "fifo_ipc_receive CLIENT session" "fifo_idle session" fifo_fits "\<lambda>d. d"
  for sigpipe session
  by unfold_locales (rule fifo_delivers [OF _ _ two_roles(2)], simp_all add: waits_blocked fifo_receive_waits fifo_ipc_send_def)

interpretation fifo_link: ipc_link
    "fifo_ipc_send CLIENT csig session" "fifo_ipc_receive SERVER session"
    "fifo_ipc_send SERVER ssig session" "fifo_ipc_receive CLIENT session"
    "fifo_idle session" fifo_fits "\<lambda>d. d" fifo_fits "\<lambda>d. d"
  for csig ssig session
  by unfold_locales

section \<open>Taking turns\<close>

text \<open>When the two pipes are different ones.\<close>

definition fifo_apart :: "fifo_session \<Rightarrow> 'z fifo_state_scheme \<Rightarrow> bool" where
  "fifo_apart session s \<longleftrightarrow> fifo_idle session s \<and> fs_serverfd_r session \<noteq> fs_serverfd_w session"

lemma fifo_turn:
  assumes apart: "fifo_apart session s" and fits: "fifo_fits d" and other: "{r, r'} = {SERVER, CLIENT}"
  shows "\<exists>s1 s2. solo (fifo_ipc_receive r' session) (fifo_ipc_send r sigpipe session d) s 0 s1 \<and>
    solo (fifo_ipc_receive r session) (fifo_ipc_receive r' session) s1 (Some d) s2 \<and> fifo_apart session s2"
proof -
  have idle: "fifo_idle session s" using apart by (simp add: fifo_apart_def)
  have "waits_at (fifo_ipc_receive r session) (fifo_sent r session d s)"
    using apart other
    by (cases r; cases r'; auto simp: fifo_waits fifo_sent_def fifo_apart_def fifo_idle_def fifo_fd_def
        set_pipe_def Let_def doubleton_eq_iff)
  from fifo_legs(1) [OF idle fits other fifo_receive_waits [OF idle]] fifo_legs(2) [OF idle fits other this] apart
  show ?thesis by (intro exI conjI)
qed

interpretation fifo_turns: ipc_turns
    "fifo_ipc_send CLIENT csig session" "fifo_ipc_receive SERVER session"
    "fifo_ipc_send SERVER ssig session" "fifo_ipc_receive CLIENT session"
    "fifo_apart session" fifo_fits "\<lambda>d. d" fifo_fits "\<lambda>d. d"
  for csig ssig session
  by unfold_locales (rule fifo_turn [OF _ _ two_roles(1)] fifo_turn [OF _ _ two_roles(2)] fifo_receive_waits;
      simp add: fifo_apart_def)+

end
