(* ===== verification/Msgqueue.thy ===== *)
theory Msgqueue
  imports Turns
begin

text \<open>
  \<open>ipc/msgqueue.c\<close>: the transport over two System V message queues that all clients share; the
  type of a message is the number of the client's process.  \<open>msgsnd\<close> and \<open>msgrcv\<close> are not checked:
  after an \<open>msgrcv\<close> that failed the receiver goes on with an uninitialised buffer, which is
  undefined.  The messages are left out.
\<close>

section \<open>Message queues of the system\<close>

text \<open>A message: its type, and the datagram's bytes.\<close>

type_synonym msgbuf = "i64 \<times> bytes"

record msg_state =
  mq_ids :: "i32 \<Rightarrow> int option"
  mq_sets :: "int \<Rightarrow> msgbuf list option"
  mq_next :: int
  mq_room :: bool

definition MSGMAX :: nat where "MSGMAX = 8192"
definition MSGMNB :: nat where "MSGMNB = 16384"

definition msgget :: "i32 \<Rightarrow> bool \<Rightarrow> bool \<Rightarrow> msg_state \<Rightarrow> int \<times> msg_state" where
  "msgget key creat excl s =
     (case (if key = IPC_PRIVATE then None else mq_ids s key) of
        Some i \<Rightarrow> if creat \<and> excl then (-1, s) else (i, s)
      | None \<Rightarrow>
          if (creat \<or> key = IPC_PRIVATE) \<and> mq_room s then
            (mq_next s,
             s\<lparr>mq_ids := (if key = IPC_PRIVATE then mq_ids s else (mq_ids s)(key := Some (mq_next s))),
               mq_sets := (mq_sets s)(mq_next s := Some []), mq_next := mq_next s + 1\<rparr>)
          else (-1, s))"

definition msgsnd :: "int \<Rightarrow> i64 \<Rightarrow> bytes \<Rightarrow> msg_state \<Rightarrow> (int \<times> msg_state) option" where
  "msgsnd qid mtype bs s =
     (case mq_sets s qid of
        None \<Rightarrow> Some (-1, s)
      | Some q \<Rightarrow>
          if sint mtype < 1 \<or> MSGMAX < length bs then Some (-1, s)
          else if MSGMNB < sum_list (map (length \<circ> snd) q) + length bs then None
          else Some (0, s\<lparr>mq_sets := (mq_sets s)(qid := Some (q @ [(mtype, bs)]))\<rparr>))"

text \<open>The first message of the type, of any type when it is 0; one longer than the buffer stays.\<close>

fun take_msg :: "i64 \<Rightarrow> msgbuf list \<Rightarrow> (msgbuf \<times> msgbuf list) option" where
  "take_msg t [] = None"
| "take_msg t (m # q) =
     (if t = 0 \<or> fst m = t then Some (m, q)
      else map_option (\<lambda>(m', q'). (m', m # q')) (take_msg t q))"

definition msgrcv :: "int \<Rightarrow> nat \<Rightarrow> i64 \<Rightarrow> msg_state \<Rightarrow> (msgbuf option \<times> msg_state) option" where
  "msgrcv qid n t s =
     (case mq_sets s qid of
        None \<Rightarrow> Some (None, s)
      | Some q \<Rightarrow>
          (case take_msg t q of
             None \<Rightarrow> None
           | Some (m, q') \<Rightarrow>
               if n < length (snd m) then Some (None, s)
               else Some (Some m, s\<lparr>mq_sets := (mq_sets s)(qid := Some q')\<rparr>)))"

definition msgctl_RMID :: "int \<Rightarrow> msg_state \<Rightarrow> msg_state" where
  "msgctl_RMID qid s =
     s\<lparr>mq_ids := (\<lambda>k. if mq_ids s k = Some qid then None else mq_ids s k),
       mq_sets := (mq_sets s)(qid := None)\<rparr>"

section \<open>Sessions\<close>

record msg_session =
  ms_queueid_r :: int
  ms_queueid_w :: int
  ms_otherpid :: int

definition msgqueue_init ::
    "file_stat \<Rightarrow> msg_session \<Rightarrow> bool \<Rightarrow> bool \<Rightarrow> (msg_state, msg_session) proc" where
  "msgqueue_init st session creat excl =
     pbind (sys (\<lambda>s. Some (msgget (ftok st 0) creat excl s))) (\<lambda>r.
       if r = -1 then Halt 1
       else pbind (sys (\<lambda>s. Some (msgget (ftok st 1) creat excl s))) (\<lambda>w.
         if w = -1 then Halt 1
         else Ret (session\<lparr>ms_queueid_r := r, ms_queueid_w := w\<rparr>)))"

definition msgqueue_create :: "file_stat \<Rightarrow> msg_session \<Rightarrow> (msg_state, msg_session) proc" where
  "msgqueue_create st session = msgqueue_init st session True True"

definition msgqueue_attach :: "file_stat \<Rightarrow> msg_session \<Rightarrow> (msg_state, msg_session) proc" where
  "msgqueue_attach st session = msgqueue_init st session False False"

definition msg_ipc_newsession :: "msg_session \<Rightarrow> msg_session" where
  "msg_ipc_newsession junk = junk"

section \<open>Sending and receiving\<close>

text \<open>
  The size is not compared with \<open>DATAGRAM_MAXSIZE\<close>.  A client sends under its process number, the
  server under the number the request came with.
\<close>

definition msg_ipc_send :: "role \<Rightarrow> i32 \<Rightarrow> msg_session \<Rightarrow> datagram \<Rightarrow> (msg_state, int) proc" where
  "msg_ipc_send r pid session data =
     (if length (dg_bytes MSGQUEUE data) < unat (dg_size data) then Undef
      else pseq (sys (msgsnd (if r = SERVER then ms_queueid_w session else ms_queueid_r session)
                        (scast (if r = SERVER then dg_sender data else pid))
                        (take (unat (dg_size data)) (dg_bytes MSGQUEUE data))))
                (Ret 0))"

text \<open>
  The block is as long as the \<open>size\<close> member says; what the message did not fill of the buffer (of
  4096 bytes after the type) is what \<open>malloc\<close> left there.
\<close>

definition msg_ipc_receive ::
    "role \<Rightarrow> (nat \<Rightarrow> char) \<Rightarrow> i32 \<Rightarrow> msg_session \<Rightarrow> (msg_state, datagram option) proc" where
  "msg_ipc_receive r hp pid session =
     pbind (if r = SERVER then sys (msgrcv (ms_queueid_r session) DATAGRAM_MAXSIZE 0)
            else sys (msgrcv (ms_queueid_w session) DATAGRAM_MAXSIZE (scast pid)))
       (\<lambda>ans. case ans of
          None \<Rightarrow> Undef
        | Some (mtype, bs) \<Rightarrow>
            (let buf = bs @ map hp [length bs..<DATAGRAM_MAXSIZE]; n = unat (rd8 buf) in
             if DATAGRAM_MAXSIZE < n then Undef
             else pbind (dg_block MSGQUEUE (take n buf)) (\<lambda>datagram.
               Ret (Some (if r = SERVER then datagram\<lparr>dg_sender := ucast mtype\<rparr> else datagram)))))"

section \<open>Connecting and leaving\<close>

definition msg_ipc_listen :: "file_stat \<Rightarrow> msg_session \<Rightarrow> (msg_state, int \<times> msg_session) proc" where
  "msg_ipc_listen st session = pbind (msgqueue_create st session) (\<lambda>session. Ret (0, session))"

definition msg_ipc_accept :: "(nat \<Rightarrow> char) \<Rightarrow> i32 \<Rightarrow> msg_session \<Rightarrow> (msg_state, unit) proc" where
  "msg_ipc_accept hp pid session =
     pbind (msg_ipc_receive SERVER hp pid session) (\<lambda>datagram.
       case datagram of
         None \<Rightarrow> Undef
       | Some d \<Rightarrow> if dg_opcode d \<noteq> opc OP_CONNECT then Halt 1 else Ret ())"

definition msg_ipc_sync :: "msg_session \<Rightarrow> (msg_state, unit) proc" where
  "msg_ipc_sync session = Ret ()"

definition msg_ipc_waitsync :: "msg_session \<Rightarrow> (msg_state, unit) proc" where
  "msg_ipc_waitsync session = Ret ()"

definition msg_ipc_connect ::
    "file_stat \<Rightarrow> (nat \<Rightarrow> char) \<Rightarrow> i32 \<Rightarrow> msg_session \<Rightarrow> (msg_state, int \<times> msg_session) proc" where
  "msg_ipc_connect st hp pid session =
     pbind (msgqueue_attach st session) (\<lambda>session.
     pseq (msg_ipc_send CLIENT pid session (new_dg MSGQUEUE hp (SIZEOF_DG MSGQUEUE) OP_CONNECT))
          (Ret (0, session)))"

definition msg_ipc_disconnect :: "role \<Rightarrow> msg_session \<Rightarrow> (msg_state, unit) proc" where
  "msg_ipc_disconnect r session =
     (if r = SERVER
      then pseq (upd (msgctl_RMID (ms_queueid_r session))) (upd (msgctl_RMID (ms_queueid_w session)))
      else Ret ())"

definition msg_ipc_free :: "msg_session \<Rightarrow> (msg_state, unit) proc" where
  "msg_ipc_free session = Ret ()"

definition msg_ipc_shouldfork :: bool where "msg_ipc_shouldfork = False"

section \<open>The laws of a channel\<close>

text \<open>
  A client and the server are connected over the queues \<open>qr\<close> and \<open>qw\<close>; nothing is on its way when
  both queues are empty.
\<close>

definition msg_idle :: "msg_session \<Rightarrow> msg_state \<Rightarrow> bool" where
  "msg_idle session s \<longleftrightarrow>
     mq_sets s (ms_queueid_r session) = Some [] \<and> mq_sets s (ms_queueid_w session) = Some [] \<and>
     ms_queueid_r session \<noteq> ms_queueid_w session"

definition msg_fits :: "datagram \<Rightarrow> bool" where
  "msg_fits d \<longleftrightarrow> dg_wf MSGQUEUE d \<and> dg_size d \<le> of_nat DATAGRAM_MAXSIZE"

lemma fits_length: "msg_fits d \<Longrightarrow> length (dg_bytes MSGQUEUE d) = unat (dg_size d) \<and> unat (dg_size d) \<le> 4096"
  using word_le_nat_alt [of "dg_size d" 4096]
  by (simp add: msg_fits_def dg_wf_def layout)

lemma msg_fits_wf: "msg_fits d \<Longrightarrow> dg_wf MSGQUEUE d"
  by (simp add: msg_fits_def)

lemma scast_positive: "0 < sint (p :: i32) \<Longrightarrow> 0 < sint (scast p :: i64)"
  by (simp add: sint_up_scast is_up)

lemma ucast_scast_pid: "ucast (scast (p :: i32) :: i64) = p"
  by (rule bit_word_eqI) (simp add: bit_simps)

text \<open>Message queues: each call is one step.\<close>

lemma mq_asleep:
  assumes "mq_sets s (if r = SERVER then ms_queueid_r session else ms_queueid_w session) = Some []"
  shows "waits_at (msg_ipc_receive r hp pid session) s"
  using assms by (cases r) (simp_all add: msg_ipc_receive_def msgrcv_def)

lemma mq_req_turn:
  assumes idle: "msg_idle session s \<and> 0 < sint pid" and fits: "msg_fits d"
  shows "\<exists>s1 s2. solo (msg_ipc_receive SERVER hp srv session) (msg_ipc_send CLIENT pid session d) s 0 s1 \<and>
    solo (msg_ipc_receive CLIENT hp pid session) (msg_ipc_receive SERVER hp srv session) s1
      (Some (d\<lparr>dg_sender := pid\<rparr>)) s2 \<and> msg_idle session s2 \<and> 0 < sint pid"
proof -
  note len = fits_length [OF fits]
  let ?s1 = "s\<lparr>mq_sets := (mq_sets s)(ms_queueid_r session := Some [(scast pid, dg_bytes MSGQUEUE d)])\<rparr>"
  have w: "waits_at (msg_ipc_receive SERVER hp srv session) s" "waits_at (msg_ipc_receive CLIENT hp pid session) ?s1"
    using idle by (auto intro!: mq_asleep simp: msg_idle_def)
  have "solo (msg_ipc_receive SERVER hp srv session) (msg_ipc_send CLIENT pid session d) s 0 ?s1"
    using idle len scast_positive [of pid] w(1)
    by (simp add: msg_ipc_send_def pseq_def msgsnd_def msg_idle_def MSGMAX_def MSGMNB_def del: length_dg_bytes)
  moreover have "solo (msg_ipc_receive CLIENT hp pid session) (msg_ipc_receive SERVER hp srv session) ?s1
      (Some (d\<lparr>dg_sender := pid\<rparr>)) s"
    using idle len w(2) unfolding msg_ipc_receive_def [of SERVER]
    by (simp add: dg_block_bytes msg_fits_wf [OF fits] msgrcv_def msg_idle_def Let_def fun_upd_idem
        ucast_scast_pid layout del: length_dg_bytes)
  ultimately show ?thesis using conjunct1 [OF idle] conjunct2 [OF idle] by (intro exI conjI)
qed

lemma mq_ans_turn:
  assumes idle: "msg_idle session s \<and> 0 < sint pid" and fits: "msg_fits d \<and> dg_sender d = pid"
  shows "\<exists>s1 s2. solo (msg_ipc_receive CLIENT hp pid session) (msg_ipc_send SERVER srv session d) s 0 s1 \<and>
    solo (msg_ipc_receive SERVER hp srv session) (msg_ipc_receive CLIENT hp pid session) s1 (Some d) s2 \<and>
    msg_idle session s2 \<and> 0 < sint pid"
proof -
  note len = fits_length [OF conjunct1 [OF fits]]
  let ?s1 = "s\<lparr>mq_sets := (mq_sets s)(ms_queueid_w session := Some [(scast pid, dg_bytes MSGQUEUE d)])\<rparr>"
  have w: "waits_at (msg_ipc_receive CLIENT hp pid session) s" "waits_at (msg_ipc_receive SERVER hp srv session) ?s1"
    using idle by (auto intro!: mq_asleep simp: msg_idle_def)
  have "solo (msg_ipc_receive CLIENT hp pid session) (msg_ipc_send SERVER srv session d) s 0 ?s1"
    using idle len fits scast_positive [of pid] w(1)
    by (simp add: msg_ipc_send_def pseq_def msgsnd_def msg_idle_def MSGMAX_def MSGMNB_def del: length_dg_bytes)
  moreover have "solo (msg_ipc_receive SERVER hp srv session) (msg_ipc_receive CLIENT hp pid session) ?s1 (Some d) s"
    using idle len w(2) unfolding msg_ipc_receive_def [of CLIENT]
    by (simp add: dg_block_bytes msg_fits_wf [OF conjunct1 [OF fits]] msgrcv_def msg_idle_def Let_def fun_upd_idem
        layout del: length_dg_bytes)
  ultimately show ?thesis using conjunct1 [OF idle] conjunct2 [OF idle] by (intro exI conjI)
qed

interpretation mq_turns: ipc_turns
    "msg_ipc_send CLIENT pid session" "msg_ipc_receive SERVER hp srv session"
    "msg_ipc_send SERVER srv session" "msg_ipc_receive CLIENT hp pid session"
    "\<lambda>s. msg_idle session s \<and> 0 < sint pid" msg_fits "\<lambda>d. d\<lparr>dg_sender := pid\<rparr>"
    "\<lambda>d. msg_fits d \<and> dg_sender d = pid" "\<lambda>d. d"
  for pid :: i32 and session hp srv
  by unfold_locales ((rule mq_req_turn mq_ans_turn; assumption)+,
      auto intro!: mq_asleep simp: msg_idle_def)

end
