(* ===== verification/Socket.thy ===== *)
theory Socket
  imports Ipc
begin

text \<open>
  \<open>ipc/socket.c\<close>: the transport over TCP.  A connection has two streams of bytes; bytes written
  travel in pieces: those of a stream that have arrived can be received, the others are still on
  their way (\<open>deliver\<close> is the network's step), and the buffers of the system are large enough for what
  is written.  The results of \<open>bind\<close>, \<open>listen\<close>, \<open>accept\<close> and of \<open>write\<close> are not looked at.
  Addresses are texts: that of the program's argument and the one \<open>inet_ntoa\<close> gives.  The messages
  are left out.
\<close>

section \<open>Connections of the system\<close>

record stream =
  st_arrived :: bytes
  st_flying :: bytes
  st_closed :: bool       \<comment> \<open>the writer has closed its end\<close>

record conn =
  c_up :: stream          \<comment> \<open>client to server\<close>
  c_down :: stream        \<comment> \<open>server to client\<close>
  c_refs :: nat           \<comment> \<open>processes of the server that have it open\<close>
  c_addr :: string        \<comment> \<open>where the client is\<close>
  c_reset :: bool         \<comment> \<open>reset by the other side, or never connected\<close>

record sock_state =
  ports :: "int \<Rightarrow> (nat list) option"   \<comment> \<open>port to the connections waiting to be accepted\<close>
  conns :: "nat \<Rightarrow> conn"
  conn_next :: nat
  sock_room :: bool                 \<comment> \<open>\<open>socket\<close> has a descriptor to give\<close>
  port_denied :: "int \<Rightarrow> bool"       \<comment> \<open>ports the server may not be bound to\<close>
  port_auto :: "(int \<Rightarrow> (nat list) option) \<Rightarrow> int"
    \<comment> \<open>the port of a socket that listens without having been bound to one\<close>
  sock_reaches :: "string \<Rightarrow> bool"   \<comment> \<open>addresses of the server's host\<close>
  sock_host :: string               \<comment> \<open>address of the client's host\<close>

definition SOCKET_BACKLOG :: nat where "SOCKET_BACKLOG = 10"

definition new_stream :: stream where
  "new_stream = \<lparr>st_arrived = [], st_flying = [], st_closed = False\<rparr>"

definition up_of :: "role \<Rightarrow> conn \<Rightarrow> stream" where
  "up_of r c = (if r = CLIENT then c_up c else c_down c)"

definition set_up :: "role \<Rightarrow> stream \<Rightarrow> conn \<Rightarrow> conn" where
  "set_up r t c = (if r = CLIENT then c\<lparr>c_up := t\<rparr> else c\<lparr>c_down := t\<rparr>)"

definition other_role :: "role \<Rightarrow> role" where
  "other_role r = (if r = CLIENT then SERVER else CLIENT)"

definition set_conn :: "nat \<Rightarrow> conn \<Rightarrow> sock_state \<Rightarrow> sock_state" where
  "set_conn i c s = s\<lparr>conns := (conns s)(i := c)\<rparr>"

text \<open>
  \<open>write\<close> on a socket, \<open>recv\<close> of at most \<open>n\<close> bytes (\<open>None\<close> is the error), \<open>close\<close>.  Connections are
  numbered from 1: -1 is no descriptor, and 0, which \<open>ipc_disconnect\<close> leaves in the session, is the
  standard input and no socket.  When the other side has closed the connection, its system answers the
  next bytes with a reset; to write after that, or on a socket that is not connected, raises SIGPIPE,
  for which neither program has a handler in this build: it ends the process.
\<close>

definition sock_write :: "role \<Rightarrow> int \<Rightarrow> bytes \<Rightarrow> (sock_state, int) proc" where
  "sock_write r fd bs =
     (if fd \<le> 0 then Ret (-1)
      else Act (\<lambda>s. let c = conns s (nat fd); t = up_of r c in
             if c_reset c then Some (s, Halt 141)
             else if st_closed (up_of (other_role r) c) then
               Some (set_conn (nat fd) (c\<lparr>c_reset := True\<rparr>) s, Ret (int (length bs)))
             else Some (set_conn (nat fd) (set_up r (t\<lparr>st_flying := st_flying t @ bs\<rparr>) c) s,
                        Ret (int (length bs)))))"

definition sock_recv :: "role \<Rightarrow> int \<Rightarrow> nat \<Rightarrow> (sock_state, bytes option) proc" where
  "sock_recv r fd n =
     (if fd \<le> 0 then Ret None
      else sys (\<lambda>s. let c = conns s (nat fd); t = up_of (other_role r) c in
             if st_arrived t \<noteq> [] then
               Some (Some (take n (st_arrived t)),
                     set_conn (nat fd) (set_up (other_role r) (t\<lparr>st_arrived := drop n (st_arrived t)\<rparr>) c) s)
             else if c_reset c then Some (None, s)
             else if st_closed t \<and> st_flying t = [] then Some (Some [], s)
             else None))"

definition sock_close :: "role \<Rightarrow> int \<Rightarrow> sock_state \<Rightarrow> sock_state" where
  "sock_close r fd s =
     (if fd \<le> 0 then s
      else let c = conns s (nat fd); t = up_of r c
           in if r = SERVER \<and> 1 < c_refs c then set_conn (nat fd) (c\<lparr>c_refs := c_refs c - 1\<rparr>) s
              else set_conn (nat fd) (set_up r (t\<lparr>st_closed := True\<rparr>) c) s)"

text \<open>\<open>fork\<close> gives the child its own copy of the descriptor.\<close>

definition sock_fork :: "int \<Rightarrow> sock_state \<Rightarrow> sock_state" where
  "sock_fork fd s =
     (if fd \<le> 0 then s
      else let c = conns s (nat fd) in set_conn (nat fd) (c\<lparr>c_refs := c_refs c + 1\<rparr>) s)"

text \<open>The network moves the first \<open>k\<close> bytes on their way.\<close>

definition deliver :: "role \<Rightarrow> nat \<Rightarrow> nat \<Rightarrow> sock_state \<Rightarrow> sock_state" where
  "deliver r fd k s =
     (let c = conns s fd; t = up_of r c
      in set_conn fd (set_up r (t\<lparr>st_arrived := st_arrived t @ take k (st_flying t),
                                  st_flying := drop k (st_flying t)\<rparr>) c) s)"

definition network :: "role \<Rightarrow> nat \<Rightarrow> nat list \<Rightarrow> sock_state \<Rightarrow> sock_state" where
  "network r fd ks s = fold (deliver r fd) ks s"

section \<open>Sessions\<close>

text \<open>A descriptor of a connection is its number.\<close>

record sock_session =
  so_serverfd :: int      \<comment> \<open>the port it listens on, or -1\<close>
  so_otherfd :: int
  so_cli_addr :: string
  so_client_ip :: string

definition sock_ipc_newsession :: "sock_session \<Rightarrow> sock_session" where
  "sock_ipc_newsession junk = junk"

definition sock_ipc_send :: "role \<Rightarrow> sock_session \<Rightarrow> datagram \<Rightarrow> (sock_state, int) proc" where
  "sock_ipc_send r session data =
     (if length (dg_bytes SOCKET data) < unat (dg_size data) then Undef
      else pseq (sock_write r (so_otherfd session) (take (unat (dg_size data)) (dg_bytes SOCKET data)))
                (Ret 0))"

definition sock_ipc_receive :: "role \<Rightarrow> sock_session \<Rightarrow> (sock_state, datagram option) proc" where
  "sock_ipc_receive r session =
     pbind (sock_recv r (so_otherfd session) DATAGRAM_MAXSIZE) (\<lambda>data.
       case data of
         None \<Rightarrow> Halt 1
       | Some data \<Rightarrow> if data = [] then Ret None else kept_block SOCKET data)"

definition sock_ipc_disconnect :: "role \<Rightarrow> sock_session \<Rightarrow> (sock_state, sock_session) proc" where
  "sock_ipc_disconnect r session =
     pseq (upd (sock_close r (so_otherfd session))) (Ret (session\<lparr>so_otherfd := 0\<rparr>))"

definition sock_ipc_free :: "sock_session \<Rightarrow> (sock_state, unit) proc" where
  "sock_ipc_free session = Ret ()"

section \<open>The server's side\<close>

text \<open>\<open>htons\<close> takes the low 16 bits of a number.\<close>

definition port_arg :: "string \<Rightarrow> int" where
  "port_arg text = uint (ucast (atoi text) :: 16 word)"

text \<open>
  \<open>bind\<close> fails on a port that is taken or denied, and to be bound to the port 0 is to be bound to none:
  \<open>listen\<close> then chooses a free one.
\<close>

definition sock_bind :: "int \<Rightarrow> sock_state \<Rightarrow> int" where
  "sock_bind port s =
     (if port = 0 \<or> port_denied s port \<or> ports s port \<noteq> None then port_auto s (ports s) else port)"

definition sock_ipc_listen ::
    "string list \<Rightarrow> sock_session \<Rightarrow> (sock_state, int \<times> sock_session) proc" where
  "sock_ipc_listen args session =
     (if length args \<noteq> 1 then Ret (-1, session)
      else let port = port_arg (args ! 0) in
        sys (\<lambda>s. Some (if sock_room s
          then ((0, session\<lparr>so_serverfd := sock_bind port s\<rparr>), s\<lparr>ports := (ports s)(sock_bind port s := Some [])\<rparr>)
          else ((0, session\<lparr>so_serverfd := -1\<rparr>), s))))"

text \<open>\<open>accept\<close> fails at once on a socket that does not listen, and waits for a connection otherwise.\<close>

definition sock_ipc_accept :: "sock_session \<Rightarrow> (sock_state, sock_session) proc" where
  "sock_ipc_accept session =
     sys (\<lambda>s. case ports s (so_serverfd session) of
         None \<Rightarrow> Some (session\<lparr>so_otherfd := -1\<rparr>, s)
       | Some [] \<Rightarrow> None
       | Some (i # is) \<Rightarrow> Some (session\<lparr>so_otherfd := int i, so_cli_addr := c_addr (conns s i)\<rparr>,
            s\<lparr>ports := (ports s)(so_serverfd session := Some is)\<rparr>))"

definition sock_ipc_sync :: "sock_session \<Rightarrow> (sock_state, sock_session) proc" where
  "sock_ipc_sync session = Ret (session\<lparr>so_client_ip := so_cli_addr session\<rparr>)"

text \<open>The parent closes its copy of the connection.\<close>

definition sock_ipc_waitsync :: "sock_session \<Rightarrow> (sock_state, sock_session) proc" where
  "sock_ipc_waitsync session = sock_ipc_disconnect SERVER session"

section \<open>The client's side\<close>

definition new_conn :: "string \<Rightarrow> bool \<Rightarrow> conn" where
  "new_conn addr reset =
     \<lparr>c_up = new_stream, c_down = new_stream, c_refs = 1, c_addr = addr, c_reset = reset\<rparr>"

text \<open>
  \<open>connect\<close>: refused when the address is another host's, when nobody listens on the port or when its
  queue is full; the socket stays, without a connection.  Without a socket \<open>connect\<close> fails as well.
\<close>

definition sock_ipc_connect ::
    "string list \<Rightarrow> sock_session \<Rightarrow> (sock_state, int \<times> sock_session) proc" where
  "sock_ipc_connect args session =
     (if length args \<noteq> 2 then Ret (-1, session)
      else let port = port_arg (args ! 1) in
        sys (\<lambda>s.
          if \<not> sock_room s then Some ((1, session\<lparr>so_otherfd := -1\<rparr>), s)
          else
            let i = conn_next s; session = session\<lparr>so_otherfd := int i\<rparr>;
                s = s\<lparr>conn_next := i + 1, conns := (conns s)(i := new_conn (sock_host s) True)\<rparr>
            in Some (case ports s port of
                None \<Rightarrow> ((1, session), s)
              | Some q \<Rightarrow>
                  if \<not> sock_reaches s (args ! 0) \<or> SOCKET_BACKLOG \<le> length q then ((1, session), s)
                  else ((0, session),
                        s\<lparr>ports := (ports s)(port := Some (q @ [i])),
                          conns := (conns s)(i := new_conn (sock_host s) False)\<rparr>))))"

definition sock_ipc_shouldfork :: bool where "sock_ipc_shouldfork = True"

section \<open>The laws of a channel\<close>

definition sock_idle :: "sock_session \<Rightarrow> sock_state \<Rightarrow> bool" where
  "sock_idle session s \<longleftrightarrow>
     0 < so_otherfd session \<and> \<not> c_reset (conns s (nat (so_otherfd session))) \<and>
     (\<forall>r. up_of r (conns s (nat (so_otherfd session))) = new_stream)"

definition sock_fits :: "datagram \<Rightarrow> bool" where
  "sock_fits d \<longleftrightarrow> dg_wf SOCKET d \<and> dg_size d \<le> of_nat DATAGRAM_MAXSIZE"

lemma sock_fits_length:
  "sock_fits d \<Longrightarrow> length (dg_bytes SOCKET d) = unat (dg_size d) \<and> unat (dg_size d) \<le> 4096 \<and>
     dg_bytes SOCKET d \<noteq> []"
  using word_le_nat_alt [of "dg_size d" 4096]
  by (auto simp: sock_fits_def dg_wf_def layout dg_bytes_def)

text \<open>
  The code takes what one \<open>recv\<close> returns for the whole message, so it needs all of it to have
  arrived: \<open>arrived\<close> is the reception after the network delivered every byte, in whatever pieces.
\<close>

definition whole :: "role \<Rightarrow> nat \<Rightarrow> sock_state \<Rightarrow> sock_state" where
  "whole r fd s = deliver r fd (length (st_flying (up_of r (conns s fd)))) s"

definition receive_whole :: "role \<Rightarrow> sock_session \<Rightarrow> (sock_state, datagram option) proc" where
  "receive_whole r session =
     pseq (upd (whole (other_role r) (nat (so_otherfd session)))) (sock_ipc_receive r session)"

lemma up_of_simps [simp]:
  "up_of r (set_up r t c) = t" "r \<noteq> r' \<Longrightarrow> up_of r (set_up r' t c) = up_of r c"
  "set_up r t (set_up r t' c) = set_up r t c" "set_up r (up_of r c) c = c"
  by (cases r; cases r'; simp add: up_of_def set_up_def)+

lemma c_reset_set_up [simp]: "c_reset (set_up r t c) = c_reset c"
  by (simp add: set_up_def)

lemma conns_set [simp]: "conns (set_conn i c s) = (conns s)(i := c)"
  "set_conn i c (set_conn i c' s) = set_conn i c s" "set_conn i (conns s i) s = s"
  by (simp_all add: set_conn_def)

lemma other_role_simps [simp]: "other_role (other_role r) = r" "other_role r \<noteq> r" "r \<noteq> other_role r"
  "other_role SERVER = CLIENT" "other_role CLIENT = SERVER"
  by (cases r; simp add: other_role_def)+

lemma new_stream_simps [simp]: "st_arrived new_stream = []" "st_flying new_stream = []"
  "\<not> st_closed new_stream"
  by (simp_all add: new_stream_def)

lemma sock_send_receive:
  assumes idle: "sock_idle session s" and fits: "sock_fits d"
  shows "\<exists>s1. run_proc (sock_ipc_send r session d) s = (Done 0, s1) \<and>
    run_proc (receive_whole (other_role r) session) s1 = (Done (Some d), s)"
proof -
  let ?i = "nat (so_otherfd session)" let ?c = "conns s ?i"
  note len = sock_fits_length [OF fits]
  have wf: "dg_wf SOCKET d" using fits by (simp add: sock_fits_def)
  have i: "0 < so_otherfd session" "up_of r ?c = new_stream" "up_of (other_role r) ?c = new_stream" "\<not> c_reset ?c"
    using idle by (simp_all add: sock_idle_def)
  let ?s1 = "set_conn ?i (set_up r (new_stream\<lparr>st_flying := dg_bytes SOCKET d\<rparr>) ?c) s"
  have "run_proc (sock_ipc_send r session d) s = (Done 0, ?s1)"
    using len i by (simp add: sock_ipc_send_def pseq_def sock_write_def Let_def del: length_dg_bytes)
  moreover have "run_proc (receive_whole (other_role r) session) ?s1 = (Done (Some d), s)"
  proof -
    have e: "new_stream\<lparr>st_flying := [], st_arrived := []\<rparr> = new_stream"
      "new_stream\<lparr>st_arrived := [], st_flying := []\<rparr> = new_stream" by (simp_all add: new_stream_def)
    have same: "set_conn ?i (set_up r new_stream ?c) s = s" unfolding i(2) [symmetric] by simp
    show ?thesis
      using len i(1,4)
      by (simp add: receive_whole_def pseq_def upd_def whole_def deliver_def sock_ipc_receive_def sock_recv_def
          Let_def layout kept_block_bytes [OF wf] e same del: length_dg_bytes)
  qed
  ultimately show ?thesis by blast
qed

lemma sock_receive_waits:
  assumes "sock_idle session s"
  shows "fst (run_proc (receive_whole r session) s) = Blocked"
  using assms
  by (simp add: receive_whole_def pseq_def upd_def whole_def deliver_def sock_ipc_receive_def sock_recv_def
      sock_idle_def Let_def)

interpretation sock_req: ipc_channel
    "sock_ipc_send CLIENT session" "receive_whole SERVER session" "sock_idle session" sock_fits "\<lambda>d. d"
  for session
  using sock_send_receive [of session _ _ CLIENT]
  by unfold_locales (fastforce, simp add: sock_receive_waits)

interpretation sock_ans: ipc_channel
    "sock_ipc_send SERVER session" "receive_whole CLIENT session" "sock_idle session" sock_fits "\<lambda>d. d"
  for session
  using sock_send_receive [of session _ _ SERVER]
  by unfold_locales (fastforce, simp add: sock_receive_waits)

interpretation sock_link: ipc_link
    "sock_ipc_send CLIENT session" "receive_whole SERVER session"
    "sock_ipc_send SERVER session" "receive_whole CLIENT session"
    "sock_idle session" sock_fits "\<lambda>d. d" sock_fits "\<lambda>d. d"
  for session
  by unfold_locales

end
