(* ===== verification/Files.thy ===== *)
theory Files
  imports Ipc
begin

text \<open>
  \<open>ipc/files.c\<close>: the transport over ordinary files, one public and one for each client, with the
  signal SIGUSR1 to say that a datagram was written.  An open file description is a number, shared
  by a process and the child it forked; a signal wakes a process that is in \<open>sigsuspend\<close> and is
  spent on the empty handler otherwise.  The messages are left out.
\<close>

section \<open>Files and signals of the system\<close>

record files_state = sem_state +
  file_names :: "string \<Rightarrow> nat option"
  file_bytes :: "nat \<Rightarrow> bytes"
  file_next :: nat
  file_room :: bool
  descs :: "nat \<Rightarrow> (nat \<times> nat) option"    \<comment> \<open>open descriptions: file and offset\<close>
  desc_refs :: "nat \<Rightarrow> nat"                 \<comment> \<open>processes that have it open\<close>
  desc_next :: nat
  waiting :: "int \<Rightarrow> bool"                  \<comment> \<open>in \<open>sigsuspend\<close>\<close>
  woken :: "int \<Rightarrow> bool"

definition files_exists :: "string \<Rightarrow> 'z files_state_scheme \<Rightarrow> bool" where
  "files_exists path s = (file_names s path \<noteq> None)"

definition new_desc :: "nat \<Rightarrow> 'z files_state_scheme \<Rightarrow> int \<times> 'z files_state_scheme" where
  "new_desc i s =
     (int (desc_next s),
      s\<lparr>descs := (descs s)(desc_next s := Some (i, 0)), desc_refs := (desc_refs s)(desc_next s := 1),
        desc_next := desc_next s + 1\<rparr>)"

definition open_rdwr :: "string \<Rightarrow> bool \<Rightarrow> 'z files_state_scheme \<Rightarrow> int \<times> 'z files_state_scheme" where
  "open_rdwr path creat s =
     (case file_names s path of
        Some i \<Rightarrow> new_desc i s
      | None \<Rightarrow>
          if creat \<and> file_room s then
            new_desc (file_next s)
              (s\<lparr>file_names := (file_names s)(path := Some (file_next s)),
                 file_bytes := (file_bytes s)(file_next s := []), file_next := file_next s + 1\<rparr>)
          else (-1, s))"

definition desc_of :: "int \<Rightarrow> 'z files_state_scheme \<Rightarrow> (nat \<times> nat) option" where
  "desc_of fd s = (if fd < 0 then None else descs s (nat fd))"

definition files_close :: "int \<Rightarrow> 'z files_state_scheme \<Rightarrow> 'z files_state_scheme" where
  "files_close fd s =
     (if fd < 0 then s
      else s\<lparr>descs := (if desc_refs s (nat fd) \<le> 1 then (descs s)(nat fd := None) else descs s),
             desc_refs := (desc_refs s)(nat fd := desc_refs s (nat fd) - 1)\<rparr>)"

text \<open>\<open>fork\<close>: the child has the description open as well.\<close>

definition files_fork :: "int \<Rightarrow> 'z files_state_scheme \<Rightarrow> 'z files_state_scheme" where
  "files_fork fd s = (if fd < 0 then s else s\<lparr>desc_refs := (desc_refs s)(nat fd := desc_refs s (nat fd) + 1)\<rparr>)"

definition files_unlink :: "string \<Rightarrow> 'z files_state_scheme \<Rightarrow> 'z files_state_scheme" where
  "files_unlink path s = s\<lparr>file_names := (file_names s)(path := None)\<rparr>"

definition rewind :: "int \<Rightarrow> 'z files_state_scheme \<Rightarrow> 'z files_state_scheme" where
  "rewind fd s =
     (case desc_of fd s of
        None \<Rightarrow> s
      | Some (i, off) \<Rightarrow> s\<lparr>descs := (descs s)(nat fd := Some (i, 0))\<rparr>)"

text \<open>\<open>write\<close> at the offset, leaving what the file has behind; \<open>read\<close> of at most \<open>n\<close> bytes.\<close>

definition overwrite :: "nat \<Rightarrow> bytes \<Rightarrow> bytes \<Rightarrow> bytes" where
  "overwrite off bs b =
     take off b @ replicate (off - length b) NUL @ bs @ drop (off + length bs) b"

definition file_write :: "int \<Rightarrow> bytes \<Rightarrow> 'z files_state_scheme \<Rightarrow> int \<times> 'z files_state_scheme" where
  "file_write fd bs s =
     (case desc_of fd s of
        None \<Rightarrow> (-1, s)
      | Some (i, off) \<Rightarrow>
          (int (length bs),
           s\<lparr>file_bytes := (file_bytes s)(i := overwrite off bs (file_bytes s i)),
             descs := (descs s)(nat fd := Some (i, off + length bs))\<rparr>))"

definition file_read :: "int \<Rightarrow> nat \<Rightarrow> 'z files_state_scheme \<Rightarrow> bytes option \<times> 'z files_state_scheme" where
  "file_read fd n s =
     (case desc_of fd s of
        None \<Rightarrow> (None, s)
      | Some (i, off) \<Rightarrow>
          (let bs = take n (drop off (file_bytes s i))
           in (Some bs, s\<lparr>descs := (descs s)(nat fd := Some (i, off + length bs))\<rparr>)))"

text \<open>The handler of SIGUSR1 only prints; without it the signal would end the process.\<close>

definition sigusr_handler :: "'z files_state_scheme \<Rightarrow> 'z files_state_scheme" where
  "sigusr_handler s = s"

definition kill_usr1 :: "int \<Rightarrow> 'z files_state_scheme \<Rightarrow> 'z files_state_scheme" where
  "kill_usr1 pid s = (if waiting s pid then s\<lparr>woken := (woken s)(pid := True)\<rparr> else sigusr_handler s)"

definition sigsuspend :: "int \<Rightarrow> ('z files_state_scheme, unit) proc" where
  "sigsuspend pid =
     pseq (upd (\<lambda>s. s\<lparr>waiting := (waiting s)(pid := True), woken := (woken s)(pid := False)\<rparr>))
          (sys (\<lambda>s. if woken s pid
                    then Some ((), s\<lparr>waiting := (waiting s)(pid := False), woken := (woken s)(pid := False)\<rparr>)
                    else None))"

section \<open>Sessions\<close>

record files_session =
  fi_path :: string
  fi_serverfd :: int
  fi_otherpid :: int
  fi_queueid :: int

definition files_ipc_newsession :: "files_session \<Rightarrow> files_session" where
  "files_ipc_newsession junk = junk"

text \<open>\<open>build_path\<close>: a copy of the path in a block of its own.\<close>

definition files_build_path :: "string \<Rightarrow> string" where
  "files_build_path path = path"

definition files_file_exist :: "string \<Rightarrow> ('z files_state_scheme, bool) proc" where
  "files_file_exist path = sys (\<lambda>s. Some (files_exists path s, s))"

section \<open>Sending and receiving\<close>

definition files_ipc_send :: "files_session \<Rightarrow> datagram \<Rightarrow> ('z files_state_scheme, int) proc" where
  "files_ipc_send session data =
     (if of_nat DATAGRAM_MAXSIZE < dg_size data then Ret (-1)
      else if length (dg_bytes FILES data) < unat (dg_size data) then Undef
      else
        pseq (upd (rewind (fi_serverfd session)))
       (pseq (upd (\<lambda>s. snd (file_write (fi_serverfd session)
                (take (unat (dg_size data)) (dg_bytes FILES data)) s)))
       (pseq (upd (kill_usr1 (fi_otherpid session)))
             (Ret 0))))"

definition files_read_datagram :: "files_session \<Rightarrow> ('z files_state_scheme, datagram option) proc" where
  "files_read_datagram session =
     pseq (upd (rewind (fi_serverfd session)))
    (pbind (sys (\<lambda>s. Some (file_read (fi_serverfd session) DATAGRAM_MAXSIZE s))) (\<lambda>data.
       case data of None \<Rightarrow> Ret None | Some data \<Rightarrow> kept_block FILES data))"

definition files_ipc_receive :: "int \<Rightarrow> files_session \<Rightarrow> ('z files_state_scheme, datagram option) proc" where
  "files_ipc_receive pid session = pseq (sigsuspend pid) (files_read_datagram session)"

definition files_ipc_disconnect :: "role \<Rightarrow> files_session \<Rightarrow> ('z files_state_scheme, unit) proc" where
  "files_ipc_disconnect r session =
     pseq (upd (files_close (fi_serverfd session)))
          (if r = SERVER then upd (files_unlink (fi_path session)) else Ret ())"

definition files_ipc_free :: "role \<Rightarrow> files_session \<Rightarrow> ('z files_state_scheme, unit) proc" where
  "files_ipc_free r session = (if r = SERVER then sem_queue_destroy (fi_queueid session) else Ret ())"

definition files_expect_connect ::
    "files_session \<Rightarrow> datagram option \<Rightarrow> (datagram \<Rightarrow> ('z files_state_scheme, 'a) proc) \<Rightarrow>
     ('z files_state_scheme, 'a) proc" where
  "files_expect_connect session datagram k =
     (case datagram of
        None \<Rightarrow> Undef
      | Some d \<Rightarrow>
          if dg_opcode d \<noteq> opc OP_CONNECT
          then pseq (files_ipc_disconnect SERVER session) (pseq (files_ipc_free SERVER session) (Halt 1))
          else k d)"

section \<open>The server's side\<close>

definition files_ipc_listen ::
    "file_stat \<Rightarrow> files_session \<Rightarrow> ('z files_state_scheme, int \<times> files_session) proc" where
  "files_ipc_listen st session =
     pbind (sem_queue_init st 1) (\<lambda>queueid.
     let session = session\<lparr>fi_queueid := queueid\<rparr> in
     pseq (sem_set queueid SEM_QUEUE 0)
    (pbind (files_file_exist FILES_INITIAL_PATH) (\<lambda>e.
       if e then Ret (-1, session)
       else
         let session = session\<lparr>fi_path := files_build_path FILES_INITIAL_PATH\<rparr> in
         pbind (sys (\<lambda>s. Some (open_rdwr FILES_INITIAL_PATH True s))) (\<lambda>fd.
         let session = session\<lparr>fi_serverfd := fd\<rparr> in
         if fd = -1 then Ret (-1, session) else Ret (0, session)))))"

text \<open>The number of the process is written into \<open>char pid[10]\<close> and from there to the file.\<close>

definition files_ipc_accept :: "i32 \<Rightarrow> files_session \<Rightarrow> ('z files_state_scheme, files_session) proc" where
  "files_ipc_accept getpid session =
     (case sprintf 10 ''%d'' [AInt getpid] of
        None \<Rightarrow> Undef
      | Some pid \<Rightarrow>
          pseq (upd (rewind (fi_serverfd session)))
         (pseq (upd (\<lambda>s. snd (file_write (fi_serverfd session) pid s)))
         (pbind (files_ipc_receive (sint getpid) session) (\<lambda>datagram.
            files_expect_connect session datagram (\<lambda>d.
              Ret (session\<lparr>fi_otherpid := sint (dg_pid d)\<rparr>))))))"

definition files_ipc_sync ::
    "(nat \<Rightarrow> char) \<Rightarrow> 16 word \<Rightarrow> nat \<Rightarrow> i32 \<Rightarrow> i32 \<Rightarrow> files_session \<Rightarrow>
     ('z files_state_scheme, files_session) proc" where
  "files_ipc_sync hp flg pid getpid cli_count session =
     pbind (path_buf ''%s-%d'' [AStr FILES_INITIAL_PATH, AInt cli_count]) (\<lambda>newpath.
     pbind (sys (\<lambda>s. Some (open_rdwr newpath True s))) (\<lambda>newfd.
     if newfd = -1 then Halt 1
     else
       let size = SIZEOF_DG FILES + length newpath + 1 in
       (case put_cmd newpath (malloc_dg FILES hp size) of
          None \<Rightarrow> Undef
        | Some datagram \<Rightarrow>
            pseq (files_ipc_send session (datagram\<lparr>dg_size := of_nat size, dg_data := getpid\<rparr>))
           (pseq (upd (files_close (fi_serverfd session)))
           (let session = session\<lparr>fi_serverfd := newfd, fi_path := files_build_path newpath\<rparr> in
            pseq (sem_up flg pid (fi_queueid session) SEM_QUEUE)
           (pbind (files_ipc_receive (sint getpid) session) (\<lambda>datagram.
              files_expect_connect session datagram (\<lambda>d. Ret session))))))))"

definition files_ipc_waitsync :: "nat \<Rightarrow> files_session \<Rightarrow> ('z files_state_scheme, unit) proc" where
  "files_ipc_waitsync pid session = sem_down pid (fi_queueid session) SEM_QUEUE"

section \<open>The client's side\<close>

text \<open>
  Ten bytes of the public file are read into \<open>char pid[10]\<close>, which is not terminated: \<open>atoi\<close> reads on
  when none of them ends the number (\<open>stk\<close> is what the stack holds behind them, and in the array
  when the file has less than ten bytes).
\<close>

definition read_pid :: "bytes \<Rightarrow> string \<Rightarrow> int" where
  "read_pid stk bs = sint (atoi (case cstr (bs @ drop (length bs) stk) of
     None \<Rightarrow> bs @ drop (length bs) stk | Some t \<Rightarrow> t))"

definition files_ipc_connect ::
    "(nat \<Rightarrow> char) \<Rightarrow> bytes \<Rightarrow> i32 \<Rightarrow> files_session \<Rightarrow> ('z files_state_scheme, int \<times> files_session) proc" where
  "files_ipc_connect hp stk getpid session =
     pbind (files_file_exist FILES_INITIAL_PATH) (\<lambda>e. if \<not> e then Halt 1 else
     pbind (sys (\<lambda>s. Some (open_rdwr FILES_INITIAL_PATH False s))) (\<lambda>fd.
     let session = session\<lparr>fi_serverfd := fd, fi_path := files_build_path FILES_INITIAL_PATH\<rparr> in
     if fd = -1 then Ret (-1, session) else
     pbind (sys (\<lambda>s. Some (file_read (fi_serverfd session) 10 s))) (\<lambda>pid.
     let session = session\<lparr>fi_otherpid := read_pid stk (case pid of None \<Rightarrow> [] | Some b \<Rightarrow> b)\<rparr> in
     pseq (files_ipc_send session
             ((new_dg FILES hp (SIZEOF_DG FILES) OP_CONNECT)\<lparr>dg_data := getpid\<rparr>))
    (pbind (files_ipc_receive (sint getpid) session) (\<lambda>datagram.
       case datagram of
         None \<Rightarrow> Undef
       | Some d \<Rightarrow>
          let session = session\<lparr>fi_otherpid := sint (dg_pid d)\<rparr> in
          pseq (upd (files_close (fi_serverfd session)))
         (case dg_cmd d of
            None \<Rightarrow> Undef
          | Some path \<Rightarrow>
              let session = session\<lparr>fi_path := files_build_path path\<rparr> in
              pbind (sys (\<lambda>s. Some (open_rdwr path False s))) (\<lambda>fd.
              let session = session\<lparr>fi_serverfd := fd\<rparr> in
              pseq (files_ipc_send session
                      \<lparr>dg_size = of_nat (SIZEOF_DG FILES), dg_opcode = opc OP_CONNECT, dg_sender = 0,
                       dg_data = 0, dg_raw = replicate (SIZEOF_DG FILES - HDR FILES) NUL\<rparr>)
                   (Ret (0, session)))))))))"

definition files_ipc_shouldfork :: bool where "files_ipc_shouldfork = True"

end
