(* ===== verification/FilesLaws.thy ===== *)
theory FilesLaws
  imports Files
begin

text \<open>
  Laws of the transport over files.  A file is never truncated, so what a receiver reads is the
  datagram followed by what longer ones left behind; and a signal sent before the receiver waits for
  it is lost.  So this transport is no channel of \<open>Ipc\<close>; the lemmas below say what it does.
\<close>

section \<open>Waiting for the signal\<close>

text \<open>\<open>ipc_receive\<close> from the moment the process is in \<open>sigsuspend\<close>.\<close>

definition woken_receive :: "int \<Rightarrow> files_session \<Rightarrow> ('z files_state_scheme, datagram option) proc" where
  "woken_receive pid session =
     pseq (sys (\<lambda>s. if woken s pid
              then Some ((), s\<lparr>waiting := (waiting s)(pid := False), woken := (woken s)(pid := False)\<rparr>)
              else None))
          (files_read_datagram session)"

lemma files_receive_split:
  "files_ipc_receive pid session =
   pseq (upd (\<lambda>s. s\<lparr>waiting := (waiting s)(pid := True), woken := (woken s)(pid := False)\<rparr>))
     (woken_receive pid session)"
  by (simp add: files_ipc_receive_def sigsuspend_def woken_receive_def pseq_def pbind_assoc upd_def)

definition files_fits :: "datagram \<Rightarrow> bool" where
  "files_fits d \<longleftrightarrow> dg_wf FILES d \<and> dg_size d \<le> of_nat DATAGRAM_MAXSIZE"

lemma files_fits_length:
  "files_fits d \<Longrightarrow> length (dg_bytes FILES d) = unat (dg_size d) \<and> unat (dg_size d) \<le> 4096 \<and>
     8 \<le> unat (dg_size d)"
  using word_le_nat_alt [of "dg_size d" 4096]
  by (auto simp: files_fits_def dg_wf_def layout)

section \<open>One datagram\<close>

text \<open>A sender and a receiver have the file \<open>i\<close> open, each with a description of its own.\<close>

definition files_linked :: "files_session \<Rightarrow> files_session \<Rightarrow> nat \<Rightarrow> 'z files_state_scheme \<Rightarrow> bool" where
  "files_linked snd_s rcv_s i s \<longleftrightarrow>
     (\<exists>o1 o2. desc_of (fi_serverfd snd_s) s = Some (i, o1) \<and> desc_of (fi_serverfd rcv_s) s = Some (i, o2)) \<and>
     fi_serverfd snd_s \<noteq> fi_serverfd rcv_s"

lemma desc_of_pos: "desc_of fd s = Some x \<Longrightarrow> 0 \<le> fd \<and> descs s (nat fd) = Some x"
  by (simp add: desc_of_def split: if_splits)

text \<open>What the receiver makes of a datagram written over the old contents \<open>b\<close> of the file.\<close>

definition files_seen :: "bytes \<Rightarrow> datagram \<Rightarrow> datagram" where
  "files_seen b d =
     (let tail = take (DATAGRAM_MAXSIZE - unat (dg_size d)) (drop (unat (dg_size d)) b)
      in d\<lparr>dg_size := of_nat (unat (dg_size d) + length tail), dg_raw := dg_raw d @ tail\<rparr>)"

lemma files_block:
  assumes "files_fits d"
  shows "kept_block FILES (take DATAGRAM_MAXSIZE (dg_bytes FILES d @ drop (unat (dg_size d)) b)) =
    Ret (Some (files_seen b d))"
proof -
  note len = files_fits_length [OF assms]
  let ?t = "take (DATAGRAM_MAXSIZE - unat (dg_size d)) (drop (unat (dg_size d)) b)"
  have read: "take DATAGRAM_MAXSIZE (dg_bytes FILES d @ drop (unat (dg_size d)) b) = dg_bytes FILES d @ ?t"
    using len by (simp add: layout del: length_dg_bytes)
  have "drop 8 (dg_bytes FILES d @ ?t) = drop 8 (dg_bytes FILES d) @ ?t"
    using len by (simp del: length_dg_bytes)
  moreover have "le8 x @ drop 8 (dg_bytes FILES d) = dg_bytes FILES (d\<lparr>dg_size := x\<rparr>)" for x
    by (simp add: dg_bytes_def)
  moreover have "dg_bytes FILES (d\<lparr>dg_size := x\<rparr>) @ ?t = dg_bytes FILES (d\<lparr>dg_size := x, dg_raw := dg_raw d @ ?t\<rparr>)" for x
    by (simp add: dg_bytes_def)
  ultimately have keep: "le8 x @ drop 8 (dg_bytes FILES d @ ?t) =
      dg_bytes FILES (d\<lparr>dg_size := x, dg_raw := dg_raw d @ ?t\<rparr>)" for x
    by (metis append_assoc)
  have n: "length (dg_bytes FILES d @ ?t) = unat (dg_size d) + length ?t" "0 < unat (dg_size d) + length ?t"
    using len by (simp_all del: length_dg_bytes)
  have "length (dg_bytes FILES (d\<lparr>dg_size := x, dg_raw := dg_raw d @ ?t\<rparr>)) = unat (dg_size d) + length ?t" for x
    using len by simp
  then show ?thesis
    unfolding read kept_block_def Let_def n(1) keep
    using n(2) assms
    by (simp add: files_seen_def Let_def dg_block_def dg_of_bytes_bytes files_fits_def dg_wf_def
        del: length_dg_bytes)
qed

lemma files_delivery:
  assumes link: "files_linked snd_s rcv_s i s" and fits: "files_fits d"
    and wait: "waiting s (fi_otherpid snd_s)"
  shows "\<exists>s1 s2. run_proc (files_ipc_send snd_s d) s = (Done 0, s1) \<and>
    run_proc (woken_receive (fi_otherpid snd_s) rcv_s) s1 =
      (Done (Some (files_seen (file_bytes s i) d)), s2) \<and>
    files_linked snd_s rcv_s i s2 \<and>
    file_bytes s2 i = dg_bytes FILES d @ drop (unat (dg_size d)) (file_bytes s i)"
proof -
  let ?n = "unat (dg_size d)" let ?p = "fi_otherpid snd_s" let ?b = "dg_bytes FILES d @ drop ?n (file_bytes s i)"
  let ?f = "nat (fi_serverfd snd_s)" let ?g = "nat (fi_serverfd rcv_s)"
  note len = files_fits_length [OF fits]
  have small: "\<not> of_nat DATAGRAM_MAXSIZE < dg_size d" using fits by (simp add: files_fits_def not_less)
  obtain o1 o2 where o: "0 \<le> fi_serverfd snd_s" "descs s ?f = Some (i, o1)" "0 \<le> fi_serverfd rcv_s"
      "descs s ?g = Some (i, o2)" and fg: "?g \<noteq> ?f"
    using link by (auto simp: files_linked_def dest!: desc_of_pos)
  let ?s1 = "s\<lparr>file_bytes := (file_bytes s)(i := ?b), descs := (descs s)(?f := Some (i, ?n)),
      woken := (woken s)(?p := True)\<rparr>"
  let ?s2 = "?s1\<lparr>waiting := (waiting s)(?p := False), woken := (woken s)(?p := False),
      descs := (descs ?s1)(?g := Some (i, length (take DATAGRAM_MAXSIZE ?b)))\<rparr>"
  have "run_proc (files_ipc_send snd_s d) s = (Done 0, ?s1)"
    using small len o wait
    by (simp add: files_ipc_send_def pseq_def upd_def rewind_def desc_of_def file_write_def overwrite_def
        kill_usr1_def del: length_dg_bytes)
  moreover have "run_proc (woken_receive ?p rcv_s) ?s1 =
      (Done (Some (files_seen (file_bytes s i) d)), ?s2)"
    using o fg files_block [OF fits, of "file_bytes s i"]
    by (simp add: woken_receive_def files_read_datagram_def pseq_def upd_def rewind_def desc_of_def
        file_read_def Let_def files_block [OF fits] del: length_dg_bytes take_append)
  moreover have "files_linked snd_s rcv_s i ?s2"
    using o link fg by (simp add: files_linked_def desc_of_def)
  ultimately show ?thesis by fastforce
qed

lemma files_signal_lost:
  assumes "files_linked snd_s rcv_s i s" "files_fits d" "\<not> waiting s (fi_otherpid snd_s)"
  shows "\<exists>s1. run_proc (files_ipc_send snd_s d) s = (Done 0, s1) \<and>
    fst (run_proc (files_ipc_receive (fi_otherpid snd_s) rcv_s) s1) = Blocked"
proof -
  note len = files_fits_length [OF assms(2)]
  have small: "\<not> of_nat DATAGRAM_MAXSIZE < dg_size d" using assms(2) by (simp add: files_fits_def not_less)
  have "fst (run_proc (files_ipc_send snd_s d) s) = Done 0"
    using small len by (simp add: files_ipc_send_def pseq_def upd_def del: length_dg_bytes)
  moreover have "fst (run_proc (files_ipc_receive p rcv_s) s1) = Blocked" for p and s1 :: "'a files_state_scheme"
    by (simp add: files_receive_split woken_receive_def pseq_def upd_def)
  ultimately show ?thesis by (metis prod.collapse)
qed

end
