(* ===== verification/Sqlite.thy ===== *)
theory Sqlite
  imports Datagram "HOL-Library.Multiset"
begin

text \<open>
  The interface to SQLite.  The library is not part of the repository (only its header
  \<open>server/sqlite3/sqlite3.h\<close> is), so its entry points are a record of functions over an
  unknown type of states \<open>'h\<close> (the connection and the database file) and an unknown type of
  prepared statements \<open>'q\<close>; every definition of \<open>server/db/database.c\<close> takes that record as
  an argument.  What the code relies on are the predicates \<open>exec_spec\<close>, \<open>step_spec\<close>, ...:
  each states what the header documents for one entry point, for the SQL texts the program can
  send, in terms of the tables such a text reads or writes.  They allow every call to fail at any
  time; \<open>sqlite_ready\<close> adds that a call whose statement makes sense succeeds.

  \<open>SqliteRef\<close> defines a small engine that reads the SQL texts, and shows that it meets all the
  predicates: they can hold together, and every property that assumes them has an instance.
\<close>

unbundle bit_operations_syntax

section \<open>Result codes\<close>

text \<open>The codes the functions return, with the header's numbers.\<close>

datatype result_code =
    R_OK | R_ERROR | R_INTERNAL | R_PERM | R_ABORT | R_BUSY | R_LOCKED | R_NOMEM | R_READONLY
  | R_INTERRUPT | R_IOERR | R_CORRUPT | R_NOTFOUND | R_FULL | R_CANTOPEN | R_PROTOCOL | R_EMPTY
  | R_SCHEMA | R_TOOBIG | R_CONSTRAINT | R_MISMATCH | R_MISUSE | R_NOLFS | R_AUTH | R_FORMAT
  | R_RANGE | R_NOTADB | R_NOTICE | R_WARNING | R_ROW | R_DONE

fun code_number :: "result_code \<Rightarrow> int" where
  "code_number R_OK = 0"
| "code_number R_ERROR = 1"
| "code_number R_INTERNAL = 2"
| "code_number R_PERM = 3"
| "code_number R_ABORT = 4"
| "code_number R_BUSY = 5"
| "code_number R_LOCKED = 6"
| "code_number R_NOMEM = 7"
| "code_number R_READONLY = 8"
| "code_number R_INTERRUPT = 9"
| "code_number R_IOERR = 10"
| "code_number R_CORRUPT = 11"
| "code_number R_NOTFOUND = 12"
| "code_number R_FULL = 13"
| "code_number R_CANTOPEN = 14"
| "code_number R_PROTOCOL = 15"
| "code_number R_EMPTY = 16"
| "code_number R_SCHEMA = 17"
| "code_number R_TOOBIG = 18"
| "code_number R_CONSTRAINT = 19"
| "code_number R_MISMATCH = 20"
| "code_number R_MISUSE = 21"
| "code_number R_NOLFS = 22"
| "code_number R_AUTH = 23"
| "code_number R_FORMAT = 24"
| "code_number R_RANGE = 25"
| "code_number R_NOTADB = 26"
| "code_number R_NOTICE = 27"
| "code_number R_WARNING = 28"
| "code_number R_ROW = 100"
| "code_number R_DONE = 101"

definition SQLITE_OK :: int where "SQLITE_OK = code_number R_OK"
definition SQLITE_ERROR :: int where "SQLITE_ERROR = code_number R_ERROR"
definition SQLITE_BUSY :: int where "SQLITE_BUSY = code_number R_BUSY"
definition SQLITE_NOMEM :: int where "SQLITE_NOMEM = code_number R_NOMEM"
definition SQLITE_INTERRUPT :: int where "SQLITE_INTERRUPT = code_number R_INTERRUPT"
definition SQLITE_IOERR :: int where "SQLITE_IOERR = code_number R_IOERR"
definition SQLITE_FULL :: int where "SQLITE_FULL = code_number R_FULL"
definition SQLITE_ROW :: int where "SQLITE_ROW = code_number R_ROW"
definition SQLITE_DONE :: int where "SQLITE_DONE = code_number R_DONE"

lemmas result_codes = SQLITE_OK_def SQLITE_ERROR_def SQLITE_BUSY_def SQLITE_NOMEM_def
  SQLITE_INTERRUPT_def SQLITE_IOERR_def SQLITE_FULL_def SQLITE_ROW_def SQLITE_DONE_def

text \<open>
  A connection that enables the extended codes gets these instead (the program does not enable
  them): the low byte is the primary code.
\<close>

datatype extended_code =
    IOERR_READ | IOERR_SHORT_READ | IOERR_WRITE | IOERR_FSYNC | IOERR_DIR_FSYNC | IOERR_TRUNCATE
  | IOERR_FSTAT | IOERR_UNLOCK | IOERR_RDLOCK | IOERR_DELETE | IOERR_BLOCKED | IOERR_NOMEM
  | IOERR_ACCESS | IOERR_CHECKRESERVEDLOCK | IOERR_LOCK | IOERR_CLOSE | IOERR_DIR_CLOSE
  | IOERR_SHMOPEN | IOERR_SHMSIZE | IOERR_SHMLOCK | IOERR_SHMMAP | IOERR_SEEK
  | IOERR_DELETE_NOENT | IOERR_MMAP | IOERR_GETTEMPPATH | IOERR_CONVPATH | LOCKED_SHAREDCACHE
  | BUSY_RECOVERY | BUSY_SNAPSHOT | CANTOPEN_NOTEMPDIR | CANTOPEN_ISDIR | CANTOPEN_FULLPATH
  | CANTOPEN_CONVPATH | CORRUPT_VTAB | READONLY_RECOVERY | READONLY_CANTLOCK | READONLY_ROLLBACK
  | READONLY_DBMOVED | ABORT_ROLLBACK | CONSTRAINT_CHECK | CONSTRAINT_COMMITHOOK
  | CONSTRAINT_FOREIGNKEY | CONSTRAINT_FUNCTION | CONSTRAINT_NOTNULL | CONSTRAINT_PRIMARYKEY
  | CONSTRAINT_TRIGGER | CONSTRAINT_UNIQUE | CONSTRAINT_VTAB | CONSTRAINT_ROWID
  | NOTICE_RECOVER_WAL | NOTICE_RECOVER_ROLLBACK | WARNING_AUTOINDEX | AUTH_USER

fun extended_parts :: "extended_code \<Rightarrow> result_code \<times> int" where
  "extended_parts IOERR_READ = (R_IOERR, 1)"
| "extended_parts IOERR_SHORT_READ = (R_IOERR, 2)"
| "extended_parts IOERR_WRITE = (R_IOERR, 3)"
| "extended_parts IOERR_FSYNC = (R_IOERR, 4)"
| "extended_parts IOERR_DIR_FSYNC = (R_IOERR, 5)"
| "extended_parts IOERR_TRUNCATE = (R_IOERR, 6)"
| "extended_parts IOERR_FSTAT = (R_IOERR, 7)"
| "extended_parts IOERR_UNLOCK = (R_IOERR, 8)"
| "extended_parts IOERR_RDLOCK = (R_IOERR, 9)"
| "extended_parts IOERR_DELETE = (R_IOERR, 10)"
| "extended_parts IOERR_BLOCKED = (R_IOERR, 11)"
| "extended_parts IOERR_NOMEM = (R_IOERR, 12)"
| "extended_parts IOERR_ACCESS = (R_IOERR, 13)"
| "extended_parts IOERR_CHECKRESERVEDLOCK = (R_IOERR, 14)"
| "extended_parts IOERR_LOCK = (R_IOERR, 15)"
| "extended_parts IOERR_CLOSE = (R_IOERR, 16)"
| "extended_parts IOERR_DIR_CLOSE = (R_IOERR, 17)"
| "extended_parts IOERR_SHMOPEN = (R_IOERR, 18)"
| "extended_parts IOERR_SHMSIZE = (R_IOERR, 19)"
| "extended_parts IOERR_SHMLOCK = (R_IOERR, 20)"
| "extended_parts IOERR_SHMMAP = (R_IOERR, 21)"
| "extended_parts IOERR_SEEK = (R_IOERR, 22)"
| "extended_parts IOERR_DELETE_NOENT = (R_IOERR, 23)"
| "extended_parts IOERR_MMAP = (R_IOERR, 24)"
| "extended_parts IOERR_GETTEMPPATH = (R_IOERR, 25)"
| "extended_parts IOERR_CONVPATH = (R_IOERR, 26)"
| "extended_parts LOCKED_SHAREDCACHE = (R_LOCKED, 1)"
| "extended_parts BUSY_RECOVERY = (R_BUSY, 1)"
| "extended_parts BUSY_SNAPSHOT = (R_BUSY, 2)"
| "extended_parts CANTOPEN_NOTEMPDIR = (R_CANTOPEN, 1)"
| "extended_parts CANTOPEN_ISDIR = (R_CANTOPEN, 2)"
| "extended_parts CANTOPEN_FULLPATH = (R_CANTOPEN, 3)"
| "extended_parts CANTOPEN_CONVPATH = (R_CANTOPEN, 4)"
| "extended_parts CORRUPT_VTAB = (R_CORRUPT, 1)"
| "extended_parts READONLY_RECOVERY = (R_READONLY, 1)"
| "extended_parts READONLY_CANTLOCK = (R_READONLY, 2)"
| "extended_parts READONLY_ROLLBACK = (R_READONLY, 3)"
| "extended_parts READONLY_DBMOVED = (R_READONLY, 4)"
| "extended_parts ABORT_ROLLBACK = (R_ABORT, 2)"
| "extended_parts CONSTRAINT_CHECK = (R_CONSTRAINT, 1)"
| "extended_parts CONSTRAINT_COMMITHOOK = (R_CONSTRAINT, 2)"
| "extended_parts CONSTRAINT_FOREIGNKEY = (R_CONSTRAINT, 3)"
| "extended_parts CONSTRAINT_FUNCTION = (R_CONSTRAINT, 4)"
| "extended_parts CONSTRAINT_NOTNULL = (R_CONSTRAINT, 5)"
| "extended_parts CONSTRAINT_PRIMARYKEY = (R_CONSTRAINT, 6)"
| "extended_parts CONSTRAINT_TRIGGER = (R_CONSTRAINT, 7)"
| "extended_parts CONSTRAINT_UNIQUE = (R_CONSTRAINT, 8)"
| "extended_parts CONSTRAINT_VTAB = (R_CONSTRAINT, 9)"
| "extended_parts CONSTRAINT_ROWID = (R_CONSTRAINT, 10)"
| "extended_parts NOTICE_RECOVER_WAL = (R_NOTICE, 1)"
| "extended_parts NOTICE_RECOVER_ROLLBACK = (R_NOTICE, 2)"
| "extended_parts WARNING_AUTOINDEX = (R_WARNING, 1)"
| "extended_parts AUTH_USER = (R_AUTH, 1)"

definition extended_number :: "extended_code \<Rightarrow> int" where
  "extended_number e = (case extended_parts e of (c, n) \<Rightarrow> code_number c OR push_bit 8 n)"

definition primary_code :: "int \<Rightarrow> int" where
  "primary_code rc = rc AND 255"

lemma primary_code_number: "primary_code (code_number c) = code_number c"
  by (cases c) (simp_all add: primary_code_def)

lemma primary_extended: "primary_code (extended_number e) = code_number (fst (extended_parts e))"
  by (cases e) (simp_all add: primary_code_def extended_number_def)

text \<open>A test against \<open>SQLITE_OK\<close>, the program's only one besides rows, is right with either kind of code.\<close>

lemma extended_failures: "extended_number e \<notin> {SQLITE_OK, SQLITE_ROW, SQLITE_DONE}"
  by (cases e) (simp_all add: extended_number_def result_codes)

section \<open>Values\<close>

text \<open>A value of a column: a 64-bit integer, the bits of a double, a string, a blob or \<open>NULL\<close>.\<close>

datatype sql_value = SInteger int | SFloat "64 word" | SText string | SBlob bytes | SNull

fun type_code :: "sql_value \<Rightarrow> int" where
  "type_code (SInteger i) = 1"
| "type_code (SFloat x) = 2"
| "type_code (SText t) = 3"
| "type_code (SBlob b) = 4"
| "type_code SNull = 5"

text \<open>
  Where an integer is requested: \<open>NULL\<close> gives 0 and what is no number is \<open>CAST\<close>, which SQL defines and
  the header does not (\<open>cast\<close>).  \<open>sqlite3_column_int\<close> returns the low 32 bits.
\<close>

definition column_int64 :: "(sql_value \<Rightarrow> int) \<Rightarrow> sql_value \<Rightarrow> int" where
  "column_int64 cast v = (case v of SInteger i \<Rightarrow> i | SNull \<Rightarrow> 0 | _ \<Rightarrow> cast v)"

definition column_int :: "(sql_value \<Rightarrow> int) \<Rightarrow> sql_value \<Rightarrow> i32" where
  "column_int cast v = word_of_int (column_int64 cast v)"

lemma column_int64_cases:
  "column_int64 cast v = (if type_code v = 1 then (case v of SInteger i \<Rightarrow> i) else if type_code v = 5 then 0 else cast v)"
  by (cases v) (simp_all add: column_int64_def)

section \<open>Entry points the program calls\<close>

record ('h, 'q) sqlite =
  api_open :: "string \<Rightarrow> 'h \<Rightarrow> int \<times> 'h"
  api_close :: "'h \<Rightarrow> 'h"
  api_exec :: "string \<Rightarrow> 'h \<Rightarrow> int \<times> 'h"
  api_last_insert_rowid :: "'h \<Rightarrow> i64"
  api_prepare_v2 :: "string \<Rightarrow> 'h \<Rightarrow> int \<times> 'q \<times> 'h"
  api_step :: "'q \<Rightarrow> 'h \<Rightarrow> int \<times> 'q \<times> 'h"
  api_column_int :: "'q \<Rightarrow> nat \<Rightarrow> i32"
  api_finalize :: "'q \<Rightarrow> 'h \<Rightarrow> int \<times> 'h"
  api_errmsg :: "'h \<Rightarrow> string"
  api_exec_err :: "string \<Rightarrow> 'h \<Rightarrow> string"
    \<comment> \<open>what a failing \<open>sqlite3_exec\<close> of this text in this state writes to its fifth argument\<close>
  api_free :: "string \<Rightarrow> 'h \<Rightarrow> 'h"
  api_printf :: "string \<Rightarrow> 'h \<Rightarrow> 'h"  \<comment> \<open>the C library's \<open>printf\<close>, its text already formatted\<close>
  file_access :: "string \<Rightarrow> 'h \<Rightarrow> int"  \<comment> \<open>\<open>access (path, F_OK)\<close> of the C library\<close>

section \<open>Tables and the statements of the program\<close>

text \<open>
  The two tables of the database as lists of rows (\<open>None\<close>: the table does not exist), with the
  counters \<open>AUTOINCREMENT\<close> keeps.  A ticket is (resid, flightid), a flight is
  (id, departure, origin, destination).
\<close>

record tables =
  tickets :: "(int \<times> int) list option"
  flights :: "(int \<times> int \<times> int \<times> int) list option"
  seq_ticket :: int
  seq_flight :: int

definition no_tables :: tables where
  "no_tables = \<lparr>tickets = None, flights = None, seq_ticket = 0, seq_flight = 0\<rparr>"

text \<open>
  What one connection sees: the committed contents of the file and, inside a transaction, its own
  version of them.
\<close>

record dbview =
  committed :: tables
  pending :: "tables option"
  last_rowid :: int

definition current :: "dbview \<Rightarrow> tables" where
  "current v = (case pending v of None \<Rightarrow> committed v | Some t \<Rightarrow> t)"

definition put_current :: "tables \<Rightarrow> dbview \<Rightarrow> dbview" where
  "put_current t v =
     (case pending v of None \<Rightarrow> v\<lparr>committed := t\<rparr> | Some _ \<Rightarrow> v\<lparr>pending := Some t\<rparr>)"

definition rollback :: "dbview \<Rightarrow> dbview" where
  "rollback v = v\<lparr>pending := None\<rparr>"

text \<open>\<open>BEGIN\<close> disables the autocommit mode of a connection, \<open>END\<close> and a rollback enable it again.\<close>

definition autocommit :: "dbview \<Rightarrow> bool" where
  "autocommit v \<longleftrightarrow> Option.is_none (pending v)"

datatype stmt =
    Create_ticket
  | Create_flight
  | Begin_transaction
  | End_transaction
  | Insert_flight int int int
  | Insert_ticket int
  | Delete_ticket int

datatype query =
    Count_flight int
  | Select_flight "int option" "int option"

fun stmt_text :: "stmt \<Rightarrow> string" where
  "stmt_text Create_ticket =
     ''CREATE TABLE ticket(resid    INTEGER  PRIMARY KEY AUTOINCREMENT,flightid INTEGER              NOT NULL );''"
| "stmt_text Create_flight =
     ''CREATE TABLE flight(id             INTEGER PRIMARY KEY AUTOINCREMENT,departure      INTEGER                NOT NULL,origin         INTEGER                NOT NULL,destination    INTEGER                NOT NULL );''"
| "stmt_text Begin_transaction = ''BEGIN TRANSACTION;''"
| "stmt_text End_transaction = ''END TRANSACTION;''"
| "stmt_text (Insert_flight dep og dest) =
     ''INSERT INTO flight (departure,origin,destination) VALUES ('' @ dec dep @ '','' @ dec og @
     '','' @ dec dest @ '');''"
| "stmt_text (Insert_ticket f) = ''INSERT INTO ticket (flightid) VALUES ('' @ dec f @ '');''"
| "stmt_text (Delete_ticket r) = ''DELETE FROM ticket where resid = '' @ dec r @ '';''"

fun query_text :: "query \<Rightarrow> string" where
  "query_text (Count_flight i) = ''SELECT COUNT(*) FROM flight WHERE id = '' @ dec i @ '' ''"
| "query_text (Select_flight None None) = ''SELECT * FROM flight''"
| "query_text (Select_flight None (Some d)) = ''SELECT * FROM flight WHERE destination = '' @ dec d"
| "query_text (Select_flight (Some og) None) = ''SELECT * FROM flight WHERE origin = '' @ dec og"
| "query_text (Select_flight (Some og) (Some d)) =
     ''SELECT * FROM flight WHERE origin = '' @ dec og @ '' AND destination = '' @ dec d"

text \<open>
  Effect on the tables; \<open>None\<close> when the statement is an error (a missing or an existing table, a
  counter at its limit).  The second component is the row id of an insertion.
\<close>

definition MAX_ROWID :: int where "MAX_ROWID = 9223372036854775807"

fun table_write :: "stmt \<Rightarrow> tables \<Rightarrow> (tables \<times> int option) option" where
  "table_write Create_ticket t =
     (case tickets t of None \<Rightarrow> Some (t\<lparr>tickets := Some []\<rparr>, None) | Some _ \<Rightarrow> None)"
| "table_write Create_flight t =
     (case flights t of None \<Rightarrow> Some (t\<lparr>flights := Some []\<rparr>, None) | Some _ \<Rightarrow> None)"
| "table_write (Insert_flight dep og dest) t =
     (case flights t of
        None \<Rightarrow> None
      | Some fs \<Rightarrow>
          if seq_flight t < MAX_ROWID
          then Some (t\<lparr>flights := Some (fs @ [(seq_flight t + 1, dep, og, dest)]),
                       seq_flight := seq_flight t + 1\<rparr>, Some (seq_flight t + 1))
          else None)"
| "table_write (Insert_ticket f) t =
     (case tickets t of
        None \<Rightarrow> None
      | Some ts \<Rightarrow>
          if seq_ticket t < MAX_ROWID
          then Some (t\<lparr>tickets := Some (ts @ [(seq_ticket t + 1, f)]),
                       seq_ticket := seq_ticket t + 1\<rparr>, Some (seq_ticket t + 1))
          else None)"
| "table_write (Delete_ticket r) t =
     (case tickets t of
        None \<Rightarrow> None
      | Some ts \<Rightarrow> Some (t\<lparr>tickets := Some (filter (\<lambda>(i, f). i \<noteq> r) ts)\<rparr>, None))"
| "table_write Begin_transaction t = None"
| "table_write End_transaction t = None"

fun stmt_exec :: "stmt \<Rightarrow> dbview \<Rightarrow> dbview option" where
  "stmt_exec Begin_transaction v =
     (case pending v of None \<Rightarrow> Some (v\<lparr>pending := Some (committed v)\<rparr>) | Some _ \<Rightarrow> None)"
| "stmt_exec End_transaction v =
     (case pending v of None \<Rightarrow> None | Some t \<Rightarrow> Some (v\<lparr>committed := t, pending := None\<rparr>))"
| "stmt_exec st v =
     (case table_write st (current v) of
        None \<Rightarrow> None
      | Some (t, None) \<Rightarrow> Some (put_current t v)
      | Some (t, Some r) \<Rightarrow> Some ((put_current t v)\<lparr>last_rowid := r\<rparr>))"

text \<open>
  A text may hold several statements: they run in order, and the first that fails skips the rest,
  while those before it stay done.  The program has one such text, which creates the tables; each of
  the others is a single statement.
\<close>

definition creation :: "stmt list" where
  "creation = [Create_ticket, Create_flight]"

definition program_script :: "stmt list \<Rightarrow> bool" where
  "program_script ss \<longleftrightarrow> length ss = 1 \<or> ss = creation"

definition script_text :: "stmt list \<Rightarrow> string" where
  "script_text ss = concat (map stmt_text ss)"

primrec script_exec :: "stmt list \<Rightarrow> dbview \<Rightarrow> dbview option" where
  "script_exec [] v = Some v"
| "script_exec (st # ss) v = (case stmt_exec st v of None \<Rightarrow> None | Some w \<Rightarrow> script_exec ss w)"

lemma program_script_cases:
  assumes "program_script ss"
  obtains st where "ss = [st]" | "ss = creation"
  using assms by (auto simp: program_script_def length_Suc_conv)

lemma single_script [simp]: "program_script [st]" "script_text [st] = stmt_text st"
  "script_exec [st] v = stmt_exec st v"
  by (simp_all add: program_script_def script_text_def split: option.split)

lemma autocommit_steps:
  "autocommit v \<Longrightarrow> stmt_exec Begin_transaction v = Some v' \<Longrightarrow> \<not> autocommit v'"
  "\<not> autocommit v \<Longrightarrow> stmt_exec End_transaction v = Some v' \<Longrightarrow> autocommit v'"
  "autocommit (rollback v)"
  by (auto simp: autocommit_def rollback_def split: option.splits)

definition flight_row :: "int \<times> int \<times> int \<times> int \<Rightarrow> int list" where
  "flight_row = (\<lambda>(i, dep, og, dest). [i, dep, og, dest])"

definition flight_matches :: "int option \<Rightarrow> int option \<Rightarrow> int \<times> int \<times> int \<times> int \<Rightarrow> bool" where
  "flight_matches og dest = (\<lambda>(i, dep, og', dest').
     (case og of None \<Rightarrow> True | Some x \<Rightarrow> og' = x) \<and>
     (case dest of None \<Rightarrow> True | Some x \<Rightarrow> dest' = x))"

fun query_rows :: "query \<Rightarrow> dbview \<Rightarrow> int list list option" where
  "query_rows (Count_flight i) v =
     map_option (\<lambda>fs. [[int (length (filter (\<lambda>f. fst f = i) fs))]]) (flights (current v))"
| "query_rows (Select_flight og dest) v =
     map_option (\<lambda>fs. map flight_row (filter (flight_matches og dest) fs)) (flights (current v))"

definition query_values :: "query \<Rightarrow> dbview \<Rightarrow> sql_value list list option" where
  "query_values qy v = map_option (map (map SInteger)) (query_rows qy v)"

lemma current_put_current [simp]: "current (put_current t v) = t"
  by (auto simp: current_def put_current_def split: option.splits)

lemma current_last_rowid [simp]: "current (v\<lparr>last_rowid := r\<rparr>) = current v"
  by (simp add: current_def split: option.split)

lemma pending_put_current: "(pending (put_current t v) = None) = (pending v = None)"
  by (auto simp: put_current_def split: option.splits)

section \<open>Documented behaviour of the entry points\<close>

text \<open>How a library state and a prepared statement are read as tables and rows.\<close>

record ('h, 'q) reading =
  view :: "'h \<Rightarrow> dbview"
  stmt_rows :: "'q \<Rightarrow> sql_value list list"  \<comment> \<open>rows \<open>sqlite3_step\<close> has still to return\<close>
  stmt_row :: "'q \<Rightarrow> sql_value list option" \<comment> \<open>the current row\<close>
  stmt_good :: "'q \<Rightarrow> bool"                 \<comment> \<open>no error in its last evaluation\<close>
  cast_integer :: "sql_value \<Rightarrow> int"         \<comment> \<open>\<open>CAST\<close> to \<open>INTEGER\<close>\<close>
  console :: "'h \<Rightarrow> string"                \<comment> \<open>what the process has printed so far\<close>

text \<open>\<open>sqlite3_data_count\<close>: the columns of the current row, 0 when there is none.\<close>

definition data_count :: "('h, 'q) reading \<Rightarrow> 'q \<Rightarrow> nat" where
  "data_count rd q = (case stmt_row rd q of None \<Rightarrow> 0 | Some row \<Rightarrow> length row)"

text \<open>The rows as the integers \<open>sqlite3_column_int64\<close> gives.\<close>

definition int_rows :: "('h, 'q) reading \<Rightarrow> 'q \<Rightarrow> int list list" where
  "int_rows rd q = map (map (column_int64 (cast_integer rd))) (stmt_rows rd q)"

definition int_row :: "('h, 'q) reading \<Rightarrow> 'q \<Rightarrow> int list option" where
  "int_row rd q = map_option (map (column_int64 (cast_integer rd))) (stmt_row rd q)"

lemma int_rows_Nil: "int_rows rd q = [] \<longleftrightarrow> stmt_rows rd q = []"
  by (simp add: int_rows_def)

lemma int_rows_stored:
  assumes "mset (map (map SInteger) rows) = mset (stmt_rows rd q)"
  shows "mset rows = mset (int_rows rd q)"
proof -
  have "mset (int_rows rd q) = image_mset (map (column_int64 (cast_integer rd))) (mset (map (map SInteger) rows))"
    unfolding assms by (simp add: int_rows_def)
  also have "\<dots> = mset rows"
    by (simp add: multiset.map_comp comp_def column_int64_def flip: mset_map)
  finally show ?thesis by (rule sym)
qed

text \<open>
  A failed call leaves the tables alone; for five kinds of failure SQLite may also have rolled the
  open transaction back.
\<close>

definition unharmed :: "int \<Rightarrow> dbview \<Rightarrow> dbview \<Rightarrow> bool" where
  "unharmed rc v v' \<longleftrightarrow>
     v' = v \<or>
     (primary_code rc \<in> {SQLITE_FULL, SQLITE_IOERR, SQLITE_NOMEM, SQLITE_BUSY, SQLITE_INTERRUPT} \<and>
      v' = rollback v)"

primrec stopped :: "int \<Rightarrow> stmt list \<Rightarrow> dbview \<Rightarrow> dbview \<Rightarrow> bool" where
  "stopped rc [] v v' = False"
| "stopped rc (st # ss) v v' =
     (unharmed rc v v' \<or> (case stmt_exec st v of None \<Rightarrow> False | Some w \<Rightarrow> stopped rc ss w v'))"

definition exec_spec :: "('h, 'q) sqlite \<Rightarrow> ('h, 'q) reading \<Rightarrow> bool" where
  "exec_spec api rd \<longleftrightarrow>
     (\<forall>ss h rc h'. program_script ss \<longrightarrow> api_exec api (script_text ss) h = (rc, h') \<longrightarrow>
        (if rc = SQLITE_OK then script_exec ss (view rd h) = Some (view rd h')
         else stopped rc ss (view rd h) (view rd h')))"

text \<open>
  \<open>sqlite3_close\<close> refuses a connection that has statements which are not finalized, and that leaves the
  transaction to the end of the process.  Every close of the program, the one of \<open>db_close\<close> in the signal
  handler of the server included, is followed by \<open>exit\<close>: \<open>api_close\<close> is the call and the end of the
  process together, after which what was not committed is gone either way.
\<close>

definition close_spec :: "('h, 'q) sqlite \<Rightarrow> ('h, 'q) reading \<Rightarrow> bool" where
  "close_spec api rd \<longleftrightarrow> (\<forall>h. view rd (api_close api h) = rollback (view rd h))"

definition last_insert_rowid_spec :: "('h, 'q) sqlite \<Rightarrow> ('h, 'q) reading \<Rightarrow> bool" where
  "last_insert_rowid_spec api rd \<longleftrightarrow>
     (\<forall>h. api_last_insert_rowid api h = word_of_int (last_rowid (view rd h)))"

definition open_spec :: "('h, 'q) sqlite \<Rightarrow> ('h, 'q) reading \<Rightarrow> bool" where
  "open_spec api rd \<longleftrightarrow>
     (\<forall>h rc h'. api_open api DB_PATH h = (rc, h') \<longrightarrow>
        committed (view rd h') = committed (view rd h) \<and>
        (rc = SQLITE_OK \<longrightarrow> pending (view rd h') = None \<and> last_rowid (view rd h') = 0))"

definition prepare_spec :: "('h, 'q) sqlite \<Rightarrow> ('h, 'q) reading \<Rightarrow> bool" where
  "prepare_spec api rd \<longleftrightarrow>
     (\<forall>qy h rc q h'. api_prepare_v2 api (query_text qy) h = (rc, q, h') \<longrightarrow>
        (if rc = SQLITE_OK
         then view rd h' = view rd h \<and> stmt_good rd q \<and> data_count rd q = 0 \<and>
              map_option mset (query_values qy (view rd h)) = Some (mset (stmt_rows rd q))
         else unharmed rc (view rd h) (view rd h')))"

definition step_spec :: "('h, 'q) sqlite \<Rightarrow> ('h, 'q) reading \<Rightarrow> bool" where
  "step_spec api rd \<longleftrightarrow>
     (\<forall>q h rc q' h'. api_step api q h = (rc, q', h') \<longrightarrow>
        (if rc = SQLITE_ROW
         then view rd h' = view rd h \<and> stmt_good rd q' \<and>
             stmt_rows rd q \<noteq> [] \<and> stmt_row rd q' = Some (hd (stmt_rows rd q)) \<and>
             stmt_rows rd q' = tl (stmt_rows rd q)
         else if rc = SQLITE_DONE
         then view rd h' = view rd h \<and> stmt_good rd q' \<and> stmt_rows rd q = [] \<and> data_count rd q' = 0
         else unharmed rc (view rd h) (view rd h')))"

definition column_int_spec :: "('h, 'q) sqlite \<Rightarrow> ('h, 'q) reading \<Rightarrow> bool" where
  "column_int_spec api rd \<longleftrightarrow>
     (\<forall>q row i. stmt_row rd q = Some row \<longrightarrow> i < data_count rd q \<longrightarrow>
        api_column_int api q i = column_int (cast_integer rd) (row ! i))"

definition finalize_spec :: "('h, 'q) sqlite \<Rightarrow> ('h, 'q) reading \<Rightarrow> bool" where
  "finalize_spec api rd \<longleftrightarrow>
     (\<forall>q h rc h'. api_finalize api q h = (rc, h') \<longrightarrow>
        view rd h' = view rd h \<and> (stmt_good rd q \<longrightarrow> rc = SQLITE_OK))"

definition access_spec :: "('h, 'q) sqlite \<Rightarrow> ('h, 'q) reading \<Rightarrow> bool" where
  "access_spec api rd \<longleftrightarrow>
     (\<forall>h. file_access api DB_PATH h \<noteq> 0 \<longrightarrow> committed (view rd h) = no_tables)"

text \<open>The error texts are the library's; \<open>sqlite3_free\<close> gives the memory of one of them back.\<close>

definition free_spec :: "('h, 'q) sqlite \<Rightarrow> ('h, 'q) reading \<Rightarrow> bool" where
  "free_spec api rd \<longleftrightarrow> (\<forall>msg h. view rd (api_free api msg h) = view rd h)"

text \<open>Only \<open>printf\<close> prints, and it does nothing else.\<close>

definition printf_spec :: "('h, 'q) sqlite \<Rightarrow> ('h, 'q) reading \<Rightarrow> bool" where
  "printf_spec api rd \<longleftrightarrow>
     (\<forall>msg h. view rd (api_printf api msg h) = view rd h \<and>
        console rd (api_printf api msg h) = console rd h @ msg) \<and>
     (\<forall>path h. console rd (snd (api_open api path h)) = console rd h) \<and>
     (\<forall>h. console rd (api_close api h) = console rd h) \<and>
     (\<forall>sql h. console rd (snd (api_exec api sql h)) = console rd h) \<and>
     (\<forall>sql h. console rd (snd (snd (api_prepare_v2 api sql h))) = console rd h) \<and>
     (\<forall>q h. console rd (snd (snd (api_step api q h))) = console rd h) \<and>
     (\<forall>q h. console rd (snd (api_finalize api q h)) = console rd h) \<and>
     (\<forall>msg h. console rd (api_free api msg h) = console rd h)"

definition sqlite_ok :: "('h, 'q) sqlite \<Rightarrow> ('h, 'q) reading \<Rightarrow> bool" where
  "sqlite_ok api rd \<longleftrightarrow>
     exec_spec api rd \<and> close_spec api rd \<and> last_insert_rowid_spec api rd \<and> open_spec api rd \<and>
     prepare_spec api rd \<and> step_spec api rd \<and> column_int_spec api rd \<and> finalize_spec api rd \<and>
     access_spec api rd \<and> free_spec api rd \<and> printf_spec api rd"

text \<open>What can be asked is answered: nothing is said of the statements that write.\<close>

definition queries_ready :: "('h, 'q) sqlite \<Rightarrow> ('h, 'q) reading \<Rightarrow> bool" where
  "queries_ready api rd \<longleftrightarrow>
     (\<forall>qy h. query_rows qy (view rd h) \<noteq> None \<longrightarrow>
        fst (api_prepare_v2 api (query_text qy) h) = SQLITE_OK) \<and>
     (\<forall>q h. stmt_good rd q \<longrightarrow>
        fst (api_step api q h) = (if stmt_rows rd q = [] then SQLITE_DONE else SQLITE_ROW))"

text \<open>
  No lock held by another process, no full disk, no lack of memory: what makes sense succeeds, and
  a \<open>BEGIN\<close> inside a transaction is the error SQLite documents for it.
\<close>

definition sqlite_ready :: "('h, 'q) sqlite \<Rightarrow> ('h, 'q) reading \<Rightarrow> bool" where
  "sqlite_ready api rd \<longleftrightarrow>
     (\<forall>h. fst (api_open api DB_PATH h) = SQLITE_OK) \<and>
     (\<forall>ss h. program_script ss \<longrightarrow> script_exec ss (view rd h) \<noteq> None \<longrightarrow>
        fst (api_exec api (script_text ss) h) = SQLITE_OK) \<and>
     (\<forall>h. pending (view rd h) \<noteq> None \<longrightarrow>
        fst (api_exec api (stmt_text Begin_transaction) h) = SQLITE_ERROR) \<and>
     queries_ready api rd"

text \<open>The specifications as rules about one call.\<close>

lemma script_cases:
  assumes "sqlite_ok api rd" "program_script ss" "api_exec api (script_text ss) h = (rc, h')"
  shows "rc = SQLITE_OK \<Longrightarrow> script_exec ss (view rd h) = Some (view rd h')"
    and "rc \<noteq> SQLITE_OK \<Longrightarrow> stopped rc ss (view rd h) (view rd h')"
  using assms by (auto simp: sqlite_ok_def exec_spec_def)

lemma exec_cases:
  assumes "sqlite_ok api rd" "api_exec api (stmt_text st) h = (rc, h')"
  shows "rc = SQLITE_OK \<Longrightarrow> stmt_exec st (view rd h) = Some (view rd h')"
    and "rc \<noteq> SQLITE_OK \<Longrightarrow> unharmed rc (view rd h) (view rd h')"
  using script_cases [OF assms(1), of "[st]" h rc h'] assms(2)
  by (auto simp del: stmt_exec.simps split: option.splits)

text \<open>A library that fails where another one that meets the specification succeeds meets it too.\<close>

lemma exec_spec_failing:
  assumes "exec_spec api rd"
    and "\<And>ss h rc h'. program_script ss \<Longrightarrow> f (script_text ss) h = (rc, h') \<Longrightarrow>
      api_exec api (script_text ss) h = (rc, h') \<or> rc \<noteq> SQLITE_OK \<and> unharmed rc (view rd h) (view rd h')"
  shows "exec_spec (api\<lparr>api_exec := f\<rparr>) rd"
proof -
  have "if rc = SQLITE_OK then script_exec ss (view rd h) = Some (view rd h')
      else stopped rc ss (view rd h) (view rd h')"
    if "program_script ss" "f (script_text ss) h = (rc, h')" for ss h rc h'
    using assms(2) [OF that]
  proof
    assume "api_exec api (script_text ss) h = (rc, h')"
    with assms(1) that(1) show ?thesis unfolding exec_spec_def by blast
  next
    assume "rc \<noteq> SQLITE_OK \<and> unharmed rc (view rd h) (view rd h')"
    with that(1) show ?thesis by (cases ss) (auto simp: program_script_def creation_def)
  qed
  then show ?thesis by (simp add: exec_spec_def)
qed

lemma close_view: "sqlite_ok api rd \<Longrightarrow> view rd (api_close api h) = rollback (view rd h)"
  by (simp add: sqlite_ok_def close_spec_def)

lemma rowid_view:
  "sqlite_ok api rd \<Longrightarrow> api_last_insert_rowid api h = word_of_int (last_rowid (view rd h))"
  by (simp add: sqlite_ok_def last_insert_rowid_spec_def)

lemma open_view:
  assumes "sqlite_ok api rd" "api_open api DB_PATH h = (rc, h')"
  shows "committed (view rd h') = committed (view rd h)"
    and "rc = SQLITE_OK \<Longrightarrow> pending (view rd h') = None \<and> last_rowid (view rd h') = 0"
  using assms unfolding sqlite_ok_def open_spec_def by blast+

lemma prepare_cases:
  assumes "sqlite_ok api rd" "api_prepare_v2 api (query_text qy) h = (rc, q, h')"
  shows "rc = SQLITE_OK \<Longrightarrow> view rd h' = view rd h \<and> stmt_good rd q \<and>
      (\<exists>rows. query_rows qy (view rd h) = Some rows \<and> mset rows = mset (int_rows rd q))"
    and "rc \<noteq> SQLITE_OK \<Longrightarrow> unharmed rc (view rd h) (view rd h')"
proof -
  have spec: "if rc = SQLITE_OK
      then view rd h' = view rd h \<and> stmt_good rd q \<and> data_count rd q = 0 \<and>
           map_option mset (query_values qy (view rd h)) = Some (mset (stmt_rows rd q))
      else unharmed rc (view rd h) (view rd h')"
    using assms unfolding sqlite_ok_def prepare_spec_def by blast
  show "rc = SQLITE_OK \<Longrightarrow> view rd h' = view rd h \<and> stmt_good rd q \<and>
      (\<exists>rows. query_rows qy (view rd h) = Some rows \<and> mset rows = mset (int_rows rd q))"
    using spec int_rows_stored [of _ rd q] by (auto simp: query_values_def simp del: mset_map)
  show "rc \<noteq> SQLITE_OK \<Longrightarrow> unharmed rc (view rd h) (view rd h')" using spec by simp
qed

lemma step_cases:
  assumes "sqlite_ok api rd" "api_step api q h = (rc, q', h')"
  shows "rc = SQLITE_ROW \<Longrightarrow> view rd h' = view rd h \<and> stmt_good rd q' \<and>
      (\<exists>r. int_rows rd q = r # int_rows rd q' \<and> int_row rd q' = Some r)"
    and "rc = SQLITE_DONE \<Longrightarrow> view rd h' = view rd h \<and> stmt_good rd q' \<and> int_rows rd q = []"
    and "rc \<noteq> SQLITE_ROW \<Longrightarrow> rc \<noteq> SQLITE_DONE \<Longrightarrow> unharmed rc (view rd h) (view rd h')"
  using assms
  by (cases "stmt_rows rd q"; auto simp: sqlite_ok_def step_spec_def result_codes int_rows_def int_row_def)+

lemma column_view:
  "sqlite_ok api rd \<Longrightarrow> int_row rd q = Some row \<Longrightarrow> i < length row \<Longrightarrow>
   api_column_int api q i = word_of_int (row ! i)"
  by (auto simp: sqlite_ok_def column_int_spec_def int_row_def data_count_def column_int_def)

lemma finalize_cases:
  assumes "sqlite_ok api rd" "api_finalize api q h = (rc, h')"
  shows "view rd h' = view rd h" and "stmt_good rd q \<Longrightarrow> rc = SQLITE_OK"
  using assms by (auto simp: sqlite_ok_def finalize_spec_def)

lemma access_view:
  "sqlite_ok api rd \<Longrightarrow> file_access api DB_PATH h \<noteq> 0 \<Longrightarrow> committed (view rd h) = no_tables"
  by (simp add: sqlite_ok_def access_spec_def)

lemma report_view:
  assumes "sqlite_ok api rd"
  shows "view rd (api_free api msg h) = view rd h" "view rd (api_printf api msg h) = view rd h"
  using assms by (simp_all add: sqlite_ok_def free_spec_def printf_spec_def)

lemma report_console:
  assumes "sqlite_ok api rd"
  shows "console rd (api_free api msg h) = console rd h"
    "console rd (api_printf api msg h) = console rd h @ msg"
    "console rd (api_close api h) = console rd h"
    "api_open api path h = (rc, h') \<Longrightarrow> console rd h' = console rd h"
    "api_exec api sql h = (rc, h') \<Longrightarrow> console rd h' = console rd h"
    "api_prepare_v2 api sql h = (rc, q, h') \<Longrightarrow> console rd h' = console rd h"
    "api_step api q h = (rc, q', h') \<Longrightarrow> console rd h' = console rd h"
    "api_finalize api q h = (rc, h') \<Longrightarrow> console rd h' = console rd h"
  using assms unfolding sqlite_ok_def printf_spec_def by (metis snd_conv)+

lemma query_rules:
  assumes "queries_ready api rd"
  shows "query_rows qy (view rd h) \<noteq> None \<Longrightarrow> fst (api_prepare_v2 api (query_text qy) h) = SQLITE_OK"
    and "stmt_good rd q \<Longrightarrow>
      fst (api_step api q h) = (if int_rows rd q = [] then SQLITE_DONE else SQLITE_ROW)"
  using assms unfolding queries_ready_def int_rows_Nil by blast+

lemma ready_rules:
  assumes "sqlite_ready api rd"
  shows "fst (api_open api DB_PATH h) = SQLITE_OK"
    and "program_script ss \<Longrightarrow> script_exec ss (view rd h) \<noteq> None \<Longrightarrow>
      fst (api_exec api (script_text ss) h) = SQLITE_OK"
    and "pending (view rd h) \<noteq> None \<Longrightarrow>
      fst (api_exec api (stmt_text Begin_transaction) h) = SQLITE_ERROR"
    and "queries_ready api rd"
  using assms unfolding sqlite_ready_def by blast+

lemma ready_stmt:
  "sqlite_ready api rd \<Longrightarrow> stmt_exec st (view rd h) \<noteq> None \<Longrightarrow>
   fst (api_exec api (stmt_text st) h) = SQLITE_OK"
  using ready_rules(2) [of api rd "[st]" h] by (auto simp del: stmt_exec.simps split: option.splits)

section \<open>Well-formed tables\<close>

text \<open>
  Row ids are distinct and between 1 and the counter of their table; every ticket is for a flight
  of the flight table.  The first part every statement keeps; the second is what
  \<open>db_purchase\<close> has to see to, since the schema has no foreign key.
\<close>

definition ids_ok :: "int list \<Rightarrow> int \<Rightarrow> bool" where
  "ids_ok is n \<longleftrightarrow> distinct is \<and> (\<forall>i \<in> set is. 1 \<le> i \<and> i \<le> n)"

definition ticket_list :: "tables \<Rightarrow> (int \<times> int) list" where
  "ticket_list t = (case tickets t of None \<Rightarrow> [] | Some ts \<Rightarrow> ts)"

definition flight_list :: "tables \<Rightarrow> (int \<times> int \<times> int \<times> int) list" where
  "flight_list t = (case flights t of None \<Rightarrow> [] | Some fs \<Rightarrow> fs)"

definition tables_wf :: "tables \<Rightarrow> bool" where
  "tables_wf t \<longleftrightarrow>
     0 \<le> seq_ticket t \<and> 0 \<le> seq_flight t \<and>
     ids_ok (map fst (ticket_list t)) (seq_ticket t) \<and>
     ids_ok (map fst (flight_list t)) (seq_flight t)"

definition tickets_valid :: "tables \<Rightarrow> bool" where
  "tickets_valid t \<longleftrightarrow> (\<forall>x \<in> set (ticket_list t). snd x \<in> fst ` set (flight_list t))"

definition view_wf :: "dbview \<Rightarrow> bool" where
  "view_wf v \<longleftrightarrow>
     tables_wf (committed v) \<and> tables_wf (current v) \<and>
     tickets_valid (committed v) \<and> tickets_valid (current v)"

lemma ids_ok_snoc: "ids_ok is n \<Longrightarrow> 0 \<le> n \<Longrightarrow> ids_ok (is @ [n + 1]) (n + 1)"
  by (fastforce simp: ids_ok_def)

lemma ids_ok_filter: "ids_ok (map fst xs) n \<Longrightarrow> ids_ok (map fst (filter P xs)) n"
  by (auto simp: ids_ok_def distinct_map intro: inj_on_subset)

lemma table_write_wf: "table_write st t = Some (t', r) \<Longrightarrow> tables_wf t \<Longrightarrow> tables_wf t'"
  by (cases st)
     (auto simp: tables_wf_def ticket_list_def flight_list_def ids_ok_snoc ids_ok_filter
        split: option.splits if_splits)

lemma ids_ok_count:
  "ids_ok (map fst xs) n \<Longrightarrow>
   length (filter (\<lambda>x. fst x = i) xs) = (if i \<in> fst ` set xs then 1 else 0)"
proof (induction xs)
  case Nil
  then show ?case by simp
next
  case (Cons x xs)
  then have "ids_ok (map fst xs) n" "fst x \<notin> fst ` set xs" by (auto simp: ids_ok_def)
  with Cons.IH show ?case by auto
qed

lemma rollback_simps [simp]:
  "committed (rollback v) = committed v" "current (rollback v) = committed v"
  "pending (rollback v) = None" "rollback (rollback v) = rollback v"
  by (simp_all add: rollback_def current_def)

lemma current_no_pending: "pending v = None \<Longrightarrow> current v = committed v"
  by (simp add: current_def)

lemma view_wf_rollback [simp]: "view_wf v \<Longrightarrow> view_wf (rollback v)"
  by (simp add: view_wf_def)

lemma unharmed_wf: "unharmed rc v v' \<Longrightarrow> view_wf v \<Longrightarrow> view_wf v'"
  by (auto simp: unharmed_def)

lemma unharmed_rollback: "unharmed rc v v' \<Longrightarrow> rollback v' = rollback v"
  by (auto simp: unharmed_def)

end
