(* ===== verification/SqliteRef.thy ===== *)
theory SqliteRef
  imports Sqlite
begin

text \<open>
  A small SQL engine with the interface of \<open>Sqlite\<close>: it reads the texts of the program's
  statements and applies them to two tables.  It shows that the predicates on the library can
  hold together, and it is the instance at which the properties are evaluated.
\<close>

section \<open>Reading the texts\<close>

fun strip :: "string \<Rightarrow> string \<Rightarrow> string option" where
  "strip [] s = Some s"
| "strip (p # ps) [] = None"
| "strip (p # ps) (c # s) = (if p = c then strip ps s else None)"

lemma strip_append [simp]: "strip p (p @ s) = Some s"
  by (induction p) auto

definition read_nat :: "string \<Rightarrow> (nat \<times> string) option" where
  "read_nat s = (let (ds, r) = span_digits s in if ds = [] then None else Some (num_val ds, r))"

definition read_int :: "string \<Rightarrow> (int \<times> string) option" where
  "read_int s =
     (case s of
        [] \<Rightarrow> None
      | c # cs \<Rightarrow>
          if c = CHR ''-'' then map_option (\<lambda>(n, r). (- int n, r)) (read_nat cs)
          else map_option (\<lambda>(n, r). (int n, r)) (read_nat (c # cs)))"

definition no_digit :: "string \<Rightarrow> bool" where
  "no_digit r = (case r of [] \<Rightarrow> True | c # _ \<Rightarrow> \<not> is_digit c)"

lemma read_nat_dec: "no_digit r \<Longrightarrow> read_nat (dec_nat n @ r) = Some (n, r)"
  by (simp add: read_nat_def no_digit_def span_digits_dec_nat)

lemma read_int_dec: "no_digit r \<Longrightarrow> read_int (dec i @ r) = Some (i, r)"
proof (cases "i < 0")
  case True
  then show "no_digit r \<Longrightarrow> ?thesis" by (simp add: read_int_def dec_def read_nat_dec)
next
  case False
  obtain c cs where c: "dec_nat (nat i) = c # cs" by (cases "dec_nat (nat i)") auto
  then have "is_digit c" using dec_nat_digits [of "nat i"] by simp
  then have "c \<noteq> CHR ''-''" by (auto simp: is_digit_def)
  then show "no_digit r \<Longrightarrow> ?thesis"
    using False c read_nat_dec [of r "nat i"] by (simp add: read_int_def dec_def)
qed

lemma no_digit_simps [simp]: "no_digit []" "no_digit (c # r) = (\<not> is_digit c)"
  by (simp_all add: no_digit_def)

lemma is_digit_punct [simp]:
  "\<not> is_digit (CHR '','')" "\<not> is_digit (CHR '')'')" "\<not> is_digit (CHR '';'')"
  "\<not> is_digit (CHR '' '')"
  by (simp_all add: is_digit_def)

definition read_arg :: "string \<Rightarrow> string \<Rightarrow> (int \<Rightarrow> string \<Rightarrow> 'a option) \<Rightarrow> 'a option" where
  "read_arg p s f = (case strip p s of None \<Rightarrow> None
     | Some r \<Rightarrow> (case read_int r of None \<Rightarrow> None | Some (i, r') \<Rightarrow> f i r'))"

lemma read_arg_dec: "no_digit r \<Longrightarrow> read_arg p (p @ dec i @ r) f = f i r"
  by (simp add: read_arg_def read_int_dec)

definition at_end :: "string \<Rightarrow> string \<Rightarrow> 'a \<Rightarrow> 'a option" where
  "at_end e s x = (if s = e then Some x else None)"

definition orelse :: "'a option \<Rightarrow> 'a option \<Rightarrow> 'a option" where
  "orelse a b = (case a of None \<Rightarrow> b | Some x \<Rightarrow> Some x)"

lemma orelse_simps [simp]: "orelse None b = b" "orelse (Some x) b = Some x"
  by (simp_all add: orelse_def)

definition read_stmt :: "string \<Rightarrow> stmt option" where
  "read_stmt s =
     orelse (at_end (stmt_text Create_ticket) s Create_ticket)
    (orelse (at_end (stmt_text Create_flight) s Create_flight)
    (orelse (at_end ''BEGIN TRANSACTION;'' s Begin_transaction)
    (orelse (at_end ''END TRANSACTION;'' s End_transaction)
    (orelse (read_arg ''INSERT INTO flight (departure,origin,destination) VALUES ('' s
              (\<lambda>dep r. read_arg '','' r (\<lambda>og r. read_arg '','' r
                 (\<lambda>dest r. at_end '');'' r (Insert_flight dep og dest)))))
    (orelse (read_arg ''INSERT INTO ticket (flightid) VALUES ('' s
              (\<lambda>f r. at_end '');'' r (Insert_ticket f)))
            (read_arg ''DELETE FROM ticket where resid = '' s
              (\<lambda>i r. at_end '';'' r (Delete_ticket i))))))))"

definition read_script :: "string \<Rightarrow> stmt list option" where
  "read_script s =
     orelse (at_end (script_text creation) s creation) (map_option (\<lambda>st. [st]) (read_stmt s))"

definition read_query :: "string \<Rightarrow> query option" where
  "read_query s =
     orelse (read_arg ''SELECT COUNT(*) FROM flight WHERE id = '' s
              (\<lambda>i r. at_end '' '' r (Count_flight i)))
    (orelse (at_end ''SELECT * FROM flight'' s (Select_flight None None))
    (orelse (read_arg ''SELECT * FROM flight WHERE destination = '' s
              (\<lambda>d r. at_end [] r (Select_flight None (Some d))))
            (read_arg ''SELECT * FROM flight WHERE origin = '' s
              (\<lambda>og r. orelse (at_end [] r (Select_flight (Some og) None))
                 (read_arg '' AND destination = '' r
                    (\<lambda>d r. at_end [] r (Select_flight (Some og) (Some d))))))))"

lemma read_arg_dec_end: "read_arg p (p @ dec i) f = f i []"
  using read_arg_dec [of "[]" p i f] by (simp only: append_Nil2 no_digit_simps simp_thms)

lemma read_arg_Cons_dec:
  "no_digit r \<Longrightarrow> read_arg [c] (c # dec i @ r) f = f i r"
  using read_arg_dec [of r "[c]" i f] by simp

lemma read_arg_miss: "strip p s = None \<Longrightarrow> read_arg p s f = None"
  by (simp add: read_arg_def)

lemma read_stmt_text: "read_stmt (stmt_text st) = Some st"
proof (cases st)
  case (Insert_flight dep og dest)
  have "read_arg ''INSERT INTO flight (departure,origin,destination) VALUES ('' (stmt_text st)
      (\<lambda>dep r. read_arg '','' r (\<lambda>og r. read_arg '','' r
         (\<lambda>dest r. at_end '');'' r (Insert_flight dep og dest)))) = Some st"
    unfolding Insert_flight stmt_text.simps
    by (subst read_arg_dec) (simp_all add: read_arg_Cons_dec at_end_def)
  then show ?thesis using Insert_flight by (simp add: read_stmt_def at_end_def)
next
  case (Insert_ticket f)
  have "read_arg ''INSERT INTO ticket (flightid) VALUES ('' (stmt_text st)
      (\<lambda>f r. at_end '');'' r (Insert_ticket f)) = Some st"
    unfolding Insert_ticket stmt_text.simps by (subst read_arg_dec) (simp_all add: at_end_def)
  then show ?thesis using Insert_ticket by (simp add: read_stmt_def at_end_def read_arg_miss)
next
  case (Delete_ticket r)
  have "read_arg ''DELETE FROM ticket where resid = '' (stmt_text st)
      (\<lambda>i r. at_end '';'' r (Delete_ticket i)) = Some st"
    unfolding Delete_ticket stmt_text.simps by (subst read_arg_dec) (simp_all add: at_end_def)
  then show ?thesis using Delete_ticket by (simp add: read_stmt_def at_end_def read_arg_miss)
qed (simp_all add: read_stmt_def at_end_def read_arg_miss)

lemma creation_text: "stmt_text st \<noteq> script_text creation"
  by (cases st) (simp_all add: script_text_def creation_def)

lemma read_script_text:
  assumes "program_script ss"
  shows "read_script (script_text ss) = Some ss"
  using assms
proof (cases rule: program_script_cases)
  case (1 st)
  then show ?thesis by (simp add: read_script_def at_end_def creation_text read_stmt_text)
qed (simp add: read_script_def at_end_def)

lemma read_script_stmt: "read_script (stmt_text st) = Some [st]"
  using read_script_text [of "[st]"] by simp

lemma read_query_text: "read_query (query_text qy) = Some qy"
proof (cases qy)
  case (Count_flight i)
  have "read_arg ''SELECT COUNT(*) FROM flight WHERE id = '' (query_text qy)
      (\<lambda>i r. at_end '' '' r (Count_flight i)) = Some qy"
    unfolding Count_flight query_text.simps by (subst read_arg_dec) (simp_all add: at_end_def)
  then show ?thesis using Count_flight by (simp add: read_query_def)
next
  case (Select_flight og dest)
  show ?thesis
  proof (cases og)
    case None
    then show ?thesis
    proof (cases dest)
      case (Some d)
      have "read_arg ''SELECT * FROM flight WHERE destination = '' (query_text qy)
          (\<lambda>d r. at_end [] r (Select_flight None (Some d))) = Some qy"
        unfolding Select_flight None Some query_text.simps read_arg_dec_end by (simp add: at_end_def)
      with Select_flight None Some show ?thesis
        by (simp add: read_query_def at_end_def read_arg_miss)
    qed (simp add: Select_flight read_query_def at_end_def read_arg_miss)
  next
    case o1: (Some x)
    let ?f = "\<lambda>og r. orelse (at_end [] r (Select_flight (Some og) None))
                 (read_arg '' AND destination = '' r
                    (\<lambda>d r. at_end [] r (Select_flight (Some og) (Some d))))"
    have "read_arg ''SELECT * FROM flight WHERE origin = '' (query_text qy) ?f = Some qy"
    proof (cases dest)
      case None
      show ?thesis
        unfolding Select_flight None o1 query_text.simps read_arg_dec_end by (simp add: at_end_def)
    next
      case (Some d)
      have "read_arg '' AND destination = '' ('' AND destination = '' @ dec d)
          (\<lambda>d r. at_end [] r (Select_flight (Some x) (Some d))) = Some qy"
        unfolding Select_flight Some o1 read_arg_dec_end by (simp add: at_end_def)
      then show ?thesis
        unfolding Select_flight Some o1 query_text.simps
        by (subst read_arg_dec) (simp_all add: at_end_def)
    qed
    with Select_flight o1 show ?thesis
      by (cases dest) (simp_all add: read_query_def at_end_def read_arg_miss)
  qed
qed

section \<open>The engine\<close>

text \<open>The state: the tables as the connection sees them, whether the file exists, what was printed.\<close>

record ref_state =
  ref_view :: dbview
  ref_file :: bool
  ref_console :: string

type_synonym ref_stmt = "int list list \<times> int list option \<times> bool"

primrec run_script :: "stmt list \<Rightarrow> dbview \<Rightarrow> bool \<times> dbview" where
  "run_script [] v = (True, v)"
| "run_script (st # ss) v = (case stmt_exec st v of None \<Rightarrow> (False, v) | Some w \<Rightarrow> run_script ss w)"

definition ref_exec :: "string \<Rightarrow> ref_state \<Rightarrow> int \<times> ref_state" where
  "ref_exec s h =
     (case read_script s of
        None \<Rightarrow> (SQLITE_ERROR, h)
      | Some ss \<Rightarrow> (case run_script ss (ref_view h) of (ok, v) \<Rightarrow>
          (if ok then SQLITE_OK else SQLITE_ERROR, h\<lparr>ref_view := v\<rparr>)))"

lemma run_script_exec: "script_exec ss v = (if fst (run_script ss v) then Some (snd (run_script ss v)) else None)"
  by (induction ss arbitrary: v) (auto simp del: stmt_exec.simps split: option.split)

lemma run_script_stops: "run_script ss v = (False, v') \<Longrightarrow> stopped rc ss v v'"
  by (induction ss arbitrary: v) (auto simp: unharmed_def simp del: stmt_exec.simps split: option.splits)

lemma ref_exec_stmt:
  "ref_exec (stmt_text st) h =
     (case stmt_exec st (ref_view h) of
        None \<Rightarrow> (SQLITE_ERROR, h)
      | Some v \<Rightarrow> (SQLITE_OK, h\<lparr>ref_view := v\<rparr>))"
  by (cases h) (simp add: ref_exec_def read_script_stmt del: stmt_exec.simps split: option.split)

definition ref_prepare :: "string \<Rightarrow> ref_state \<Rightarrow> int \<times> ref_stmt \<times> ref_state" where
  "ref_prepare s h =
     (case read_query s of
        None \<Rightarrow> (SQLITE_ERROR, ([], None, False), h)
      | Some qy \<Rightarrow>
          (case query_rows qy (ref_view h) of
             None \<Rightarrow> (SQLITE_ERROR, ([], None, False), h)
           | Some rows \<Rightarrow> (SQLITE_OK, (rows, None, True), h)))"

fun ref_step :: "ref_stmt \<Rightarrow> ref_state \<Rightarrow> int \<times> ref_stmt \<times> ref_state" where
  "ref_step ([], r, g) h = (SQLITE_DONE, ([], None, True), h)"
| "ref_step (row # rows, r, g) h = (SQLITE_ROW, (rows, Some row, True), h)"

fun ref_column_int :: "ref_stmt \<Rightarrow> nat \<Rightarrow> i32" where
  "ref_column_int (rows, Some row, g) i = (if i < length row then word_of_int (row ! i) else 0)"
| "ref_column_int (rows, None, g) i = 0"

definition ref_open :: "string \<Rightarrow> ref_state \<Rightarrow> int \<times> ref_state" where
  "ref_open path h =
     (SQLITE_OK,
      h\<lparr>ref_view := \<lparr>committed = committed (ref_view h), pending = None, last_rowid = 0\<rparr>,
        ref_file := True\<rparr>)"

definition ref_access :: "string \<Rightarrow> ref_state \<Rightarrow> int" where
  "ref_access path h = (if ref_file h \<or> committed (ref_view h) \<noteq> no_tables then 0 else -1)"

definition ref_api :: "(ref_state, ref_stmt) sqlite" where
  "ref_api =
     \<lparr>api_open = ref_open,
      api_close = (\<lambda>h. h\<lparr>ref_view := rollback (ref_view h)\<rparr>),
      api_exec = ref_exec,
      api_last_insert_rowid = (\<lambda>h. word_of_int (last_rowid (ref_view h))),
      api_prepare_v2 = ref_prepare,
      api_step = ref_step,
      api_column_int = ref_column_int,
      api_finalize = (\<lambda>q h. (SQLITE_OK, h)),
      api_errmsg = (\<lambda>h. ''error''),
      api_exec_err = (\<lambda>sql h. ''error''),
      api_free = (\<lambda>msg h. h),
      api_printf = (\<lambda>msg h. h\<lparr>ref_console := ref_console h @ msg\<rparr>),
      file_access = ref_access\<rparr>"

definition ref_reading :: "(ref_state, ref_stmt) reading" where
  "ref_reading = \<lparr>view = ref_view, stmt_rows = map (map SInteger) \<circ> fst,
     stmt_row = map_option (map SInteger) \<circ> (fst \<circ> snd), stmt_good = snd \<circ> snd,
     cast_integer = (\<lambda>_. 0), console = ref_console\<rparr>"

lemma ref_step_cases:
  "ref_step q h = (if fst q = [] then (SQLITE_DONE, ([], None, True), h)
     else (SQLITE_ROW, (tl (fst q), Some (hd (fst q)), True), h))"
  by (cases "(q, h)" rule: ref_step.cases) auto

lemma ref_sqlite_ok: "sqlite_ok ref_api ref_reading"
  unfolding sqlite_ok_def
proof (intro conjI)
  show "exec_spec ref_api ref_reading"
    by (auto simp: exec_spec_def ref_api_def ref_reading_def ref_exec_def read_script_text run_script_exec
        result_codes intro: run_script_stops split: prod.splits if_splits)
  show "close_spec ref_api ref_reading"
    by (simp add: close_spec_def ref_api_def ref_reading_def)
  show "last_insert_rowid_spec ref_api ref_reading"
    by (simp add: last_insert_rowid_spec_def ref_api_def ref_reading_def)
  show "open_spec ref_api ref_reading"
    by (auto simp: open_spec_def ref_api_def ref_reading_def ref_open_def)
  show "prepare_spec ref_api ref_reading"
    by (auto simp: prepare_spec_def ref_api_def ref_reading_def ref_prepare_def read_query_text data_count_def
        query_values_def        unharmed_def result_codes split: option.splits)
  show "step_spec ref_api ref_reading"
    by (auto simp: step_spec_def ref_api_def ref_reading_def ref_step_cases result_codes data_count_def map_tl
        hd_map split: if_splits)
  show "column_int_spec ref_api ref_reading"
    by (auto simp: column_int_spec_def ref_api_def ref_reading_def data_count_def column_int_def column_int64_def)
  show "finalize_spec ref_api ref_reading"
    by (simp add: finalize_spec_def ref_api_def ref_reading_def)
  show "access_spec ref_api ref_reading"
    by (simp add: access_spec_def ref_api_def ref_reading_def ref_access_def)
  show "free_spec ref_api ref_reading"
    by (simp add: free_spec_def ref_api_def ref_reading_def)
  show "printf_spec ref_api ref_reading"
    by (simp add: printf_spec_def ref_api_def ref_reading_def ref_open_def ref_exec_def ref_prepare_def
        ref_step_cases split: option.split prod.split)
qed

lemma ref_sqlite_ready: "sqlite_ready ref_api ref_reading"
  using ref_exec_stmt [of Begin_transaction]
  by (auto simp: sqlite_ready_def queries_ready_def ref_api_def ref_reading_def ref_open_def ref_exec_def ref_prepare_def
      read_script_text run_script_exec read_query_text ref_step_cases split: option.splits prod.splits if_splits)

lemma ref_exec_console: "ref_console (snd (api_exec ref_api sql h)) = ref_console h"
  by (simp add: ref_api_def ref_exec_def split: option.split prod.split)

lemma view_ref [simp]: "view ref_reading = ref_view" "console ref_reading = ref_console"
  by (simp_all add: ref_reading_def)

text \<open>Example states: two flights, one ticket.\<close>

definition ex_tables :: tables where
  "ex_tables = \<lparr>tickets = Some [(1, 1)], flights = Some [(1, 10, 20, 30), (2, 15, 20, 31)],
     seq_ticket = 1, seq_flight = 2\<rparr>"

definition ex_state :: ref_state where
  "ex_state = \<lparr>ref_view = \<lparr>committed = ex_tables, pending = None, last_rowid = 0\<rparr>,
     ref_file = True, ref_console = []\<rparr>"

lemma ex_state_wf: "view_wf (ref_view ex_state)"
  by (simp add: ex_state_def ex_tables_def view_wf_def tables_wf_def tickets_valid_def ticket_list_def
      flight_list_def ids_ok_def current_def)

end
