(* ===== verification/Database.thy ===== *)
theory Database
  imports SqliteRef
begin

text \<open>
  \<open>server/db/database.c\<close>: flights and tickets in an SQLite database.  The global \<open>db\<close> is part of
  the library state \<open>'h\<close>; the macros that check a result code, close the database and exit are
  functions of their own.  The standard output of the process is part of \<open>'h\<close>
  too: the error messages go there.

  Two sources of arbitrary bytes are parameters: \<open>heap\<close> (a block fresh from \<open>malloc\<close>) and
  \<open>stack\<close> (an uninitialised local variable).
\<close>

record junk =
  heap :: "nat \<Rightarrow> char"
  stack :: "nat \<Rightarrow> char"

definition QUERY_SIZE :: nat where [layout]: "QUERY_SIZE = 128"

section \<open>The macros\<close>

text \<open>\<open>printf\<close> with the prefix of the component; every use of it has at least one argument.\<close>

definition db_printf :: "('h, 'q) sqlite \<Rightarrow> string \<Rightarrow> carg list \<Rightarrow> 'h \<Rightarrow> unit cres \<times> 'h" where
  "db_printf api msg as h =
     (case format (''[DATABASE] '' @ msg) as of
        None \<Rightarrow> (Crash, h)
      | Some s \<Rightarrow> (Val (), api_printf api s h))"

definition DB_PREPARE_STATEMENT :: "('h, 'q) sqlite \<Rightarrow> string \<Rightarrow> 'h \<Rightarrow> 'q cres \<times> 'h" where
  "DB_PREPARE_STATEMENT api query h =
     (case api_prepare_v2 api query h of (rc, statement, h) \<Rightarrow>
        if rc \<noteq> SQLITE_OK then
          sbind (db_printf api (''Couldn't prepare database: %s'' @ nl) [AStr (api_errmsg api h)] h)
            (\<lambda>_ h. (Exit 1, api_close api h))
        else (Val statement, h))"

definition DB_FINALIZE_STATEMENT :: "('h, 'q) sqlite \<Rightarrow> 'q \<Rightarrow> 'h \<Rightarrow> unit cres \<times> 'h" where
  "DB_FINALIZE_STATEMENT api statement h =
     (case api_finalize api statement h of (rc, h) \<Rightarrow>
        if rc \<noteq> SQLITE_OK then
          sbind (db_printf api (''Couldn't finalize statement: %s'' @ nl) [AStr (api_errmsg api h)] h)
            (\<lambda>_ h. (Exit 1, api_close api h))
        else (Val (), h))"

definition DB_EXEC :: "('h, 'q) sqlite \<Rightarrow> string \<Rightarrow> 'h \<Rightarrow> unit cres \<times> 'h" where
  "DB_EXEC api query h =
     (let err_msg = api_exec_err api query h in
      case api_exec api query h of (rc, h) \<Rightarrow>
        if rc \<noteq> SQLITE_OK then
          sbind (db_printf api (''SQL error: %s'' @ nl) [AStr err_msg] h)
            (\<lambda>_ h. (Exit 1, api_close api (api_free api err_msg h)))
        else (Val (), h))"

definition SQLITE_STATEMENT_EXPECT ::
    "('h, 'q) sqlite \<Rightarrow> int \<Rightarrow> int \<Rightarrow> 'h \<Rightarrow> unit cres \<times> 'h" where
  "SQLITE_STATEMENT_EXPECT api rc expect h =
     (if rc \<noteq> expect then
        sbind (db_printf api (''Couldn't step through statement: %s'' @ nl) [AStr (api_errmsg api h)] h)
          (\<lambda>_ h. (Exit 1, api_close api h))
      else (Val (), h))"

text \<open>\<open>sprintf (query, ...)\<close> into the local array \<open>char query[128]\<close>.\<close>

definition query_buf :: "string \<Rightarrow> carg list \<Rightarrow> 'h \<Rightarrow> string cres \<times> 'h" where
  "query_buf fmt as h = (deref (sprintf QUERY_SIZE fmt as), h)"

section \<open>The operations\<close>

definition db_file_exist :: "('h, 'q) sqlite \<Rightarrow> string \<Rightarrow> 'h \<Rightarrow> bool" where
  "db_file_exist api path h = (file_access api path h = 0)"

text \<open>
  The literals follow each other without a semicolon between them, so \<open>sql\<close> is one text with both
  statements, run by one \<open>sqlite3_exec\<close> outside any transaction.
\<close>

definition db_create :: "('h, 'q) sqlite \<Rightarrow> 'h \<Rightarrow> unit cres \<times> 'h" where
  "db_create api h =
     (let sql = ''CREATE TABLE ticket('' @
                ''resid    INTEGER  PRIMARY KEY AUTOINCREMENT,'' @
                ''flightid INTEGER              NOT NULL );'' @
                ''CREATE TABLE flight('' @
                ''id             INTEGER PRIMARY KEY AUTOINCREMENT,'' @
                ''departure      INTEGER                NOT NULL,'' @
                ''origin         INTEGER                NOT NULL,'' @
                ''destination    INTEGER                NOT NULL );''
      in let err_msg = api_exec_err api sql h
      in case api_exec api sql h of (rc, h) \<Rightarrow>
           if rc \<noteq> SQLITE_OK then
             sbind (db_printf api (''SQL error: %s'' @ nl) [AStr err_msg] h)
               (\<lambda>_ h. (Exit 1, api_close api (api_free api err_msg h)))
           else (Val (), h))"

definition db_flight_exists :: "('h, 'q) sqlite \<Rightarrow> i32 \<Rightarrow> 'h \<Rightarrow> bool cres \<times> 'h" where
  "db_flight_exists api fid h =
     sbind (query_buf ''SELECT COUNT(*) FROM flight WHERE id = %d '' [AInt fid] h) (\<lambda>query h.
     sbind (DB_PREPARE_STATEMENT api query h) (\<lambda>statement h.
       case api_step api statement h of (rc, statement, h) \<Rightarrow>
         sbind (SQLITE_STATEMENT_EXPECT api rc SQLITE_ROW h) (\<lambda>_ h.
           let rowcount = api_column_int api statement 0 in
           case api_step api statement h of (rc, statement, h) \<Rightarrow>
             sbind (SQLITE_STATEMENT_EXPECT api rc SQLITE_DONE h) (\<lambda>_ h.
             sbind (DB_FINALIZE_STATEMENT api statement h) (\<lambda>_ h.
               (Val (rowcount = 1), h))))))"

definition db_open :: "('h, 'q) sqlite \<Rightarrow> string \<Rightarrow> 'h \<Rightarrow> int cres \<times> 'h" where
  "db_open api path h =
     (let has_to_populate = \<not> db_file_exist api path h in
      case api_open api path h of (rc, h) \<Rightarrow>
        if rc \<noteq> SQLITE_OK then
          sbind (db_printf api (''Can't open database: %s'' @ nl) [AStr (api_errmsg api h)] h)
            (\<lambda>_ h. (Val 1, h))
        else
          sbind (if has_to_populate then
                   sbind (db_printf api (''%s'' @ nl) [AStr ''Database does not exist. Creating...''] h)
                     (\<lambda>_ h. db_create api h)
                 else (Val (), h)) (\<lambda>_ h.
          sbind (db_printf api (''%s'' @ nl) [AStr ''Opened database successfully''] h) (\<lambda>_ h.
            (Val 0, h))))"

definition db_close :: "('h, 'q) sqlite \<Rightarrow> 'h \<Rightarrow> 'h" where
  "db_close api h = api_close api h"

definition db_add_flight :: "('h, 'q) sqlite \<Rightarrow> i64 \<Rightarrow> i32 \<Rightarrow> i32 \<Rightarrow> 'h \<Rightarrow> i32 cres \<times> 'h" where
  "db_add_flight api departure origin destination h =
     sbind (query_buf ''INSERT INTO flight (departure,origin,destination) VALUES (%ld,%d,%d);''
              [ALong departure, AInt origin, AInt destination] h) (\<lambda>query h.
     sbind (DB_EXEC api query h) (\<lambda>_ h.
       (Val (ucast (api_last_insert_rowid api h)), h)))"

definition add_ticket :: "('h, 'q) sqlite \<Rightarrow> i32 \<Rightarrow> 'h \<Rightarrow> i32 cres \<times> 'h" where
  "add_ticket api fid h =
     sbind (query_buf ''INSERT INTO ticket (flightid) VALUES (%d);'' [AInt fid] h) (\<lambda>query h.
     sbind (DB_EXEC api query h) (\<lambda>_ h.
       (Val (ucast (api_last_insert_rowid api h)), h)))"

definition remove_ticket :: "('h, 'q) sqlite \<Rightarrow> i32 \<Rightarrow> 'h \<Rightarrow> bool cres \<times> 'h" where
  "remove_ticket api rid h =
     sbind (query_buf ''DELETE FROM ticket where resid = %d;'' [AInt rid] h) (\<lambda>query h.
     sbind (DB_EXEC api query h) (\<lambda>_ h. (Val True, h)))"

text \<open>The result codes of \<open>BEGIN\<close> and \<open>END\<close> are not looked at.\<close>

definition db_purchase :: "('h, 'q) sqlite \<Rightarrow> i32 \<Rightarrow> 'h \<Rightarrow> i32 cres \<times> 'h" where
  "db_purchase api fid h =
     (let h = snd (api_exec api ''BEGIN TRANSACTION;'' h) in
      sbind (db_flight_exists api fid h) (\<lambda>found h.
        if \<not> found then (Val (-1), h)
        else sbind (add_ticket api fid h) (\<lambda>ans h.
               let h = snd (api_exec api ''END TRANSACTION;'' h) in (Val ans, h))))"

text \<open>
  The loop over the result rows: it has no bound of its own and may not end, so not returning is
  \<open>None\<close>.  Each row is written at \<open>dg_results[rowcount]\<close> of the datagram's block, unchecked: where the
  C program goes on after a write past the block, its behaviour is undefined, and the model stops
  there (\<open>Crash\<close>).
\<close>

definition DB_COL_FLIGHTID :: nat where [csimps]: "DB_COL_FLIGHTID = 0"
definition DB_COL_DEPARTURE :: nat where [csimps]: "DB_COL_DEPARTURE = 1"
definition DB_COL_ORIGIN :: nat where [csimps]: "DB_COL_ORIGIN = 2"
definition DB_COL_DESTINATION :: nat where [csimps]: "DB_COL_DESTINATION = 3"

definition row_entry :: "('h, 'q) sqlite \<Rightarrow> (nat \<Rightarrow> char) \<Rightarrow> 'q \<Rightarrow> db_entry" where
  "row_entry api stk statement =
     (entry_of (alloc stk SIZEOF_ENTRY))
       \<lparr>fl_id := api_column_int api statement DB_COL_FLIGHTID,
        fl_departure := scast (api_column_int api statement DB_COL_DEPARTURE),
        fl_origin := api_column_int api statement DB_COL_ORIGIN,
        fl_destination := api_column_int api statement DB_COL_DESTINATION\<rparr>"

partial_function (option) consult_loop ::
    "('h, 'q) sqlite \<Rightarrow> (nat \<Rightarrow> char) \<Rightarrow> nat \<Rightarrow> datagram \<Rightarrow> 'q \<Rightarrow> 'h \<Rightarrow>
     ((int \<times> nat \<times> datagram \<times> 'q) cres \<times> 'h) option" where
  "consult_loop api stk rowcount dg statement h =
     (case api_step api statement h of (rc, statement, h) \<Rightarrow>
        if rc = SQLITE_ROW then
          (case put_result rowcount (row_entry api stk statement) dg of
             None \<Rightarrow> Some (Crash, h)
           | Some dg \<Rightarrow> consult_loop api stk (Suc rowcount) dg statement h)
        else Some (Val (rc, rowcount, dg, statement), h))"

definition consult_query :: "i32 \<Rightarrow> i32 \<Rightarrow> 'h \<Rightarrow> string cres \<times> 'h" where
  "consult_query origin destination h =
     (if origin = -1 \<and> destination = -1 then query_buf ''SELECT * FROM flight'' [] h
      else if origin = -1 then
        query_buf ''SELECT * FROM flight WHERE destination = %d'' [AInt destination] h
      else if destination = -1 then
        query_buf ''SELECT * FROM flight WHERE origin = %d'' [AInt origin] h
      else
        query_buf ''SELECT * FROM flight WHERE origin = %d AND destination = %d''
          [AInt origin, AInt destination] h)"

definition consult_finish ::
    "build \<Rightarrow> (nat \<Rightarrow> char) \<Rightarrow> nat \<Rightarrow> datagram \<Rightarrow> datagram" where
  "consult_finish b hp rowcount dg =
     (let size = SIZEOF_DG b + rowcount * SIZEOF_ENTRY in
      dg\<lparr>dg_data := word_of_nat rowcount, dg_size := word_of_nat size,
         dg_opcode := opc OP_CONSULT, dg_raw := realloc hp (dg_raw dg) (size - HDR b)\<rparr>)"

definition db_consult_flights ::
    "build \<Rightarrow> junk \<Rightarrow> ('h, 'q) sqlite \<Rightarrow> i32 \<Rightarrow> i32 \<Rightarrow> 'h \<Rightarrow> (datagram cres \<times> 'h) option" where
  "db_consult_flights b jk api origin destination h =
     (case sbind (consult_query origin destination h) (\<lambda>query h. DB_PREPARE_STATEMENT api query h) of
        (Exit n, h) \<Rightarrow> Some (Exit n, h)
      | (Crash, h) \<Rightarrow> Some (Crash, h)
      | (Val statement, h) \<Rightarrow>
          (let dg = malloc_dg b (heap jk) DATAGRAM_MAXSIZE in
           case consult_loop api (stack jk) 0 dg statement h of
             None \<Rightarrow> None
           | Some res \<Rightarrow> Some (
               sbind res (\<lambda>(rc, rowcount, dg, statement) h.
                 if rc \<noteq> SQLITE_DONE then
                   sbind (db_printf api (''Couldn't step through statement: %s'' @ nl)
                            [AStr (api_errmsg api h)] h)
                     (\<lambda>_ h. (Exit 1, api_close api h))
                 else sbind (DB_FINALIZE_STATEMENT api statement h) (\<lambda>_ h.
                        (Val (consult_finish b (heap jk) rowcount dg), h))))))"

definition db_cancel :: "('h, 'q) sqlite \<Rightarrow> i32 \<Rightarrow> 'h \<Rightarrow> bool cres \<times> 'h" where
  "db_cancel api rid h = remove_ticket api rid h"

end
