(* ===== verification/DatabaseLaws.thy ===== *)
theory DatabaseLaws
  imports Database
begin

text \<open>
  What the operations of \<open>server/db/database.c\<close> do to the tables, call by call: the lemmas the
  properties in \<open>Booking\<close> rest on.  For every operation there is one lemma that holds whatever
  the library returns (\<open>_outcome\<close>) and one that says which outcome a ready library gives.
\<close>

section \<open>The query texts\<close>

lemma query_buf_Val:
  assumes "format fmt as = Some s" "length s < 128"
  shows "query_buf fmt as h = (Val s, h)"
  using assms by (simp add: query_buf_def sprintf_def layout)

lemma dec_i32_less: "length (dec (sint (w::i32))) < 12"
  using length_dec_i32 [of w] by simp

lemma dec_i64_less: "length (dec (sint (w::i64))) < 21"
  using length_dec_i64 [of w] by simp

lemma query_count [csimps]:
  "query_buf ''SELECT COUNT(*) FROM flight WHERE id = %d '' [AInt fid] h =
     (Val (query_text (Count_flight (sint fid))), h)"
  using dec_i32_less [of fid] by (intro query_buf_Val) simp_all

lemma query_insert_flight [csimps]:
  "query_buf ''INSERT INTO flight (departure,origin,destination) VALUES (%ld,%d,%d);''
     [ALong dep, AInt og, AInt dest] h =
     (Val (stmt_text (Insert_flight (sint dep) (sint og) (sint dest))), h)"
  using dec_i64_less [of dep] dec_i32_less [of og] dec_i32_less [of dest]
  by (intro query_buf_Val) simp_all

lemma query_insert_ticket [csimps]:
  "query_buf ''INSERT INTO ticket (flightid) VALUES (%d);'' [AInt fid] h =
     (Val (stmt_text (Insert_ticket (sint fid))), h)"
  using dec_i32_less [of fid] by (intro query_buf_Val) simp_all

lemma query_delete_ticket [csimps]:
  "query_buf ''DELETE FROM ticket where resid = %d;'' [AInt rid] h =
     (Val (stmt_text (Delete_ticket (sint rid))), h)"
  using dec_i32_less [of rid] by (intro query_buf_Val) simp_all

definition any_airport :: "i32 \<Rightarrow> int option" where
  "any_airport a = (if a = -1 then None else Some (sint a))"

lemma query_select [csimps]:
  "consult_query og dest h =
     (Val (query_text (Select_flight (any_airport og) (any_airport dest))), h)"
  using dec_i32_less [of og] dec_i32_less [of dest]
  by (cases "og = -1"; cases "dest = -1")
     (simp_all add: consult_query_def any_airport_def query_buf_Val)

lemma text_begin [csimps]: "''BEGIN TRANSACTION;'' = stmt_text Begin_transaction"
  by simp

lemma text_end [csimps]: "''END TRANSACTION;'' = stmt_text End_transaction"
  by simp

text \<open>From here on a text stands for its statement and is not taken apart.\<close>

declare stmt_text.simps [simp del] query_text.simps [simp del]

section \<open>The macros\<close>

text \<open>What the component prints.\<close>

definition db_report :: "('h, 'q) sqlite \<Rightarrow> string \<Rightarrow> string \<Rightarrow> 'h \<Rightarrow> 'h" where
  "db_report api what x h = api_printf api (''[DATABASE] '' @ what @ x @ nl) h"

lemma db_printf_lines:
  "db_printf api (''Couldn't prepare database: %s'' @ nl) [AStr x] h =
     (Val (), db_report api ''Couldn't prepare database: '' x h)"
  "db_printf api (''Couldn't finalize statement: %s'' @ nl) [AStr x] h =
     (Val (), db_report api ''Couldn't finalize statement: '' x h)"
  "db_printf api (''SQL error: %s'' @ nl) [AStr x] h = (Val (), db_report api ''SQL error: '' x h)"
  "db_printf api (''Couldn't step through statement: %s'' @ nl) [AStr x] h =
     (Val (), db_report api ''Couldn't step through statement: '' x h)"
  "db_printf api (''Can't open database: %s'' @ nl) [AStr x] h =
     (Val (), db_report api ''Can't open database: '' x h)"
  "db_printf api (''%s'' @ nl) [AStr x] h = (Val (), db_report api [] x h)"
  by (simp_all add: db_printf_def db_report_def nl_def)

lemma db_report_view: "sqlite_ok api rd \<Longrightarrow> view rd (db_report api what x h) = view rd h"
  by (simp add: db_report_def report_view)

lemmas quiet_views = report_view db_report_view

text \<open>The macros with their messages written out.\<close>

lemma DB_PREPARE_STATEMENT_eq:
  "DB_PREPARE_STATEMENT api query h =
     (case api_prepare_v2 api query h of (rc, q, h) \<Rightarrow>
        if rc \<noteq> SQLITE_OK
        then (Exit 1, api_close api (db_report api ''Couldn't prepare database: '' (api_errmsg api h) h))
        else (Val q, h))"
  unfolding DB_PREPARE_STATEMENT_def db_printf_lines sbind.simps by (rule refl)

lemma DB_FINALIZE_STATEMENT_eq:
  "DB_FINALIZE_STATEMENT api q h =
     (case api_finalize api q h of (rc, h) \<Rightarrow>
        if rc \<noteq> SQLITE_OK
        then (Exit 1, api_close api (db_report api ''Couldn't finalize statement: '' (api_errmsg api h) h))
        else (Val (), h))"
  unfolding DB_FINALIZE_STATEMENT_def db_printf_lines sbind.simps by (rule refl)

lemma DB_EXEC_eq:
  "DB_EXEC api query h =
     (case api_exec api query h of (rc, h') \<Rightarrow>
        if rc \<noteq> SQLITE_OK
        then (Exit 1, api_close api (api_free api (api_exec_err api query h)
               (db_report api ''SQL error: '' (api_exec_err api query h) h')))
        else (Val (), h'))"
  unfolding DB_EXEC_def Let_def db_printf_lines sbind.simps by (rule refl)

lemma SQLITE_STATEMENT_EXPECT_eq:
  "SQLITE_STATEMENT_EXPECT api rc expect h =
     (if rc \<noteq> expect
      then (Exit 1, api_close api (db_report api ''Couldn't step through statement: '' (api_errmsg api h) h))
      else (Val (), h))"
  unfolding SQLITE_STATEMENT_EXPECT_def db_printf_lines sbind.simps by (rule refl)

lemmas db_consult_flights_eq = db_consult_flights_def [unfolded db_printf_lines sbind.simps]
lemmas db_open_eq = db_open_def [unfolded db_printf_lines sbind.simps]

lemma DB_EXEC_outcome:
  assumes "sqlite_ok api rd" "DB_EXEC api (stmt_text st) h = (r, h')"
  shows "(r = Val () \<and> stmt_exec st (view rd h) = Some (view rd h')) \<or>
    (r = Exit 1 \<and> view rd h' = rollback (view rd h) \<and>
     (sqlite_ready api rd \<longrightarrow> stmt_exec st (view rd h) = None))"
proof -
  obtain rc h1 where e: "api_exec api (stmt_text st) h = (rc, h1)" by force
  have "sqlite_ready api rd \<longrightarrow> stmt_exec st (view rd h) \<noteq> None \<longrightarrow> rc = SQLITE_OK"
    using ready_stmt [of api rd st h] e by simp
  then show ?thesis
    using exec_cases [OF assms(1) e] assms(2) close_view [OF assms(1)] unharmed_rollback
    by (auto simp: DB_EXEC_eq e quiet_views [OF assms(1)] split: if_splits)
qed

lemma prepare_outcome:
  assumes "sqlite_ok api rd" "DB_PREPARE_STATEMENT api (query_text qy) h = (r, h')"
  shows "(\<exists>q rows. r = Val q \<and> view rd h' = view rd h \<and> stmt_good rd q \<and>
      query_rows qy (view rd h) = Some rows \<and> mset rows = mset (int_rows rd q)) \<or>
    (r = Exit 1 \<and> view rd h' = rollback (view rd h) \<and>
     (queries_ready api rd \<longrightarrow> query_rows qy (view rd h) = None))"
proof -
  obtain rc q h1 where e: "api_prepare_v2 api (query_text qy) h = (rc, q, h1)"
    by (metis prod.collapse)
  have "queries_ready api rd \<longrightarrow> query_rows qy (view rd h) \<noteq> None \<longrightarrow> rc = SQLITE_OK"
    using query_rules(1) [of api rd qy h] e by simp
  then show ?thesis
    using prepare_cases [OF assms(1) e] assms(2) close_view [OF assms(1)] unharmed_rollback
    by (auto simp: DB_PREPARE_STATEMENT_eq e quiet_views [OF assms(1)] split: if_splits)
qed

lemma finalize_outcome:
  assumes "sqlite_ok api rd" "stmt_good rd q" "DB_FINALIZE_STATEMENT api q h = (r, h')"
  shows "r = Val () \<and> view rd h' = view rd h"
proof -
  obtain rc h1 where e: "api_finalize api q h = (rc, h1)" by force
  show ?thesis
    using finalize_cases [OF assms(1) e] assms(2,3) by (auto simp: DB_FINALIZE_STATEMENT_eq e)
qed

lemma expect_outcome:
  assumes "sqlite_ok api rd" "SQLITE_STATEMENT_EXPECT api rc e h = (r, h')"
  shows "(r = Val () \<and> rc = e \<and> h' = h) \<or>
    (r = Exit 1 \<and> rc \<noteq> e \<and> view rd h' = rollback (view rd h))"
  using assms(2) close_view [OF assms(1)]
  by (auto simp: SQLITE_STATEMENT_EXPECT_eq quiet_views [OF assms(1)] split: if_splits)

section \<open>Looking a flight up\<close>

definition flight_ids :: "tables \<Rightarrow> int set" where
  "flight_ids t = fst ` set (flight_list t)"

lemma count_rows:
  assumes "query_rows (Count_flight i) v = Some rows" "tables_wf (current v)"
  shows "rows = [[if i \<in> flight_ids (current v) then 1 else 0]]"
proof -
  obtain fs where fs: "flights (current v) = Some fs"
    and rows: "rows = [[int (length (filter (\<lambda>f. fst f = i) fs))]]"
    using assms(1) by auto
  have "ids_ok (map fst fs) (seq_flight (current v))"
    using assms(2) fs by (simp add: tables_wf_def flight_list_def)
  from ids_ok_count [OF this, of i] show ?thesis
    using rows fs by (simp add: flight_ids_def flight_list_def)
qed

lemma close_rolls_back:
  "sqlite_ok api rd \<Longrightarrow> unharmed rc (view rd h) (view rd h') \<Longrightarrow>
   view rd (api_close api h') = rollback (view rd h)"
  using close_view unharmed_rollback by metis

lemma step_row_outcome:
  assumes ok: "sqlite_ok api rd" and s: "api_step api q h = (rc, q', h1)"
    and e: "SQLITE_STATEMENT_EXPECT api rc SQLITE_ROW h1 = (r, h2)"
  shows "(r = Val () \<and> view rd h2 = view rd h \<and> stmt_good rd q' \<and>
      (\<exists>row. int_rows rd q = row # int_rows rd q' \<and> int_row rd q' = Some row)) \<or>
    (r = Exit 1 \<and> view rd h2 = rollback (view rd h) \<and>
     (queries_ready api rd \<longrightarrow> stmt_good rd q \<longrightarrow> int_rows rd q = []))"
proof -
  have rdy: "queries_ready api rd \<longrightarrow> stmt_good rd q \<longrightarrow> int_rows rd q \<noteq> [] \<longrightarrow> rc = SQLITE_ROW"
    using query_rules(2) [of api rd q h] s by simp
  from expect_outcome [OF ok e] show ?thesis
  proof
    assume "r = Val () \<and> rc = SQLITE_ROW \<and> h2 = h1"
    then show ?thesis using step_cases(1) [OF ok s] by auto
  next
    assume "r = Exit 1 \<and> rc \<noteq> SQLITE_ROW \<and> view rd h2 = rollback (view rd h1)"
    then show ?thesis using step_cases(2,3) [OF ok s] unharmed_rollback rdy by metis
  qed
qed

lemma step_done_outcome:
  assumes ok: "sqlite_ok api rd" and s: "api_step api q h = (rc, q', h1)"
    and e: "SQLITE_STATEMENT_EXPECT api rc SQLITE_DONE h1 = (r, h2)"
  shows "(r = Val () \<and> view rd h2 = view rd h \<and> stmt_good rd q' \<and> int_rows rd q = []) \<or>
    (r = Exit 1 \<and> view rd h2 = rollback (view rd h) \<and>
     (queries_ready api rd \<longrightarrow> stmt_good rd q \<longrightarrow> int_rows rd q \<noteq> []))"
proof -
  have rdy: "queries_ready api rd \<longrightarrow> stmt_good rd q \<longrightarrow> int_rows rd q = [] \<longrightarrow> rc = SQLITE_DONE"
    using query_rules(2) [of api rd q h] s by simp
  from expect_outcome [OF ok e] show ?thesis
  proof
    assume "r = Val () \<and> rc = SQLITE_DONE \<and> h2 = h1"
    then show ?thesis using step_cases(2) [OF ok s] by auto
  next
    assume "r = Exit 1 \<and> rc \<noteq> SQLITE_DONE \<and> view rd h2 = rollback (view rd h1)"
    then show ?thesis using step_cases(1,3) [OF ok s] unharmed_rollback rdy by metis
  qed
qed

lemma db_flight_exists_outcome:
  assumes ok: "sqlite_ok api rd" and wf: "tables_wf (current (view rd h))"
    and run: "db_flight_exists api fid h = (r, h')"
  shows "(r = Val (sint fid \<in> flight_ids (current (view rd h))) \<and> view rd h' = view rd h) \<or>
    (r = Exit 1 \<and> view rd h' = rollback (view rd h) \<and>
     (queries_ready api rd \<longrightarrow> flights (current (view rd h)) = None))"
proof -
  let ?n = "if sint fid \<in> flight_ids (current (view rd h)) then 1 else 0 :: int"
  obtain p h1 where p: "DB_PREPARE_STATEMENT api (query_text (Count_flight (sint fid))) h = (p, h1)"
    by force
  from prepare_outcome [OF ok p]
  show ?thesis
  proof (elim disjE exE conjE)
    assume "p = Exit 1" "view rd h1 = rollback (view rd h)"
      "queries_ready api rd \<longrightarrow> query_rows (Count_flight (sint fid)) (view rd h) = None"
    then show ?thesis using run p by (simp add: db_flight_exists_def csimps)
  next
    fix q rows
    assume q: "p = Val q" "view rd h1 = view rd h" "stmt_good rd q"
      and rows: "query_rows (Count_flight (sint fid)) (view rd h) = Some rows"
      and ms: "mset rows = mset (int_rows rd q)"
    have rows_q: "int_rows rd q = [[?n]]"
      using count_rows [OF rows wf] ms [symmetric] by (simp split: if_splits)
    obtain rc1 q1 h2 where s1: "api_step api q h1 = (rc1, q1, h2)" by (metis prod.collapse)
    obtain e1 h3 where e1: "SQLITE_STATEMENT_EXPECT api rc1 SQLITE_ROW h2 = (e1, h3)" by force
    obtain rc2 q2 h4 where s2: "api_step api q1 h3 = (rc2, q2, h4)" by (metis prod.collapse)
    obtain e2 h5 where e2: "SQLITE_STATEMENT_EXPECT api rc2 SQLITE_DONE h4 = (e2, h5)" by force
    obtain f h6 where f: "DB_FINALIZE_STATEMENT api q2 h5 = (f, h6)" by force
    note defs = db_flight_exists_def csimps p q(1) s1 e1 s2 e2 f
    from step_row_outcome [OF ok s1 e1] show ?thesis
    proof (elim disjE exE conjE)
      assume "e1 = Exit 1" "view rd h3 = rollback (view rd h1)"
        "queries_ready api rd \<longrightarrow> stmt_good rd q \<longrightarrow> int_rows rd q = []"
      then show ?thesis using run q(2,3) rows_q by (simp add: defs)
    next
      fix row
      assume v3: "e1 = Val ()" "view rd h3 = view rd h1" "stmt_good rd q1"
        and row: "int_rows rd q = row # int_rows rd q1" "int_row rd q1 = Some row"
      have col: "api_column_int api q1 0 = word_of_int ?n"
        using column_view [OF ok row(2), of 0] row(1) rows_q by (auto split: if_splits)
      from step_done_outcome [OF ok s2 e2] show ?thesis
      proof (elim disjE conjE)
        assume "e2 = Exit 1" "view rd h5 = rollback (view rd h3)"
          "queries_ready api rd \<longrightarrow> stmt_good rd q1 \<longrightarrow> int_rows rd q1 \<noteq> []"
        then show ?thesis using run q(2) v3 row(1) rows_q by (simp add: defs)
      next
        assume v5: "e2 = Val ()" "view rd h5 = view rd h3" "stmt_good rd q2"
        from finalize_outcome [OF ok v5(3) f] show ?thesis
          using run q(2) v3 v5 col by (auto simp: defs split: if_splits)
      qed
    qed
  qed
qed

section \<open>Statements keep the tables well formed\<close>

lemma tickets_valid_iff:
  "tickets_valid t \<longleftrightarrow> (\<forall>x \<in> set (ticket_list t). snd x \<in> flight_ids t)"
  by (simp add: tickets_valid_def flight_ids_def)

lemma list_updates [simp]:
  "flight_list (t\<lparr>tickets := x\<rparr>) = flight_list t"
  "flight_list (t\<lparr>seq_ticket := n\<rparr>) = flight_list t"
  "flight_list (t\<lparr>seq_flight := n\<rparr>) = flight_list t"
  "flight_list (t\<lparr>flights := Some fs\<rparr>) = fs"
  "ticket_list (t\<lparr>flights := y\<rparr>) = ticket_list t"
  "ticket_list (t\<lparr>seq_ticket := n\<rparr>) = ticket_list t"
  "ticket_list (t\<lparr>seq_flight := n\<rparr>) = ticket_list t"
  "ticket_list (t\<lparr>tickets := Some ts\<rparr>) = ts"
  by (simp_all add: flight_list_def ticket_list_def)

lemma list_Some: "flights t = Some fs \<Longrightarrow> flight_list t = fs"
  "tickets t = Some ts \<Longrightarrow> ticket_list t = ts"
  by (simp_all add: flight_list_def ticket_list_def)

lemma list_None: "flights t = None \<Longrightarrow> flight_list t = []"
  by (simp add: flight_list_def)

lemma table_write_lists:
  "table_write st t = Some (t', r) \<Longrightarrow>
   flight_ids t \<subseteq> flight_ids t' \<and>
   (\<forall>x \<in> set (ticket_list t'). x \<in> set (ticket_list t) \<or> (\<exists>f. st = Insert_ticket f \<and> snd x = f))"
  by (cases st) (auto simp: flight_ids_def list_Some list_None split: option.splits if_splits)

lemma table_write_valid:
  assumes "table_write st t = Some (t', r)" "tickets_valid t"
    and "\<And>f. st = Insert_ticket f \<Longrightarrow> f \<in> flight_ids t"
  shows "tickets_valid t'"
  using table_write_lists [OF assms(1)] assms(2,3) by (fastforce simp: tickets_valid_iff)

lemma view_wf_put_current:
  "view_wf v \<Longrightarrow> tables_wf t \<Longrightarrow> tickets_valid t \<Longrightarrow> view_wf (put_current t v)"
  by (auto simp: view_wf_def put_current_def current_def split: option.splits)

lemma view_wf_last_rowid [simp]: "view_wf (v\<lparr>last_rowid := r\<rparr>) = view_wf v"
  by (simp add: view_wf_def)

lemma view_wf_pending: "view_wf v \<Longrightarrow> view_wf (v\<lparr>pending := Some (committed v)\<rparr>)"
  by (simp add: view_wf_def current_def)

lemma view_wf_commit: "view_wf v \<Longrightarrow> pending v = Some t \<Longrightarrow> view_wf (v\<lparr>committed := t, pending := None\<rparr>)"
  by (simp add: view_wf_def current_def)

lemma stmt_exec_write:
  "st \<noteq> Begin_transaction \<Longrightarrow> st \<noteq> End_transaction \<Longrightarrow> stmt_exec st v = Some v' \<Longrightarrow>
   \<exists>t r. table_write st (current v) = Some (t, r) \<and>
     (v' = put_current t v \<or> (\<exists>i. v' = (put_current t v)\<lparr>last_rowid := i\<rparr>))"
  by (cases st) (auto split: option.splits)

lemma stmt_exec_wf:
  assumes "stmt_exec st v = Some v'" "view_wf v"
    and "\<And>f. st = Insert_ticket f \<Longrightarrow> f \<in> flight_ids (current v)"
  shows "view_wf v'"
proof (cases "st = Begin_transaction \<or> st = End_transaction")
  case True
  with assms(1,2) show ?thesis
    by (auto simp: view_wf_pending view_wf_commit split: option.splits)
next
  case False
  with stmt_exec_write [OF _ _ assms(1)] obtain t r where
    t: "table_write st (current v) = Some (t, r)"
    and v': "v' = put_current t v \<or> (\<exists>i. v' = (put_current t v)\<lparr>last_rowid := i\<rparr>)" by auto
  have "tables_wf t" "tickets_valid t"
    using table_write_wf [OF t] table_write_valid [OF t] assms(2,3) by (auto simp: view_wf_def)
  with v' assms(2) show ?thesis by (auto simp: view_wf_put_current)
qed

lemma exec_wf:
  assumes "sqlite_ok api rd" "view_wf (view rd h)"
    and "\<And>f. st = Insert_ticket f \<Longrightarrow> f \<in> flight_ids (current (view rd h))"
  shows "view_wf (view rd (snd (api_exec api (stmt_text st) h)))"
proof -
  obtain rc h' where e: "api_exec api (stmt_text st) h = (rc, h')" by force
  show ?thesis
    using exec_cases [OF assms(1) e] stmt_exec_wf [OF _ assms(2), of st] unharmed_wf assms(2,3) e
    by (cases "rc = SQLITE_OK") auto
qed

lemma stopped_wf:
  "stopped rc ss v v' \<Longrightarrow> view_wf v \<Longrightarrow> \<forall>f. Insert_ticket f \<notin> set ss \<Longrightarrow> view_wf v'"
proof (induction ss arbitrary: v)
  case (Cons st ss)
  have "view_wf w" if "stmt_exec st v = Some w" for w
    using stmt_exec_wf [OF that Cons.prems(2)] Cons.prems(3) by auto
  with Cons show ?case by (auto simp: unharmed_wf simp del: stmt_exec.simps split: option.splits)
qed simp

lemma script_wf:
  "script_exec ss v = Some v' \<Longrightarrow> view_wf v \<Longrightarrow> \<forall>f. Insert_ticket f \<notin> set ss \<Longrightarrow> view_wf v'"
proof (induction ss arbitrary: v)
  case (Cons st ss)
  have "view_wf w" if "stmt_exec st v = Some w" for w
    using stmt_exec_wf [OF that Cons.prems(2)] Cons.prems(3) by auto
  with Cons show ?case by (auto simp del: stmt_exec.simps split: option.splits)
qed simp

section \<open>Creating the tables\<close>

lemma create_text: "''CREATE TABLE ticket('' @
    ''resid    INTEGER  PRIMARY KEY AUTOINCREMENT,'' @
    ''flightid INTEGER              NOT NULL );'' @
    ''CREATE TABLE flight('' @
    ''id             INTEGER PRIMARY KEY AUTOINCREMENT,'' @
    ''departure      INTEGER                NOT NULL,'' @
    ''origin         INTEGER                NOT NULL,'' @
    ''destination    INTEGER                NOT NULL );'' = script_text creation"
  by (simp add: stmt_text.simps script_text_def creation_def)

lemma db_create_script:
  "db_create api h =
     (case api_exec api (script_text creation) h of (rc, h') \<Rightarrow>
        if rc \<noteq> SQLITE_OK
        then (Exit 1, api_close api (api_free api (api_exec_err api (script_text creation) h)
               (db_report api ''SQL error: '' (api_exec_err api (script_text creation) h) h')))
        else (Val (), h'))"
  unfolding db_create_def Let_def create_text db_printf_lines sbind.simps by (rule refl)

lemma creation_script [simp]: "program_script creation" "Insert_ticket f \<notin> set creation"
  by (simp_all add: program_script_def creation_def)

lemma db_create_outcome:
  assumes "sqlite_ok api rd" "db_create api h = (r, h')"
  shows "(r = Val () \<and> script_exec creation (view rd h) = Some (view rd h')) \<or>
    (r = Exit 1 \<and> \<not> (sqlite_ready api rd \<and> script_exec creation (view rd h) \<noteq> None) \<and>
     (\<exists>rc v. stopped rc creation (view rd h) v \<and> view rd h' = rollback v))"
proof -
  obtain rc h1 where e: "api_exec api (script_text creation) h = (rc, h1)" by force
  have rdy: "sqlite_ready api rd \<and> script_exec creation (view rd h) \<noteq> None \<longrightarrow> rc = SQLITE_OK"
    using ready_rules(2) [of api rd creation h] e by simp
  show ?thesis
  proof (cases "rc = SQLITE_OK")
    case True
    with script_cases(1) [OF assms(1) creation_script(1) e] assms(2) e show ?thesis
      by (simp add: db_create_script)
  next
    case False
    with script_cases(2) [OF assms(1) creation_script(1) e]
    have "stopped rc creation (view rd h) (view rd h1)" .
    moreover have "r = Exit 1" "view rd h' = rollback (view rd h1)"
      using assms(2) e False
      by (auto simp: db_create_script close_view [OF assms(1)] quiet_views [OF assms(1)])
    ultimately show ?thesis using rdy False by blast
  qed
qed

section \<open>The single-statement operations\<close>

lemma add_ticket_outcome:
  assumes "sqlite_ok api rd" "add_ticket api fid h = (r, h')"
  shows "(r = Val (word_of_int (last_rowid (view rd h'))) \<and>
      stmt_exec (Insert_ticket (sint fid)) (view rd h) = Some (view rd h')) \<or>
    (r = Exit 1 \<and> view rd h' = rollback (view rd h) \<and>
     (sqlite_ready api rd \<longrightarrow> stmt_exec (Insert_ticket (sint fid)) (view rd h) = None))"
proof -
  obtain e h1 where e: "DB_EXEC api (stmt_text (Insert_ticket (sint fid))) h = (e, h1)" by force
  from DB_EXEC_outcome [OF assms(1) e] show ?thesis
    using assms(2) rowid_view [OF assms(1)]
    by (auto simp: add_ticket_def csimps e ucast_word_of_int)
qed

lemma db_add_flight_outcome:
  assumes "sqlite_ok api rd" "db_add_flight api dep og dest h = (r, h')"
  shows "(r = Val (word_of_int (last_rowid (view rd h'))) \<and>
      stmt_exec (Insert_flight (sint dep) (sint og) (sint dest)) (view rd h) = Some (view rd h')) \<or>
    (r = Exit 1 \<and> view rd h' = rollback (view rd h) \<and>
     (sqlite_ready api rd \<longrightarrow> stmt_exec (Insert_flight (sint dep) (sint og) (sint dest)) (view rd h) = None))"
proof -
  obtain e h1 where
    e: "DB_EXEC api (stmt_text (Insert_flight (sint dep) (sint og) (sint dest))) h = (e, h1)" by force
  from DB_EXEC_outcome [OF assms(1) e] show ?thesis
    using assms(2) rowid_view [OF assms(1)]
    by (auto simp: db_add_flight_def csimps e ucast_word_of_int)
qed

lemma db_cancel_outcome:
  assumes "sqlite_ok api rd" "db_cancel api rid h = (r, h')"
  shows "(r = Val True \<and> stmt_exec (Delete_ticket (sint rid)) (view rd h) = Some (view rd h')) \<or>
    (r = Exit 1 \<and> view rd h' = rollback (view rd h) \<and>
     (sqlite_ready api rd \<longrightarrow> stmt_exec (Delete_ticket (sint rid)) (view rd h) = None))"
proof -
  obtain e h1 where e: "DB_EXEC api (stmt_text (Delete_ticket (sint rid))) h = (e, h1)" by force
  from DB_EXEC_outcome [OF assms(1) e] show ?thesis
    using assms(2) by (auto simp: db_cancel_def remove_ticket_def csimps e)
qed

section \<open>Buying\<close>

text \<open>\<open>BEGIN\<close> opens a transaction, or finds one already open; either way the connection now works on its own version.\<close>

lemma begin_wf:
  assumes "sqlite_ok api rd" "view_wf (view rd h)"
  shows "view_wf (view rd (snd (api_exec api (stmt_text Begin_transaction) h)))"
  using exec_wf [OF assms, of Begin_transaction] by simp

lemma begin_ready:
  assumes "sqlite_ok api rd" "sqlite_ready api rd"
  shows "view rd (snd (api_exec api (stmt_text Begin_transaction) h)) =
    (view rd h)\<lparr>pending := Some (current (view rd h))\<rparr>"
proof -
  obtain rc h1 where e: "api_exec api (stmt_text Begin_transaction) h = (rc, h1)" by force
  show ?thesis
  proof (cases "pending (view rd h)")
    case None
    then have "rc = SQLITE_OK" using ready_stmt [OF assms(2), of Begin_transaction h] e by simp
    then show ?thesis using exec_cases(1) [OF assms(1) e] None e by (simp add: current_def)
  next
    case (Some t)
    then have "rc = SQLITE_ERROR" using ready_rules(3) [OF assms(2), of h] e by simp
    then have "view rd h1 = view rd h"
      using exec_cases(2) [OF assms(1) e] by (auto simp: unharmed_def primary_code_def result_codes)
    then show ?thesis using Some e by (simp add: current_def)
  qed
qed

lemma end_ready:
  assumes "sqlite_ok api rd" "sqlite_ready api rd" "pending (view rd h) = Some t"
  shows "view rd (snd (api_exec api (stmt_text End_transaction) h)) =
    (view rd h)\<lparr>committed := t, pending := None\<rparr>"
proof -
  obtain rc h1 where e: "api_exec api (stmt_text End_transaction) h = (rc, h1)" by force
  have "rc = SQLITE_OK"
    using ready_stmt [OF assms(2), of End_transaction h] e assms(3) by simp
  then show ?thesis using exec_cases(1) [OF assms(1) e] assms(3) e by simp
qed

text \<open>Whatever happens on the way, the tables stay well formed and no ticket is for a missing flight.\<close>

lemma db_purchase_wf:
  assumes ok: "sqlite_ok api rd" and wf: "view_wf (view rd h)"
    and run: "db_purchase api fid h = (r, h')"
  shows "r \<noteq> Crash \<and> view_wf (view rd h')"
proof -
  let ?h1 = "snd (api_exec api (stmt_text Begin_transaction) h)"
  have wf1: "view_wf (view rd ?h1)" by (rule begin_wf [OF ok wf])
  then have twf: "tables_wf (current (view rd ?h1))" by (simp add: view_wf_def)
  obtain e h2 where e: "db_flight_exists api fid ?h1 = (e, h2)" by force
  from db_flight_exists_outcome [OF ok twf e] show ?thesis
  proof (elim disjE conjE)
    assume "e = Exit 1" "view rd h2 = rollback (view rd ?h1)"
    then show ?thesis using run e wf1 by (auto simp: db_purchase_def csimps)
  next
    assume found: "e = Val (sint fid \<in> flight_ids (current (view rd ?h1)))" "view rd h2 = view rd ?h1"
    obtain a h3 where a: "add_ticket api fid h2 = (a, h3)" by force
    have wf3: "a \<noteq> Crash \<and> view_wf (view rd h3)" if "sint fid \<in> flight_ids (current (view rd ?h1))"
      using add_ticket_outcome [OF ok a] stmt_exec_wf [of "Insert_ticket (sint fid)" "view rd h2"]
        found(2) wf1 that by auto
    show ?thesis
      using run e found a wf1 wf3 exec_wf [OF ok, of h3 End_transaction]
      by (cases a) (auto simp: db_purchase_def csimps split: if_splits)
  qed
qed

lemma db_purchase_ready:
  assumes ok: "sqlite_ok api rd" and rdy: "sqlite_ready api rd" and wf: "view_wf (view rd h)"
    and ts: "tickets (current (view rd h)) = Some ts" and fs: "flights (current (view rd h)) = Some fs"
    and seq: "seq_ticket (current (view rd h)) < MAX_ROWID"
    and run: "db_purchase api fid h = (r, h')"
  shows "if sint fid \<in> flight_ids (current (view rd h))
    then r = Val (word_of_int (seq_ticket (current (view rd h)) + 1)) \<and>
      view rd h' =
        \<lparr>committed = (current (view rd h))
           \<lparr>tickets := Some (ts @ [(seq_ticket (current (view rd h)) + 1, sint fid)]),
            seq_ticket := seq_ticket (current (view rd h)) + 1\<rparr>,
         pending = None, last_rowid = seq_ticket (current (view rd h)) + 1\<rparr>
    else r = Val (-1) \<and> view rd h' = (view rd h)\<lparr>pending := Some (current (view rd h))\<rparr>"
proof -
  let ?c = "current (view rd h)" and ?h1 = "snd (api_exec api (stmt_text Begin_transaction) h)"
  have v1: "view rd ?h1 = (view rd h)\<lparr>pending := Some ?c\<rparr>" by (rule begin_ready [OF ok rdy])
  then have c1: "current (view rd ?h1) = ?c" by (simp add: current_def)
  with wf have twf: "tables_wf (current (view rd ?h1))" by (simp add: view_wf_def)
  obtain e h2 where e: "db_flight_exists api fid ?h1 = (e, h2)" by force
  have found: "e = Val (sint fid \<in> flight_ids ?c)" "view rd h2 = view rd ?h1"
    using db_flight_exists_outcome [OF ok twf e] ready_rules(4) [OF rdy] fs c1 by auto
  obtain a h3 where a: "add_ticket api fid h2 = (a, h3)" by force
  let ?t = "?c\<lparr>tickets := Some (ts @ [(seq_ticket ?c + 1, sint fid)]), seq_ticket := seq_ticket ?c + 1\<rparr>"
  have ins: "stmt_exec (Insert_ticket (sint fid)) (view rd h2) =
      Some ((view rd h)\<lparr>pending := Some ?t, last_rowid := seq_ticket ?c + 1\<rparr>)"
    using found(2) v1 c1 ts seq by (simp add: put_current_def)
  have a3: "view rd h3 = (view rd h)\<lparr>pending := Some ?t, last_rowid := seq_ticket ?c + 1\<rparr>"
      "a = Val (word_of_int (last_rowid (view rd h3)))"
    using add_ticket_outcome [OF ok a] rdy unfolding ins by auto
  then have a4: "a = Val (word_of_int (seq_ticket ?c + 1))" by simp
  show ?thesis
    using run e found a a3(1) a4 v1 end_ready [OF ok rdy, of h3 ?t]
    by (auto simp: db_purchase_def csimps)
qed

end
