(* ===== verification/ConsultLaws.thy ===== *)
theory ConsultLaws
  imports DatabaseLaws
begin

text \<open>
  \<open>db_consult_flights\<close>: the loop over the result rows ends for every library that meets its
  documentation, it fills the datagram with the rows in the order the library returns them, and the
  block it writes to, 4096 bytes long, has room for 26 of them.
\<close>

section \<open>Filling the datagram\<close>

definition row_entry_of :: "(nat \<Rightarrow> char) \<Rightarrow> int list \<Rightarrow> db_entry" where
  "row_entry_of stk row =
     (entry_of (alloc stk SIZEOF_ENTRY))
       \<lparr>fl_id := word_of_int (row ! 0), fl_departure := scast (word_of_int (row ! 1) :: i32),
        fl_origin := word_of_int (row ! 2), fl_destination := word_of_int (row ! 3)\<rparr>"

primrec fill_rows :: "(nat \<Rightarrow> char) \<Rightarrow> nat \<Rightarrow> int list list \<Rightarrow> datagram \<Rightarrow> datagram option" where
  "fill_rows stk n [] dg = Some dg"
| "fill_rows stk n (row # rows) dg =
     (case put_result n (row_entry_of stk row) dg of
        None \<Rightarrow> None
      | Some dg' \<Rightarrow> fill_rows stk (Suc n) rows dg')"

lemma entry_wf_row [simp]: "entry_wf (row_entry_of stk row)"
  by (simp add: row_entry_of_def entry_wf_def entry_of_def)

lemma row_entry_row:
  assumes "sqlite_ok api rd" "int_row rd q = Some row" "length row = 4"
  shows "row_entry api stk q = row_entry_of stk row"
  using column_view [OF assms(1,2)] assms(3) by (simp add: row_entry_def row_entry_of_def csimps)

lemma put_result_fields:
  "put_result n e dg = Some dg' \<Longrightarrow>
   length (dg_raw dg') = length (dg_raw dg) \<and> dg_size dg' = dg_size dg \<and>
   dg_opcode dg' = dg_opcode dg \<and> dg_sender dg' = dg_sender dg \<and> dg_data dg' = dg_data dg"
  by (auto simp: put_result_def put_raw_def dest: length_poke)

lemma put_result_None_iff:
  "entry_wf e \<Longrightarrow> put_result n e dg = None \<longleftrightarrow> length (dg_raw dg) < (n + 1) * 152"
  by (simp add: put_result_def put_raw_def poke_eq_None_iff layout algebra_simps)

lemma put_result_same:
  "entry_wf e \<Longrightarrow> put_result n e dg = Some dg' \<Longrightarrow> dg_results dg' n = Some e"
  using entry_of_bytes [of e "[]"]
  by (auto simp: put_result_def put_raw_def dg_results_def layout dest!: peek_poke_same)

lemma put_result_before:
  "put_result n e dg = Some dg' \<Longrightarrow> i < n \<Longrightarrow> dg_results dg' i = dg_results dg i"
  by (auto simp: put_result_def put_raw_def dg_results_def layout peek_poke_before)

lemma fill_rows_None_iff:
  "fill_rows stk n rows dg = None \<longleftrightarrow>
   rows \<noteq> [] \<and> length (dg_raw dg) < (n + length rows) * 152"
proof (induction rows arbitrary: n dg)
  case Nil
  then show ?case by simp
next
  case (Cons row rows)
  show ?case
  proof (cases "put_result n (row_entry_of stk row) dg")
    case None
    then have "length (dg_raw dg) < (n + 1) * 152" by (simp add: put_result_None_iff)
    with None show ?thesis by simp
  next
    case (Some dg')
    then have "\<not> length (dg_raw dg) < (n + 1) * 152"
      using put_result_None_iff [of "row_entry_of stk row" n dg] by simp
    with Some put_result_fields [OF Some] Cons.IH [of "Suc n" dg'] show ?thesis by auto
  qed
qed

lemma fill_rows_results:
  "fill_rows stk n rows dg = Some dg' \<Longrightarrow>
   (\<forall>i < n. dg_results dg' i = dg_results dg i) \<and>
   (\<forall>i < length rows. dg_results dg' (n + i) = Some (row_entry_of stk (rows ! i)))"
proof (induction rows arbitrary: n dg)
  case Nil
  then show ?case by simp
next
  case (Cons row rows)
  then obtain dg1 where dg1: "put_result n (row_entry_of stk row) dg = Some dg1"
    and rest: "fill_rows stk (Suc n) rows dg1 = Some dg'" by (auto split: option.splits)
  from Cons.IH [OF rest] have
    old: "\<And>i. i < Suc n \<Longrightarrow> dg_results dg' i = dg_results dg1 i" and
    new: "\<And>i. i < length rows \<Longrightarrow> dg_results dg' (Suc n + i) = Some (row_entry_of stk (rows ! i))"
    by auto
  have "dg_results dg' n = Some (row_entry_of stk row)"
    using old [of n] put_result_same [OF entry_wf_row dg1] by simp
  moreover have "dg_results dg' (n + i) = Some (row_entry_of stk ((row # rows) ! i))"
    if "i < Suc (length rows)" "0 < i" for i
    using new [of "i - 1"] that by (cases i) auto
  ultimately show ?case
    using old put_result_before [OF dg1] by (metis length_Cons less_SucI neq0_conv nth_Cons_0 add_0_right)
qed

lemma fill_rows_fields:
  "fill_rows stk n rows dg = Some dg' \<Longrightarrow>
   length (dg_raw dg') = length (dg_raw dg) \<and> dg_sender dg' = dg_sender dg"
  by (induction rows arbitrary: n dg) (auto split: option.splits dest!: put_result_fields)

section \<open>The loop\<close>

lemma consult_loop_ends:
  assumes "sqlite_ok api rd"
  shows "\<exists>res. consult_loop api stk n dg q h = Some res"
proof (induction "int_rows rd q" arbitrary: q n dg h)
  case Nil
  obtain rc q' h' where s: "api_step api q h = (rc, q', h')" by (metis prod.collapse)
  have "rc \<noteq> SQLITE_ROW" using step_cases(1) [OF assms s] Nil by auto
  then show ?case by (subst consult_loop.simps) (simp add: s)
next
  case (Cons row rows)
  obtain rc q' h' where s: "api_step api q h = (rc, q', h')" by (metis prod.collapse)
  show ?case
  proof (cases "rc = SQLITE_ROW")
    case True
    then have "rows = int_rows rd q'" using step_cases(1) [OF assms s] Cons.hyps(2) by auto
    from Cons.hyps(1) [OF this] show ?thesis
      by (subst consult_loop.simps) (auto simp: s split: option.splits)
  next
    case False
    then show ?thesis by (subst consult_loop.simps) (simp add: s)
  qed
qed

text \<open>
  How the loop can end: all rows written; a failure of the library; a row that does not fit.
\<close>

lemma consult_loop_outcome:
  assumes ok: "sqlite_ok api rd" and "list_all (\<lambda>r. length r = 4) (int_rows rd q)"
    and "stmt_good rd q" and "consult_loop api stk n dg q h = Some (r, h')"
  shows "(\<exists>dg' q'. r = Val (SQLITE_DONE, n + length (int_rows rd q), dg', q') \<and>
        fill_rows stk n (int_rows rd q) dg = Some dg' \<and> view rd h' = view rd h \<and> stmt_good rd q') \<or>
     (\<exists>rc x. r = Val (rc, x) \<and> rc \<noteq> SQLITE_DONE \<and> rollback (view rd h') = rollback (view rd h) \<and>
        \<not> queries_ready api rd) \<or>
     (r = Crash \<and> fill_rows stk n (int_rows rd q) dg = None \<and> view rd h' = view rd h)"
  using assms(2-4)
proof (induction "int_rows rd q" arbitrary: q n dg h)
  case Nil
  obtain rc q' h1 where s: "api_step api q h = (rc, q', h1)" by (metis prod.collapse)
  have nrow: "rc \<noteq> SQLITE_ROW" using step_cases(1) [OF ok s] Nil.hyps by auto
  then have res: "r = Val (rc, n, dg, q')" "h' = h1"
    using Nil.prems(3) by (simp_all add: consult_loop.simps [of api stk n dg q h] s)
  show ?case
  proof (cases "rc = SQLITE_DONE")
    case True
    then show ?thesis using step_cases(2) [OF ok s] res Nil.hyps [symmetric] by simp
  next
    case False
    then have "\<not> queries_ready api rd"
      using query_rules(2) [of api rd q h] Nil.prems(2) Nil.hyps s by auto
    then show ?thesis using step_cases(3) [OF ok s nrow False] res False unharmed_rollback by blast
  qed
next
  case (Cons row rows)
  obtain rc q' h1 where s: "api_step api q h = (rc, q', h1)" by (metis prod.collapse)
  note row4 = Cons.prems(1) [folded Cons.hyps(2)]
  show ?case
  proof (cases "rc = SQLITE_ROW")
    case True
    with step_cases(1) [OF ok s] Cons.hyps(2) [symmetric]
    have st: "view rd h1 = view rd h" "stmt_good rd q'" "rows = int_rows rd q'"
      "int_row rd q' = Some row" by auto
    have e: "row_entry api stk q' = row_entry_of stk row"
      using row_entry_row [OF ok st(4)] row4 by simp
    show ?thesis
    proof (cases "put_result n (row_entry_of stk row) dg")
      case None
      then show ?thesis
        using Cons.prems(3) True st Cons.hyps(2) [symmetric]
        by (simp add: consult_loop.simps [of api stk n dg q h] s e)
    next
      case (Some dg1)
      have "consult_loop api stk (Suc n) dg1 q' h1 = Some (r, h')"
        using Cons.prems(3) True Some by (simp add: consult_loop.simps [of api stk n dg q h] s e)
      from Cons.hyps(1) [OF st(3) _ st(2) this] row4 st(1,3) Some Cons.hyps(2) [symmetric]
      show ?thesis by (simp add: st(3))
    qed
  next
    case False
    have "rc \<noteq> SQLITE_DONE" using step_cases(2) [OF ok s] Cons.hyps(2) by auto
    moreover have "\<not> queries_ready api rd"
      using query_rules(2) [of api rd q h] Cons.prems(2) Cons.hyps(2) [symmetric] s False by auto
    moreover have "r = Val (rc, n, dg, q')" "h' = h1"
      using Cons.prems(3) False by (simp_all add: consult_loop.simps [of api stk n dg q h] s)
    ultimately show ?thesis using step_cases(3) [OF ok s False] unharmed_rollback by blast
  qed
qed

section \<open>The whole operation\<close>

definition MAX_ROWS :: nat where "MAX_ROWS = 26"

lemma fill_fits:
  "fill_rows stk 0 rows (malloc_dg b hp DATAGRAM_MAXSIZE) = None \<longleftrightarrow> MAX_ROWS < length rows"
  by (auto simp: fill_rows_None_iff layout MAX_ROWS_def)

text \<open>The datagram the operation returns when the rows fit.\<close>

definition consult_answer :: "build \<Rightarrow> (nat \<Rightarrow> char) \<Rightarrow> int list list \<Rightarrow> datagram \<Rightarrow> bool" where
  "consult_answer b stk rows d \<longleftrightarrow>
     dg_wf b d \<and> dg_opcode d = opc OP_CONSULT \<and> unat (dg_count d) = length rows \<and>
     unat (dg_size d) = SIZEOF_DG b + length rows * SIZEOF_ENTRY \<and>
     (\<forall>i < length rows. dg_results d i = Some (row_entry_of stk (rows ! i)))"

lemma dg_results_realloc:
  assumes "(i + 1) * SIZEOF_ENTRY \<le> n" "dg_results d i = Some e"
  shows "dg_results (d\<lparr>dg_raw := realloc hp (dg_raw d) n\<rparr>) i = Some e"
proof -
  have le: "i * 152 + 152 \<le> length (dg_raw d)" using assms(2)
    by (auto simp: dg_results_def peek_def layout split: if_splits)
  have "152 - min (length (dg_raw d) - i * 152) (n - i * 152) = 0"
    using le assms(1) by (simp add: layout) arith
  with le assms show ?thesis
    by (auto simp: dg_results_def peek_def realloc_def layout drop_take algebra_simps split: if_splits)
qed

lemma consult_finish_answer:
  assumes fill: "fill_rows stk 0 rows (malloc_dg b hp DATAGRAM_MAXSIZE) = Some dg"
  shows "consult_answer b stk rows (consult_finish b hp (length rows) dg)"
proof -
  have le: "length rows \<le> 26" using fill_fits [of stk rows b hp] fill by (simp add: MAX_ROWS_def)
  let ?size = "SIZEOF_DG b + length rows * SIZEOF_ENTRY"
  have size: "unat (word_of_nat ?size :: i64) = ?size" and cnt: "unat (word_of_nat (length rows) :: i32) = length rows"
    using le by (intro unat_of_nat_small; simp add: layout)+
  have res: "dg_results dg i = Some (row_entry_of stk (rows ! i))" if "i < length rows" for i
    using fill_rows_results [OF fill] that by simp
  have fit: "(i + 1) * SIZEOF_ENTRY \<le> ?size - HDR b" if "i < length rows" for i
    using that HDR_le_SIZEOF [of b] by (simp add: layout)
  have fin: "consult_finish b hp (length rows) dg =
      (dg\<lparr>dg_raw := realloc hp (dg_raw dg) (?size - HDR b)\<rparr>)
        \<lparr>dg_data := word_of_nat (length rows), dg_size := word_of_nat ?size, dg_opcode := opc OP_CONSULT\<rparr>"
    by (simp add: consult_finish_def)
  have keep: "dg_results (d\<lparr>dg_data := x, dg_size := y, dg_opcode := z\<rparr>) i = dg_results d i" for d x y z i
    by (simp add: dg_results_def)
  have snd: "b \<noteq> MSGQUEUE \<longrightarrow> dg_sender dg = 0" using fill_rows_fields [OF fill] by simp
  show ?thesis
    unfolding consult_answer_def fin dg_wf_def
    using size cnt snd HDR_le_SIZEOF [of b] dg_results_realloc [OF fit res] by (auto simp: keep)
qed

text \<open>
  Every call returns; the four ways it can end.  \<open>rows\<close> is what the library returned for the query.
\<close>

definition consult_rows :: "i32 \<Rightarrow> i32 \<Rightarrow> dbview \<Rightarrow> int list list option" where
  "consult_rows og dest v = query_rows (Select_flight (any_airport og) (any_airport dest)) v"

lemma db_consult_outcome:
  assumes ok: "sqlite_ok api rd"
  shows "\<exists>r h'. db_consult_flights b jk api og dest h = Some (r, h') \<and>
    ((\<exists>rows rows' d. consult_rows og dest (view rd h) = Some rows \<and> mset rows' = mset rows \<and> r = Val d \<and>
        consult_answer b (stack jk) rows' d \<and> length rows \<le> MAX_ROWS \<and> view rd h' = view rd h) \<or>
     (r = Exit 1 \<and> view rd h' = rollback (view rd h) \<and>
        (queries_ready api rd \<longrightarrow> consult_rows og dest (view rd h) = None)) \<or>
     (\<exists>rows. r = Crash \<and> consult_rows og dest (view rd h) = Some rows \<and> MAX_ROWS < length rows \<and>
        view rd h' = view rd h))"
proof -
  obtain p h1 where p: "DB_PREPARE_STATEMENT api
      (query_text (Select_flight (any_airport og) (any_airport dest))) h = (p, h1)" by force
  let ?dg = "malloc_dg b (heap jk) DATAGRAM_MAXSIZE"
  from prepare_outcome [OF ok p, folded consult_rows_def] show ?thesis
  proof (elim disjE exE conjE)
    assume "p = Exit 1" "view rd h1 = rollback (view rd h)"
      "queries_ready api rd \<longrightarrow> consult_rows og dest (view rd h) = None"
    then show ?thesis using p by (simp add: db_consult_flights_eq csimps)
  next
    fix q rows
    assume q: "p = Val q" "view rd h1 = view rd h" "stmt_good rd q"
      and rows: "consult_rows og dest (view rd h) = Some rows" "mset rows = mset (int_rows rd q)"
    have "\<forall>r \<in> set rows. length r = 4"
      using rows(1) by (auto simp: consult_rows_def flight_row_def)
    then have row4: "list_all (\<lambda>r. length r = 4) (int_rows rd q)"
      using mset_eq_setD [OF rows(2)] by (simp add: list_all_iff)
    have len: "length (int_rows rd q) = length rows" using mset_eq_length [OF rows(2)] by simp
    obtain r h2 where loop: "consult_loop api (stack jk) 0 ?dg q h1 = Some (r, h2)"
      using consult_loop_ends [OF ok, of "stack jk" 0 ?dg q h1] by auto
    note defs = db_consult_flights_eq quiet_views [OF ok] csimps p q(1) loop Let_def
    from consult_loop_outcome [OF ok row4 q(3) loop] show ?thesis
    proof (elim disjE exE conjE)
      fix dg' q'
      assume r: "r = Val (SQLITE_DONE, 0 + length (int_rows rd q), dg', q')"
        and fill: "fill_rows (stack jk) 0 (int_rows rd q) ?dg = Some dg'"
        and v: "view rd h2 = view rd h1" "stmt_good rd q'"
      obtain f h3 where f: "DB_FINALIZE_STATEMENT api q' h2 = (f, h3)" by force
      have "f = Val ()" "view rd h3 = view rd h" using finalize_outcome [OF ok v(2) f] v(1) q(2) by auto
      moreover have "length rows \<le> MAX_ROWS"
        using fill_fits [of "stack jk" "int_rows rd q" b "heap jk"] fill len by simp
      ultimately show ?thesis
        using rows consult_finish_answer [OF fill] by (auto simp: defs r f)
    next
      fix rc x
      assume "r = Val (rc, x)" "rc \<noteq> SQLITE_DONE" "rollback (view rd h2) = rollback (view rd h1)"
        "\<not> queries_ready api rd"
      then show ?thesis using q(2) close_view [OF ok] by (cases x) (simp add: defs)
    next
      assume "r = Crash" "fill_rows (stack jk) 0 (int_rows rd q) ?dg = None" "view rd h2 = view rd h1"
      then show ?thesis
        using fill_fits [of "stack jk" "int_rows rd q" b "heap jk"] len q(2) rows by (simp add: defs)
    qed
  qed
qed

end
