(* ===== verification/Libserver.thy ===== *)
theory Libserver
  imports ConsultLaws
begin

text \<open>
  \<open>server/libserver.c\<close>: one request datagram in, one answer datagram out.  The file is written
  against the functions \<open>include/database.h\<close> declares; here they are the record \<open>db_ops\<close>, and the
  locale \<open>database\<close> states what the caller relies on.  \<open>sqlite_ops\<close> is the record of the functions
  of \<open>server/db/database.c\<close>, and the interpretation at the end shows that they keep the contract.
\<close>

record 'h db_ops =
  op_purchase :: "i32 \<Rightarrow> 'h \<Rightarrow> i32 cres \<times> 'h"
  op_consult :: "i32 \<Rightarrow> i32 \<Rightarrow> 'h \<Rightarrow> (datagram cres \<times> 'h) option"
  op_cancel :: "i32 \<Rightarrow> 'h \<Rightarrow> bool cres \<times> 'h"
  op_add_flight :: "i64 \<Rightarrow> i32 \<Rightarrow> i32 \<Rightarrow> 'h \<Rightarrow> i32 cres \<times> 'h"

definition sqlite_ops :: "build \<Rightarrow> junk \<Rightarrow> ('h, 'q) sqlite \<Rightarrow> 'h db_ops" where
  "sqlite_ops b jk api =
     \<lparr>op_purchase = db_purchase api, op_consult = db_consult_flights b jk api,
      op_cancel = db_cancel api, op_add_flight = db_add_flight api\<rparr>"

section \<open>Answering a request\<close>

text \<open>
  The \<open>switch\<close> over the opcode; \<open>None\<close> inside the outcome is the null pointer of the default case,
  \<open>None\<close> outside is a consultation that does not return.
\<close>

definition execute_switch ::
    "build \<Rightarrow> (nat \<Rightarrow> char) \<Rightarrow> 'h db_ops \<Rightarrow> datagram \<Rightarrow> 'h \<Rightarrow> (datagram option cres \<times> 'h) option" where
  "execute_switch b hp ops d h =
     (if dg_opcode d = opc OP_CONSULT then
        (case dg_destination d of
           None \<Rightarrow> Some (Crash, h)
         | Some dest \<Rightarrow>
             map_option (\<lambda>m. sbind m (\<lambda>ans h. (Val (Some ans), h)))
               (op_consult ops (dg_origin d) dest h))
      else if dg_opcode d = opc OP_PURCHASE then
        Some (let ans = new_dg b hp (SIZEOF_DG b) OP_PURCHASE in
              sbind (op_purchase ops (dg_flightid d) h) (\<lambda>r h. (Val (Some (ans\<lparr>dg_data := r\<rparr>)), h)))
      else if dg_opcode d = opc OP_CANCEL then
        Some (let ans = new_dg b hp (SIZEOF_DG b) OP_CANCEL in
              sbind (op_cancel ops (dg_seat d) h)
                (\<lambda>r h. (Val (Some (ans\<lparr>dg_data := c_bool r\<rparr>)), h)))
      else if dg_opcode d = opc OP_PING then
        Some (case dg_cmd d of
                None \<Rightarrow> (Crash, h)
              | Some cmd \<Rightarrow>
                  (let ans = new_dg b hp (SIZEOF_DG b + length cmd + 1) OP_PONG in
                   (cbind (deref (put_cmd cmd ans)) (\<lambda>ans. Val (Some ans)), h)))
      else if dg_opcode d = opc OP_ADDFLIGHT then
        Some (case dg_results d 0 of
                None \<Rightarrow> (Crash, h)
              | Some entry \<Rightarrow>
                  (let ans = new_dg b hp (SIZEOF_DG b) OP_ADDFLIGHT in
                   sbind (op_add_flight ops (fl_departure entry) (fl_origin entry)
                            (fl_destination entry) h)
                     (\<lambda>r h. (Val (Some (ans\<lparr>dg_data := r\<rparr>)), h))))
      else Some (Val None, h))"

definition copy_sender :: "build \<Rightarrow> datagram \<Rightarrow> datagram \<Rightarrow> datagram" where
  "copy_sender b d ans = (if b = MSGQUEUE then ans\<lparr>dg_sender := dg_sender d\<rparr> else ans)"

definition execute_datagram ::
    "build \<Rightarrow> (nat \<Rightarrow> char) \<Rightarrow> 'h db_ops \<Rightarrow> datagram \<Rightarrow> 'h \<Rightarrow> (datagram option cres \<times> 'h) option" where
  "execute_datagram b hp ops d h =
     map_option (\<lambda>m. sbind m (\<lambda>ans h. (Val (map_option (copy_sender b d) ans), h)))
       (execute_switch b hp ops d h)"

section \<open>Shape of the answers\<close>

text \<open>A ping is answered with a pong, any other request with its own opcode.\<close>

definition answer_opcode :: "i32 \<Rightarrow> i32" where
  "answer_opcode x = (if x = opc OP_PING then opc OP_PONG else x)"

lemma dg_wf_copy_sender [simp]: "dg_wf b (copy_sender b' d ans) \<longleftrightarrow> dg_wf b ans" if "b' = b"
  using that by (auto simp: dg_wf_def copy_sender_def)

section \<open>The contract of \<open>include/database.h\<close>\<close>

text \<open>
  What \<open>execute_datagram\<close> relies on: the operations keep an invariant of the database whatever
  their outcome, the three that write never run out of bounds, and a consultation returns, with a
  well-formed datagram when it does not exit.
\<close>

locale database =
  fixes b :: build
    and ops :: "'h db_ops"
    and inv :: "'h \<Rightarrow> bool"
  assumes purchase_inv: "inv h \<Longrightarrow> op_purchase ops f h = (r, h') \<Longrightarrow> r \<noteq> Crash \<and> inv h'"
    and cancel_inv: "inv h \<Longrightarrow> op_cancel ops i h = (c, h') \<Longrightarrow> c \<noteq> Crash \<and> inv h'"
    and add_flight_inv:
      "inv h \<Longrightarrow> op_add_flight ops dep og dest h = (r, h') \<Longrightarrow> r \<noteq> Crash \<and> inv h'"
    and consult_total:
      "inv h \<Longrightarrow> \<exists>a h'. op_consult ops og dest h = Some (a, h') \<and> inv h' \<and>
         (\<forall>d. a = Val d \<longrightarrow> dg_wf b d \<and> dg_opcode d = opc OP_CONSULT)"
begin

lemma sbind_inv:
  "(m, h') = x \<Longrightarrow> inv h' \<Longrightarrow> inv (snd (sbind x (\<lambda>r h. (Val (f r), h))))"
  by (cases m) auto

lemma execute_total:
  assumes "inv h"
  shows "\<exists>r h'. execute_datagram b hp ops d h = Some (r, h') \<and> inv h'"
proof -
  have "\<exists>r h'. execute_switch b hp ops d h = Some (r, h') \<and> inv h'"
  proof (cases "dg_opcode d = opc OP_CONSULT")
    case True
    show ?thesis
    proof (cases "dg_destination d")
      case None
      with True assms show ?thesis by (simp add: execute_switch_def)
    next
      case (Some dest)
      obtain a h' where "op_consult ops (dg_origin d) dest h = Some (a, h')" "inv h'"
        using consult_total [OF assms] by blast
      with True Some show ?thesis by (cases a) (simp_all add: execute_switch_def)
    qed
  next
    case False
    obtain r1 h1 where p: "op_purchase ops (dg_flightid d) h = (r1, h1)" by force
    obtain r2 h2 where c: "op_cancel ops (dg_seat d) h = (r2, h2)" by force
    have f: "\<exists>r3 h3. op_add_flight ops x y z h = (r3, h3) \<and> inv h3" for x y z
      using add_flight_inv [OF assms] by (metis surj_pair)
    show ?thesis
      using False purchase_inv [OF assms p] cancel_inv [OF assms c] assms p c
        f [of "fl_departure (the (dg_results d 0))" "fl_origin (the (dg_results d 0))"
           "fl_destination (the (dg_results d 0))"]
      by (cases r1; cases r2; cases "fst (op_add_flight ops (fl_departure (the (dg_results d 0)))
             (fl_origin (the (dg_results d 0))) (fl_destination (the (dg_results d 0))) h)")
         (auto simp: execute_switch_def Let_def split: option.splits)
  qed
  then obtain r h' where "execute_switch b hp ops d h = Some (r, h')" "inv h'" by blast
  then show ?thesis by (cases r) (simp_all add: execute_datagram_def)
qed

text \<open>The switch case by case, for requests no longer than the transports carry.\<close>

lemma switch_purchase:
  "dg_opcode d = opc OP_PURCHASE \<Longrightarrow> execute_switch b hp ops d h = Some (Val (Some a), h') \<Longrightarrow>
   dg_wf b a \<and> dg_opcode a = opc OP_PURCHASE \<and>
   op_purchase ops (dg_flightid d) h = (Val (dg_seat a), h')"
  by (auto simp: execute_switch_def Let_def sbind_Val_iff dg_wf_new layout)

lemma switch_cancel:
  "dg_opcode d = opc OP_CANCEL \<Longrightarrow> execute_switch b hp ops d h = Some (Val (Some a), h') \<Longrightarrow>
   dg_wf b a \<and> dg_opcode a = opc OP_CANCEL \<and>
   (\<exists>r. op_cancel ops (dg_seat d) h = (Val r, h') \<and> dg_result a = c_bool r)"
  by (auto simp: execute_switch_def Let_def sbind_Val_iff dg_wf_new layout)

lemma switch_add_flight:
  "dg_opcode d = opc OP_ADDFLIGHT \<Longrightarrow> execute_switch b hp ops d h = Some (Val (Some a), h') \<Longrightarrow>
   dg_wf b a \<and> dg_opcode a = opc OP_ADDFLIGHT \<and>
   (\<exists>e. dg_results d 0 = Some e \<and>
      op_add_flight ops (fl_departure e) (fl_origin e) (fl_destination e) h =
        (Val (dg_flightid a), h'))"
  by (auto simp: execute_switch_def Let_def sbind_Val_iff dg_wf_new layout split: option.splits)

lemma switch_consult:
  "dg_opcode d = opc OP_CONSULT \<Longrightarrow> execute_switch b hp ops d h = Some (Val (Some a), h') \<Longrightarrow> inv h \<Longrightarrow>
   dg_wf b a \<and> dg_opcode a = opc OP_CONSULT \<and>
   (\<exists>dest. dg_destination d = Some dest \<and> op_consult ops (dg_origin d) dest h = Some (Val a, h'))"
  using consult_total [of h "dg_origin d" "the (dg_destination d)"]
  by (auto simp: execute_switch_def sbind_Val_iff split: option.splits)

lemma switch_ping:
  assumes "dg_opcode d = opc OP_PING" "dg_cmd d = Some s" "length (dg_raw d) \<le> DATAGRAM_MAXSIZE"
  shows "\<exists>a. execute_switch b hp ops d h = Some (Val (Some a), h) \<and> dg_wf b a \<and>
    dg_opcode a = opc OP_PONG \<and> dg_cmd a = Some s \<and>
    unat (dg_size a) = SIZEOF_DG b + length s + 1"
proof -
  let ?n = "SIZEOF_DG b + length s + 1" let ?a = "new_dg b hp ?n OP_PONG"
  have s: "length s < length (dg_raw d)" "nul_free s" using dg_cmd_length [OF assms(2)] by auto
  then have n: "?n < 2 ^ 64" using assms(3) by (simp add: layout)
  have "length s < length (dg_raw ?a)" using HDR_le_SIZEOF [of b] by simp
  from put_cmd_fits [OF this] s(2) obtain a where
    a: "put_cmd s ?a = Some a" "dg_cmd a = Some s" "a = ?a\<lparr>dg_raw := dg_raw a\<rparr>"
      "length (dg_raw a) = length (dg_raw ?a)" by auto
  have f: "dg_opcode a = dg_opcode ?a" "dg_size a = dg_size ?a" "dg_sender a = dg_sender ?a"
    by (subst a(3); simp)+
  have "dg_wf b a" using dg_wf_new [OF _ n, of b hp OP_PONG] a(4) f by (simp add: dg_wf_def)
  moreover have "unat (dg_size a) = ?n"
    unfolding f(2) new_dg_simps by (rule unat_of_nat_small) (use n in simp)
  ultimately show ?thesis
    using assms(1,2) a(1,2) f(1) by (simp add: execute_switch_def Let_def)
qed

lemma execute_answer:
  assumes "inv h" "length (dg_raw d) \<le> DATAGRAM_MAXSIZE"
    and run: "execute_datagram b hp ops d h = Some (Val (Some a), h')"
  shows "dg_wf b a \<and> dg_opcode a = answer_opcode (dg_opcode d) \<and>
    (b = MSGQUEUE \<longrightarrow> dg_sender a = dg_sender d)"
proof -
  obtain a' where sw: "execute_switch b hp ops d h = Some (Val (Some a'), h')"
    and a: "a = copy_sender b d a'"
    using run by (auto simp: execute_datagram_def sbind_Val_iff)
  have "dg_wf b a' \<and> dg_opcode a' = answer_opcode (dg_opcode d)"
  proof (cases "dg_opcode d = opc OP_PING")
    case True
    then obtain s where "dg_cmd d = Some s"
      using sw by (auto simp: execute_switch_def split: option.splits)
    from switch_ping [OF True this assms(2), of hp h] sw True show ?thesis
      by (auto simp: answer_opcode_def)
  next
    case False
    then have "dg_opcode d \<in> opc ` {OP_CONSULT, OP_PURCHASE, OP_CANCEL, OP_ADDFLIGHT}"
      using sw by (auto simp: execute_switch_def split: if_splits)
    with False switch_consult [OF _ sw assms(1)] switch_purchase [OF _ sw] switch_cancel [OF _ sw]
      switch_add_flight [OF _ sw]
    show ?thesis by (auto simp: answer_opcode_def)
  qed
  then show ?thesis using a by (auto simp: copy_sender_def dg_wf_def)
qed

end

section \<open>\<open>database.c\<close> keeps the contract\<close>

lemma db_add_flight_wf:
  assumes "sqlite_ok api rd" "view_wf (view rd h)" "db_add_flight api dep og dest h = (r, h')"
  shows "r \<noteq> Crash \<and> view_wf (view rd h')"
  using db_add_flight_outcome [OF assms(1,3)] stmt_exec_wf [OF _ assms(2)] assms(2)
    view_wf_rollback by (auto simp del: stmt_exec.simps)

lemma db_cancel_wf:
  assumes "sqlite_ok api rd" "view_wf (view rd h)" "db_cancel api i h = (r, h')"
  shows "r \<noteq> Crash \<and> view_wf (view rd h')"
  using db_cancel_outcome [OF assms(1,3)] stmt_exec_wf [OF _ assms(2)] assms(2)
    view_wf_rollback by (auto simp del: stmt_exec.simps)

lemma db_consult_wf:
  assumes "sqlite_ok api rd" "view_wf (view rd h)"
  shows "\<exists>a h'. db_consult_flights b jk api og dest h = Some (a, h') \<and> view_wf (view rd h') \<and>
    (\<forall>d. a = Val d \<longrightarrow> dg_wf b d \<and> dg_opcode d = opc OP_CONSULT)"
proof -
  obtain a h' where run: "db_consult_flights b jk api og dest h = Some (a, h')"
    and "(\<exists>rows rows' d. consult_rows og dest (view rd h) = Some rows \<and> mset rows' = mset rows \<and>
        a = Val d \<and> consult_answer b (stack jk) rows' d \<and> length rows \<le> MAX_ROWS \<and>
        view rd h' = view rd h) \<or>
      (a = Exit 1 \<and> view rd h' = rollback (view rd h) \<and>
        (queries_ready api rd \<longrightarrow> consult_rows og dest (view rd h) = None)) \<or>
      (\<exists>rows. a = Crash \<and> consult_rows og dest (view rd h) = Some rows \<and> MAX_ROWS < length rows \<and>
        view rd h' = view rd h)"
    using db_consult_outcome [OF assms(1), of b jk og dest h] by blast
  then show ?thesis using run assms(2) by (auto simp: consult_answer_def)
qed

interpretation sql_db: database b "sqlite_ops b jk api" "\<lambda>h. sqlite_ok api rd \<and> view_wf (view rd h)"
  for b jk api rd
proof
  fix h og dest
  assume "sqlite_ok api rd \<and> view_wf (view rd h)"
  then show "\<exists>a h'. op_consult (sqlite_ops b jk api) og dest h = Some (a, h') \<and>
      (sqlite_ok api rd \<and> view_wf (view rd h')) \<and>
      (\<forall>d. a = Val d \<longrightarrow> dg_wf b d \<and> dg_opcode d = opc OP_CONSULT)"
    using db_consult_wf [of api rd h b jk og dest] by (auto simp: sqlite_ops_def)
qed (auto simp: sqlite_ops_def dest: db_purchase_wf db_cancel_wf db_add_flight_wf)

end
