(* ===== verification/Server.thy ===== *)
theory Server
  imports ShmemLaws FifoLaws Msgqueue Socket FilesLaws Libserver
begin

text \<open>
  \<open>server/server.c\<close>: the loop that answers one client, the loop that accepts clients, and the signal
  handlers.  The state is the one of the transport together with the one of the database library;
  process \<open>p\<close> uses the library through its own connection \<open>api p\<close>.  An endless loop is run for a
  given number of rounds.
\<close>

section \<open>Steps on the two parts of the state\<close>

primrec on_ipc :: "('s, 'a) proc \<Rightarrow> ('s \<times> 'h, 'a) proc" where
  "on_ipc (Ret x) = Ret x"
| "on_ipc (Halt n) = Halt n"
| "on_ipc Undef = Undef"
| "on_ipc (Act f) = Act (\<lambda>(s, h). map_option (\<lambda>(s', p). ((s', h), p)) (map_option (map_prod id on_ipc) (f s)))"
| "on_ipc (Fork c p) = Fork (\<lambda>j. on_ipc (c j)) (\<lambda>j. on_ipc (p j))"

definition of_cres :: "'a cres \<Rightarrow> ('s, 'a) proc" where
  "of_cres r = (case r of Val x \<Rightarrow> Ret x | Exit n \<Rightarrow> Halt n | Crash \<Rightarrow> Undef)"

text \<open>A call of the database library; one that does not return never lets the process go on.\<close>

definition on_db :: "('h \<Rightarrow> ('a cres \<times> 'h) option) \<Rightarrow> ('s \<times> 'h, 'a) proc" where
  "on_db f = Act (\<lambda>(s, h). map_option (\<lambda>(r, h'). ((s, h'), of_cres r)) (f h))"

lemma run_on_ipc:
  "run_proc (on_ipc p) (s, h) = (case run_proc p s of (r, s') \<Rightarrow> (r, (s', h)))"
proof (induction p arbitrary: s rule: proc_induct)
  case (Act f)
  show ?case
  proof (cases "f s")
    case (Some x)
    then obtain s' q where "f s = Some (s', q)" by (cases x) auto
    with Act [OF this] show ?thesis by simp
  qed simp
qed simp_all

lemma run_on_db:
  "f h = Some (Val x, h') \<Longrightarrow> run_proc (pbind (on_db f) k) (s, h) = run_proc (k x) (s, h')"
  by (simp add: on_db_def of_cres_def)

section \<open>One client\<close>

record 's server_io =
  io_receive :: "('s, datagram option) proc"
  io_send :: "datagram \<Rightarrow> ('s, int) proc"
  io_disconnect :: "('s, unit) proc"

text \<open>\<open>ipc_receive\<close> may give a null pointer, which \<open>serve\<close> reads; the result of \<open>ipc_send\<close> is dropped.\<close>

primrec serve ::
    "nat \<Rightarrow> build \<Rightarrow> (nat \<Rightarrow> char) \<Rightarrow> 'h db_ops \<Rightarrow> 's server_io \<Rightarrow> ('s \<times> 'h, unit) proc" where
  "serve 0 b hp ops io = Ret ()"
| "serve (Suc n) b hp ops io =
     pbind (on_ipc (io_receive io)) (\<lambda>datagram.
       case datagram of
         None \<Rightarrow> Undef
       | Some d \<Rightarrow>
           if dg_opcode d = opc OP_EXIT
           then pseq (on_ipc (io_disconnect io)) (Halt 0)
           else pbind (on_db (execute_datagram b hp ops d)) (\<lambda>ans.
                  case ans of
                    None \<Rightarrow> serve n b hp ops io
                  | Some a \<Rightarrow> pseq (on_ipc (io_send io a)) (serve n b hp ops io)))"

section \<open>Accepting clients\<close>

text \<open>
  What \<open>main\<close> uses of a transport, over its sessions \<open>'n\<close>: \<open>so_fork\<close> is what \<open>fork\<close> does to the
  session's descriptors, \<open>so_io p\<close> what the process \<open>p\<close> serves its client with.
\<close>

record ('s, 'n) server_ops =
  so_newsession :: 'n
  so_listen :: "'n \<Rightarrow> ('s, int \<times> 'n) proc"
  so_accept :: "'n \<Rightarrow> ('s, 'n) proc"
  so_shouldfork :: bool
  so_fork :: "'n \<Rightarrow> 's \<Rightarrow> 's"
  so_sync :: "nat \<Rightarrow> i32 \<Rightarrow> 'n \<Rightarrow> ('s, 'n) proc"
  so_waitsync :: "'n \<Rightarrow> ('s, 'n) proc"
  so_io :: "nat \<Rightarrow> 'n \<Rightarrow> 's server_io"
  so_disconnect :: "'n \<Rightarrow> ('s, unit) proc"
  so_free :: "'n \<Rightarrow> ('s, unit) proc"

text \<open>The body of \<open>case 0\<close>: the result of \<open>db_open\<close> is not looked at.\<close>

definition serve_client ::
    "nat \<Rightarrow> build \<Rightarrow> junk \<Rightarrow> ('h, 'q) sqlite \<Rightarrow> ('s, 'n) server_ops \<Rightarrow> nat \<Rightarrow> i32 \<Rightarrow> 'n \<Rightarrow>
     ('s \<times> 'h, unit) proc" where
  "serve_client n b jk api so pid cli_count session =
     pbind (on_ipc (so_sync so pid cli_count session)) (\<lambda>session.
     pbind (on_db (\<lambda>h. Some (db_open api DB_PATH h))) (\<lambda>_.
     pseq (serve n b (heap jk) (sqlite_ops b jk api) (so_io so pid session))
          (Ret ())))"

text \<open>
  \<open>pid\<close> keeps its initial value 0 when the transport does not fork: the process serves its first
  client.  \<open>forks c\<close>: the system has a process for the client number \<open>c\<close>; \<open>fork\<close> fails otherwise.
\<close>

primrec accept_loop ::
    "nat \<Rightarrow> nat \<Rightarrow> build \<Rightarrow> junk \<Rightarrow> (nat \<Rightarrow> ('h, 'q) sqlite) \<Rightarrow> ('s, 'n) server_ops \<Rightarrow> (i32 \<Rightarrow> bool) \<Rightarrow>
     nat \<Rightarrow> i32 \<Rightarrow> 'n \<Rightarrow> ('s \<times> 'h, unit) proc" where
  "accept_loop 0 n b jk api so forks pid cli_count session = Ret ()"
| "accept_loop (Suc m) n b jk api so forks pid cli_count session =
     pbind (on_ipc (so_accept so session)) (\<lambda>session.
     let cli_count = cli_count + 1 in
     if so_shouldfork so \<and> \<not> forks cli_count then Halt 1
     else if so_shouldfork so then
       pseq (on_ipc (upd (so_fork so session)))
            (Fork (\<lambda>child. serve_client n b jk (api child) so child cli_count session)
                  (\<lambda>child. pbind (on_ipc (so_waitsync so session)) (\<lambda>session.
                     accept_loop m n b jk api so forks pid cli_count session)))
     else serve_client n b jk (api pid) so pid cli_count session)"

definition server_main ::
    "nat \<Rightarrow> nat \<Rightarrow> build \<Rightarrow> junk \<Rightarrow> (nat \<Rightarrow> ('h, 'q) sqlite) \<Rightarrow> ('s, 'n) server_ops \<Rightarrow> (i32 \<Rightarrow> bool) \<Rightarrow>
     nat \<Rightarrow> ('s \<times> 'h, unit) proc" where
  "server_main m n b jk api so forks pid =
     pbind (on_ipc (so_listen so (so_newsession so))) (\<lambda>(err, session).
       if err = -1 then Halt 1
       else accept_loop m n b jk api so forks pid 0 session)"

text \<open>
  \<open>close_conn\<close>, the handler of SIGINT and, with pipes, of SIGPIPE.  The branch for SIGCHLD of
  \<open>int_handler\<close> is for a signal \<open>main\<close> does not install it for; it only waits for a child.
\<close>

definition close_conn :: "('h, 'q) sqlite \<Rightarrow> ('s, 'n) server_ops \<Rightarrow> 'n \<Rightarrow> ('s \<times> 'h, unit) proc" where
  "close_conn api so session =
     pseq (on_ipc (so_disconnect so session))
    (pseq (on_ipc (so_free so session))
    (pseq (on_db (\<lambda>h. Some (Val (), db_close api h)))
          (Halt 0)))"

definition SIGINT :: int where "SIGINT = 2"

definition int_handler :: "('h, 'q) sqlite \<Rightarrow> ('s, 'n) server_ops \<Rightarrow> 'n \<Rightarrow> int \<Rightarrow> ('s \<times> 'h, unit) proc" where
  "int_handler api so session s = (if s = SIGINT then close_conn api so session else Ret ())"

definition sigpipe_handler :: "('h, 'q) sqlite \<Rightarrow> ('s, 'n) server_ops \<Rightarrow> 'n \<Rightarrow> ('s \<times> 'h, unit) proc" where
  "sigpipe_handler api so session = close_conn api so session"

section \<open>Requests and answers, over any transport\<close>

text \<open>The loop is its rounds one after the other.\<close>

lemma serve_add: "serve (m + n) b hp ops io = pseq (serve m b hp ops io) (serve n b hp ops io)"
proof (induction m)
  case (Suc m)
  show ?case
    by (auto simp: pseq_def pbind_assoc Suc [unfolded pseq_def] intro!: arg_cong2 [where f = pbind] ext
        split: option.splits)
qed (simp add: pseq_def)

text \<open>
  The requests of one client executed in order on the database, with no transport; and the same
  conversation over a transport: for each request the client sends, the server makes one round, and
  the client receives.
\<close>

primrec direct ::
    "build \<Rightarrow> (nat \<Rightarrow> char) \<Rightarrow> 'h db_ops \<Rightarrow> datagram list \<Rightarrow> 'h \<Rightarrow> (datagram list \<times> 'h) option" where
  "direct b hp ops [] h = Some ([], h)"
| "direct b hp ops (d # ds) h =
     (case execute_datagram b hp ops d h of
        Some (Val (Some a), h') \<Rightarrow> map_option (\<lambda>(as, h''). (a # as, h'')) (direct b hp ops ds h')
      | _ \<Rightarrow> None)"

primrec conversation ::
    "(datagram \<Rightarrow> ('s, int) proc) \<Rightarrow> ('s, datagram option) proc \<Rightarrow> build \<Rightarrow> (nat \<Rightarrow> char) \<Rightarrow> 'h db_ops \<Rightarrow>
     's server_io \<Rightarrow> datagram list \<Rightarrow> ('s \<times> 'h, datagram option list) proc" where
  "conversation send recv b hp ops io [] = Ret []"
| "conversation send recv b hp ops io (d # ds) =
     pbind (pseq (on_ipc (send d)) (pseq (serve 1 b hp ops io) (on_ipc recv))) (\<lambda>x.
     pbind (conversation send recv b hp ops io ds) (\<lambda>xs. Ret (x # xs)))"

lemma direct_Cons:
  "direct b hp ops (d # ds) h = Some (as, h'') \<longleftrightarrow>
   (\<exists>a as' h'. as = a # as' \<and> execute_datagram b hp ops d h = Some (Val (Some a), h') \<and>
      direct b hp ops ds h' = Some (as', h''))"
  by (auto split: option.splits cres.splits)

definition io_of ::
    "('s, datagram option) proc \<Rightarrow> (datagram \<Rightarrow> ('s, int) proc) \<Rightarrow> ('s, unit) proc \<Rightarrow> 's server_io" where
  "io_of recv send disc = \<lparr>io_receive = recv, io_send = send, io_disconnect = disc\<rparr>"

lemma io_of_simps [simp]:
  "io_receive (io_of r s d) = r" "io_send (io_of r s d) = s" "io_disconnect (io_of r s d) = d"
  by (simp_all add: io_of_def)

context ipc_link
begin

lemma served:
  assumes "idle s" "req_fits d" "dg_opcode (req_seen d) \<noteq> opc OP_EXIT"
    and "execute_datagram b hp ops (req_seen d) h = Some (Val (Some a), h')" "ans_fits a"
  shows "\<exists>s1 s2 s3. run_proc (c_send d) s = (Done 0, s1) \<and>
    run_proc (serve 1 b hp ops (io_of s_recv s_send disc)) (s1, h) = (Done (), (s2, h')) \<and>
    run_proc c_recv s2 = (Done (Some (ans_seen a)), s3) \<and> idle s3"
proof -
  obtain s1 s2 where r: "run_proc (c_send d) s = (Done 0, s1)"
      "run_proc s_recv s1 = (Done (Some (req_seen d)), s2)" "idle s2"
    using req.delivers [OF assms(1,2)] by blast
  obtain s3 s4 where a: "run_proc (s_send a) s2 = (Done 0, s3)"
      "run_proc c_recv s3 = (Done (Some (ans_seen a)), s4)" "idle s4"
    using ans.delivers [OF r(3) assms(5)] by blast
  have "run_proc (serve 1 b hp ops (io_of s_recv s_send disc)) (s1, h) = (Done (), (s3, h'))"
    using assms(3,4) r(2) a(1)
    by (simp add: run_proc_bind run_on_ipc on_db_def of_cres_def pseq_def)
  with r(1) a(2,3) show ?thesis by blast
qed

text \<open>The transport and the loop together are the direct execution.\<close>

lemma conversation_direct:
  "idle s \<Longrightarrow> direct b hp ops (map req_seen ds) h = Some (as, h') \<Longrightarrow>
   \<forall>d \<in> set ds. req_fits d \<and> dg_opcode (req_seen d) \<noteq> opc OP_EXIT \<Longrightarrow> \<forall>a \<in> set as. ans_fits a \<Longrightarrow>
   \<exists>s'. run_proc (conversation c_send c_recv b hp ops (io_of s_recv s_send disc) ds) (s, h) =
     (Done (map (Some \<circ> ans_seen) as), (s', h')) \<and> idle s'"
proof (induction ds arbitrary: s h as)
  case (Cons d ds)
  obtain a as' h1 where as: "as = a # as'"
    and ex: "execute_datagram b hp ops (req_seen d) h = Some (Val (Some a), h1)"
    and rest: "direct b hp ops (map req_seen ds) h1 = Some (as', h')"
    using Cons.prems(2) unfolding list.map direct_Cons by blast
  obtain s1 s2 s3 where one: "run_proc (c_send d) s = (Done 0, s1)"
      "run_proc (serve 1 b hp ops (io_of s_recv s_send disc)) (s1, h) = (Done (), (s2, h1))"
      "run_proc c_recv s2 = (Done (Some (ans_seen a)), s3)" "idle s3"
    using served [OF Cons.prems(1) _ _ ex] Cons.prems(3,4) as by fastforce
  obtain s4 where "run_proc (conversation c_send c_recv b hp ops (io_of s_recv s_send disc) ds) (s3, h1) =
      (Done (map (Some \<circ> ans_seen) as'), (s4, h'))" "idle s4"
    using Cons.IH [OF one(4) rest] Cons.prems(3,4) as by auto
  with one as show ?case by (simp add: run_proc_bind run_on_ipc pseq_def del: serve.simps One_nat_def)
qed simp

lemma exit_served:
  assumes "idle s" "req_fits d" "dg_opcode (req_seen d) = opc OP_EXIT"
  shows "\<exists>s1 s2. run_proc (c_send d) s = (Done 0, s1) \<and> idle s2 \<and>
    (\<forall>s3. run_proc disc s2 = (Done (), s3) \<longrightarrow>
       run_proc (serve (Suc n) b hp ops (io_of s_recv s_send disc)) (s1, h) = (Halted 0, (s3, h)))"
proof -
  obtain s1 s2 where r: "run_proc (c_send d) s = (Done 0, s1)"
      "run_proc s_recv s1 = (Done (Some (req_seen d)), s2)" "idle s2"
    using req.delivers [OF assms(1,2)] by blast
  then show ?thesis using assms(3) by (fastforce simp: run_proc_bind run_on_ipc pseq_def)
qed

end

text \<open>A link whose answers are refused when they are too large.\<close>

locale ipc_checked_link = ipc_link +
  assumes ans_refused: "dg_size a > of_nat DATAGRAM_MAXSIZE \<Longrightarrow> run_proc (s_send a) s = (Done (-1), s)"
begin

text \<open>The refusal is not looked at: the client waits for the answer and the server for a request.\<close>

lemma refused_stuck:
  assumes "idle s" "req_fits d" "dg_opcode (req_seen d) \<noteq> opc OP_EXIT"
    and "execute_datagram b hp ops (req_seen d) h = Some (Val (Some a), h')"
    and "dg_size a > of_nat DATAGRAM_MAXSIZE"
  shows "\<exists>s1 s2. run_proc (c_send d) s = (Done 0, s1) \<and>
    run_proc (serve 1 b hp ops (io_of s_recv s_send disc)) (s1, h) = (Done (), (s2, h')) \<and>
    fst (run_proc c_recv s2) = Blocked \<and>
    fst (run_proc (serve (Suc n) b hp ops (io_of s_recv s_send disc)) (s2, h')) = Blocked"
proof -
  obtain s1 s2 where r: "run_proc (c_send d) s = (Done 0, s1)"
      "run_proc s_recv s1 = (Done (Some (req_seen d)), s2)" "idle s2"
    using req.delivers [OF assms(1,2)] by blast
  have "run_proc (serve 1 b hp ops (io_of s_recv s_send disc)) (s1, h) = (Done (), (s2, h'))"
    using assms(3,4) r(2) ans_refused [OF assms(5), of s2]
    by (simp add: run_proc_bind run_on_ipc on_db_def of_cres_def pseq_def)
  moreover have "fst (run_proc c_recv s2) = Blocked" by (rule ans.waits [OF r(3)])
  moreover have "fst (run_proc (serve (Suc n) b hp ops (io_of s_recv s_send disc)) (s2, h')) = Blocked"
    using req.waits [OF r(3)]
    by (cases "run_proc s_recv s2") (simp add: run_proc_bind run_on_ipc)
  ultimately show ?thesis using r(1) by blast
qed

end

interpretation shm_big: ipc_checked_link
    "shm_ipc_send CLIENT flg p session" "shm_receive_ptr SERVER q session"
    "shm_ipc_send SERVER flg q session" "shm_receive_ptr CLIENT p session"
    "shm_idle session" shm_fits "\<lambda>d. d" shm_fits "\<lambda>d. d"
  for flg p q session
  by unfold_locales (rule shm_ans.refuses)

interpretation fifo_big: ipc_checked_link
    "fifo_ipc_send CLIENT csig session" "fifo_ipc_receive SERVER session"
    "fifo_ipc_send SERVER ssig session" "fifo_ipc_receive CLIENT session"
    "fifo_idle session" fifo_fits "\<lambda>d. d" fifo_fits "\<lambda>d. d"
  for csig ssig session
  by unfold_locales (rule fifo_ans.refuses)

end
