(* ===== verification/Booking.thy ===== *)
theory Booking
  imports Libserver
begin

text \<open>
  Properties of the ticket database: \<open>server/db/database.c\<close> under the documented behaviour of SQLite
  (\<open>sqlite_ok\<close>), and where a call has to succeed, under a library that is ready (\<open>sqlite_ready\<close>).
  The witnesses evaluate each property on the engine of \<open>SqliteRef\<close>.
\<close>

section \<open>Buying a ticket\<close>

text \<open>Tables after a ticket for flight \<open>f\<close> was added, and after ticket \<open>i\<close> was removed.\<close>

definition add_row :: "int \<Rightarrow> tables \<Rightarrow> tables" where
  "add_row f t = t\<lparr>tickets := Some (ticket_list t @ [(seq_ticket t + 1, f)]),
                  seq_ticket := seq_ticket t + 1\<rparr>"

definition del_row :: "int \<Rightarrow> tables \<Rightarrow> tables" where
  "del_row i t = t\<lparr>tickets := Some (filter (\<lambda>(j, f). j \<noteq> i) (ticket_list t))\<rparr>"

definition sellable :: "tables \<Rightarrow> bool" where
  "sellable t \<longleftrightarrow> tickets t \<noteq> None \<and> flights t \<noteq> None \<and> seq_ticket t < MAX_ROWID"

lemma purchase_ready:
  assumes "sqlite_ok api rd" "sqlite_ready api rd" "view_wf (view rd h)"
    and "sellable (current (view rd h))"
  shows "\<exists>h'. db_purchase api fid h =
      (if sint fid \<in> flight_ids (current (view rd h))
       then (Val (word_of_int (seq_ticket (current (view rd h)) + 1)), h') else (Val (-1), h')) \<and>
    view rd h' =
      (if sint fid \<in> flight_ids (current (view rd h))
       then \<lparr>committed = add_row (sint fid) (current (view rd h)), pending = None,
              last_rowid = seq_ticket (current (view rd h)) + 1\<rparr>
       else (view rd h)\<lparr>pending := Some (current (view rd h))\<rparr>)"
proof -
  obtain r h' where run: "db_purchase api fid h = (r, h')" by force
  obtain ts fs where "tickets (current (view rd h)) = Some ts" "flights (current (view rd h)) = Some fs"
      "seq_ticket (current (view rd h)) < MAX_ROWID"
    using assms(4) by (auto simp: sellable_def)
  from db_purchase_ready [OF assms(1-3) this run] this(1) run show ?thesis
    by (auto simp: add_row_def list_Some split: if_splits)
qed

lemma current_open [simp]: "current (v\<lparr>pending := Some t\<rparr>) = t"
  by (simp add: current_def)

lemma cancel_ready:
  assumes "sqlite_ok api rd" "sqlite_ready api rd" "tickets (current (view rd h)) \<noteq> None"
  shows "\<exists>h'. db_cancel api rid h = (Val True, h') \<and>
    view rd h' = put_current (del_row (sint rid) (current (view rd h))) (view rd h)"
proof -
  obtain r h' where run: "db_cancel api rid h = (r, h')" by force
  have ex: "stmt_exec (Delete_ticket (sint rid)) (view rd h) =
      Some (put_current (del_row (sint rid) (current (view rd h))) (view rd h))"
    using assms(3) by (auto simp: del_row_def list_Some)
  show ?thesis using db_cancel_outcome [OF assms(1) run] assms(2) run unfolding ex by auto
qed

text \<open>
  C1: buying a ticket for a flight that exists returns the next ticket id and commits a row
  (id, flight) at the end of the ticket table, changing nothing else and leaving no transaction open.
\<close>

theorem purchase_existing:
  assumes "sqlite_ok api rd" "sqlite_ready api rd" "view_wf (view rd h)"
    and "sellable (current (view rd h))" "sint fid \<in> flight_ids (current (view rd h))"
  shows "\<exists>h'. db_purchase api fid h =
      (Val (word_of_int (seq_ticket (current (view rd h)) + 1)), h') \<and>
    view rd h' = \<lparr>committed = add_row (sint fid) (current (view rd h)), pending = None,
      last_rowid = seq_ticket (current (view rd h)) + 1\<rparr>"
  using purchase_ready [OF assms(1-4), of fid] assms(5) by simp

text \<open>What the witnesses find in memory that was never written.\<close>

definition ex_junk :: junk where
  "ex_junk = \<lparr>heap = (\<lambda>i. CHR 0xA5), stack = (\<lambda>i. CHR 0x5A)\<rparr>"

lemma ex_sellable: "sellable (current (ref_view ex_state))"
  by (simp add: ex_state_def ex_tables_def sellable_def current_def MAX_ROWID_def)

lemma ex_current: "current (ref_view ex_state) = ex_tables"
  by (simp add: ex_state_def current_def)

lemma ex_flight_ids: "flight_ids ex_tables = {1, 2}"
  by (auto simp: flight_ids_def flight_list_def ex_tables_def)

theorem purchase_existing_witness:
  "\<exists>h'. db_purchase ref_api 2 ex_state = (Val 2, h') \<and>
     tickets (committed (ref_view h')) = Some [(1, 1), (2, 2)] \<and> pending (ref_view h') = None"
proof -
  have "sint (2 :: i32) \<in> flight_ids (current (view ref_reading ex_state))" by (simp add: ex_current ex_flight_ids)
  from purchase_existing [OF ref_sqlite_ok ref_sqlite_ready _ _ this] ex_state_wf ex_sellable
  obtain h' where "db_purchase ref_api 2 ex_state = (Val (word_of_int (seq_ticket ex_tables + 1)), h')"
      "ref_view h' = \<lparr>committed = add_row 2 ex_tables, pending = None, last_rowid = seq_ticket ex_tables + 1\<rparr>"
    by (auto simp: ex_current)
  then show ?thesis by (simp add: add_row_def ticket_list_def ex_tables_def)
qed

text \<open>
  Buying a ticket for a flight that does not exist returns -1 and sells nothing, but the
  transaction it opened is still open: \<open>db_purchase\<close> returns without \<open>END TRANSACTION\<close>.
\<close>

theorem purchase_missing:
  assumes "sqlite_ok api rd" "sqlite_ready api rd" "view_wf (view rd h)"
    and "sellable (current (view rd h))" "sint fid \<notin> flight_ids (current (view rd h))"
  shows "\<exists>h'. db_purchase api fid h = (Val (-1), h') \<and>
    view rd h' = (view rd h)\<lparr>pending := Some (current (view rd h))\<rparr>"
  using purchase_ready [OF assms(1-4), of fid] assms(5) by simp

theorem purchase_missing_witness:
  "\<exists>h'. db_purchase ref_api 7 ex_state = (Val (-1), h') \<and> pending (ref_view h') = Some ex_tables"
proof -
  have "sint (7 :: i32) \<notin> flight_ids (current (view ref_reading ex_state))" by (simp add: ex_current ex_flight_ids)
  from purchase_missing [OF ref_sqlite_ok ref_sqlite_ready _ _ this] ex_state_wf ex_sellable
  show ?thesis by (auto simp: ex_current)
qed

text \<open>
  C20: what a client does after such a failed purchase is lost when its server process ends: a
  cancellation is answered with TRUE, and once the connection is closed the committed tables are
  those of before, the cancelled ticket included.
\<close>

theorem cancel_after_failed_purchase_is_lost:
  assumes "sqlite_ok api rd" "sqlite_ready api rd" "view_wf (view rd h)"
    and "sellable (current (view rd h))" "sint fid \<notin> flight_ids (current (view rd h))"
    and "pending (view rd h) = None"
  shows "\<exists>h1 h2. db_purchase api fid h = (Val (-1), h1) \<and> db_cancel api rid h1 = (Val True, h2) \<and>
    current (view rd h2) = del_row (sint rid) (current (view rd h)) \<and>
    view rd (db_close api h2) = view rd h"
proof -
  obtain h1 where h1: "db_purchase api fid h = (Val (-1), h1)"
      "view rd h1 = (view rd h)\<lparr>pending := Some (current (view rd h))\<rparr>"
    using purchase_ready [OF assms(1-4), of fid] assms(5) by auto
  have "tickets (current (view rd h1)) \<noteq> None"
    using assms(4) h1(2) by (simp add: sellable_def current_def)
  from cancel_ready [OF assms(1,2) this] obtain h2 where h2: "db_cancel api rid h1 = (Val True, h2)"
      "view rd h2 = put_current (del_row (sint rid) (current (view rd h1))) (view rd h1)" by blast
  have "view rd (db_close api h2) = view rd h"
    using assms(6) h1(2) h2(2) close_view [OF assms(1), of h2]
    by (simp add: db_close_def put_current_def rollback_def)
  then show ?thesis using h1 h2 by simp
qed

theorem cancel_after_failed_purchase_is_lost_witness:
  "\<exists>h1 h2. db_purchase ref_api 7 ex_state = (Val (-1), h1) \<and> db_cancel ref_api 1 h1 = (Val True, h2) \<and>
     tickets (current (ref_view h2)) = Some [] \<and>
     tickets (committed (ref_view (db_close ref_api h2))) = Some [(1, 1)]"
proof -
  have "sint (7 :: i32) \<notin> flight_ids (current (view ref_reading ex_state))" by (simp add: ex_current ex_flight_ids)
  moreover have "pending (view ref_reading ex_state) = None" by (simp add: ex_state_def)
  ultimately obtain h1 h2 where "db_purchase ref_api 7 ex_state = (Val (-1), h1)"
      "db_cancel ref_api 1 h1 = (Val True, h2)"
      "current (ref_view h2) = del_row 1 ex_tables" "ref_view (db_close ref_api h2) = ref_view ex_state"
    using cancel_after_failed_purchase_is_lost
      [OF ref_sqlite_ok ref_sqlite_ready, of ex_state "7 :: i32" "1 :: i32"] ex_state_wf ex_sellable
    by (auto simp: ex_current)
  then show ?thesis
    by (auto simp: del_row_def ticket_list_def ex_state_def ex_tables_def)
qed


lemma begin_exec:
  "stmt_exec Begin_transaction v = Some v' \<longleftrightarrow>
   pending v = None \<and> v' = v\<lparr>pending := Some (committed v)\<rparr>"
  by (auto split: option.splits)

lemma end_exec:
  "stmt_exec End_transaction v = Some v' \<longleftrightarrow>
   (\<exists>t. pending v = Some t \<and> v' = v\<lparr>committed := t, pending := None\<rparr>)"
  by (auto split: option.splits)

lemma begin_keeps:
  assumes "sqlite_ok api rd" "pending (view rd h) = None"
  shows "committed (view rd (snd (api_exec api (stmt_text Begin_transaction) h))) = committed (view rd h)"
    and "current (view rd (snd (api_exec api (stmt_text Begin_transaction) h))) = committed (view rd h)"
proof -
  obtain rc h1 where e: "api_exec api (stmt_text Begin_transaction) h = (rc, h1)" by force
  have "committed (view rd h1) = committed (view rd h) \<and> current (view rd h1) = committed (view rd h)"
    using exec_cases [OF assms(1) e] assms(2)
    by (cases "rc = SQLITE_OK") (auto simp: unharmed_def current_no_pending begin_exec simp del: stmt_exec.simps)
  then show "committed (view rd (snd (api_exec api (stmt_text Begin_transaction) h))) = committed (view rd h)"
    and "current (view rd (snd (api_exec api (stmt_text Begin_transaction) h))) = committed (view rd h)"
    using e by simp_all
qed

lemma end_commits:
  assumes "sqlite_ok api rd"
  shows "committed (view rd (snd (api_exec api (stmt_text End_transaction) h))) \<in>
    {committed (view rd h), current (view rd h)}"
proof -
  obtain rc h1 where e: "api_exec api (stmt_text End_transaction) h = (rc, h1)" by force
  show ?thesis
    using exec_cases [OF assms e] e
    by (cases "rc = SQLITE_OK") (auto simp: unharmed_def current_def end_exec simp del: stmt_exec.simps)
qed

lemma insert_ticket_view:
  assumes "stmt_exec (Insert_ticket f) v = Some v'"
  shows "current v' = add_row f (current v) \<and> committed v' \<in> {committed v, add_row f (current v)}"
  using assms
  by (auto simp: add_row_def list_Some put_current_def current_def split: option.splits if_splits)

lemma insert_ticket_number:
  "stmt_exec (Insert_ticket f) v = Some v' \<Longrightarrow> last_rowid v' = seq_ticket (current v) + 1"
  by (auto simp: put_current_def current_def split: option.splits if_splits)

lemma purchase_outcome:
  assumes ok: "sqlite_ok api rd" and wf: "view_wf (view rd h)" and out: "pending (view rd h) = None"
    and run: "db_purchase api fid h = (r, h')"
  shows "(r = Exit 1 \<and> committed (view rd h') = committed (view rd h)) \<or>
    (r = Val (-1) \<and> sint fid \<notin> flight_ids (committed (view rd h)) \<and>
     committed (view rd h') = committed (view rd h)) \<or>
    (r = Val (word_of_int (seq_ticket (committed (view rd h)) + 1)) \<and>
     sint fid \<in> flight_ids (committed (view rd h)) \<and>
     committed (view rd h') \<in>
       {committed (view rd h), add_row (sint fid) (committed (view rd h))})"
proof -
  let ?h1 = "snd (api_exec api (stmt_text Begin_transaction) h)"
  note b = begin_keeps [OF ok out]
  have twf: "tables_wf (current (view rd ?h1))"
    using begin_wf [OF ok wf] by (simp add: view_wf_def)
  obtain e h2 where e: "db_flight_exists api fid ?h1 = (e, h2)" by force
  obtain a h3 where a: "add_ticket api fid h2 = (a, h3)" by force
  from db_flight_exists_outcome [OF ok twf e] show ?thesis
  proof (elim disjE conjE)
    assume "e = Exit 1" "view rd h2 = rollback (view rd ?h1)"
    then show ?thesis using run e b by (auto simp: db_purchase_def csimps)
  next
    assume found: "e = Val (sint fid \<in> flight_ids (current (view rd ?h1)))" "view rd h2 = view rd ?h1"
    from add_ticket_outcome [OF ok a] show ?thesis
    proof (elim disjE conjE)
      assume "a = Exit 1" "view rd h3 = rollback (view rd h2)"
      then show ?thesis using run e a found b by (auto simp: db_purchase_def csimps split: if_splits)
    next
      assume v: "a = Val (word_of_int (last_rowid (view rd h3)))"
        "stmt_exec (Insert_ticket (sint fid)) (view rd h2) = Some (view rd h3)"
      have "last_rowid (view rd h3) = seq_ticket (committed (view rd h)) + 1"
        using insert_ticket_number [OF v(2)] found(2) b(2) by simp
      then show ?thesis
        using run e a found b insert_ticket_view [OF v(2)] end_commits [OF ok, of h3] v(1)
        by (auto simp: db_purchase_def csimps split: if_splits)
    qed
  qed
qed

text \<open>
  C2: whatever the library returns, a sale is all or nothing.  Either the purchase ends in \<open>exit(1)\<close>, or
  returns -1 for a flight that does not exist, and then nothing is committed; or the flight exists, the
  number of the new ticket is returned (in 32 bits), and the committed tables are what they were or have
  that one new row.  In particular -1 commits nothing, unless it is the new ticket's number itself.
\<close>

theorem purchase_commits:
  assumes "sqlite_ok api rd" "view_wf (view rd h)" "pending (view rd h) = None"
    and "db_purchase api fid h = (r, h')"
  shows "((r = Exit 1 \<and> committed (view rd h') = committed (view rd h)) \<or>
      (r = Val (-1) \<and> sint fid \<notin> flight_ids (committed (view rd h)) \<and>
       committed (view rd h') = committed (view rd h)) \<or>
      (r = Val (word_of_int (seq_ticket (committed (view rd h)) + 1)) \<and>
       sint fid \<in> flight_ids (committed (view rd h)) \<and>
       committed (view rd h') \<in>
         {committed (view rd h), add_row (sint fid) (committed (view rd h))})) \<and>
    (r = Val (-1) \<and> word_of_int (seq_ticket (committed (view rd h)) + 1) \<noteq> (-1 :: i32) \<longrightarrow>
      committed (view rd h') = committed (view rd h))"
  using purchase_outcome [OF assms] by auto


text \<open>
  The engine of \<open>SqliteRef\<close> with a disk that is busy at every commit: SQLite answers
  \<open>SQLITE_BUSY\<close> and may roll back.
\<close>

definition busy_api :: "(ref_state, ref_stmt) sqlite" where
  "busy_api = ref_api\<lparr>api_exec := \<lambda>sql h.
     if sql = ''END TRANSACTION;'' then (SQLITE_BUSY, h\<lparr>ref_view := rollback (ref_view h)\<rparr>)
     else api_exec ref_api sql h\<rparr>"

lemma printf_spec_exec:
  "printf_spec api rd \<Longrightarrow> (\<And>sql h. console rd (snd (f sql h)) = console rd h) \<Longrightarrow>
   printf_spec (api\<lparr>api_exec := f\<rparr>) rd"
  by (simp add: printf_spec_def)

lemma sqlite_ok_exec:
  assumes "sqlite_ok api rd" "exec_spec (api\<lparr>api_exec := f\<rparr>) rd"
    and "\<And>sql h. console rd (snd (f sql h)) = console rd h"
  shows "sqlite_ok (api\<lparr>api_exec := f\<rparr>) rd"
  using assms(1,2) printf_spec_exec [of api rd f, OF _ assms(3)]
  by (simp add: sqlite_ok_def close_spec_def last_insert_rowid_spec_def open_spec_def
      prepare_spec_def step_spec_def column_int_spec_def finalize_spec_def access_spec_def free_spec_def)

lemma text_end_iff: "stmt_text st = ''END TRANSACTION;'' \<longleftrightarrow> st = End_transaction"
  by (cases st) (simp_all add: stmt_text.simps)

lemma busy_sqlite_ok: "sqlite_ok busy_api ref_reading"
proof -
  have "exec_spec ref_api ref_reading" using ref_sqlite_ok by (simp add: sqlite_ok_def)
  then have "exec_spec busy_api ref_reading"
    unfolding busy_api_def
    by (rule exec_spec_failing) (auto simp: unharmed_def primary_code_def result_codes split: if_splits)
  then show ?thesis
    unfolding busy_api_def by (rule sqlite_ok_exec [OF ref_sqlite_ok]) (simp add: ref_exec_console)
qed


lemma busy_simps:
  "api_exec busy_api (stmt_text st) h =
     (if st = End_transaction then (SQLITE_BUSY, h\<lparr>ref_view := rollback (ref_view h)\<rparr>)
      else (case stmt_exec st (ref_view h) of
              None \<Rightarrow> (SQLITE_ERROR, h)
            | Some v \<Rightarrow> (SQLITE_OK, h\<lparr>ref_view := v\<rparr>)))"
  "api_prepare_v2 busy_api (query_text qy) h =
     (case query_rows qy (ref_view h) of
        None \<Rightarrow> (SQLITE_ERROR, ([], None, False), h)
      | Some rows \<Rightarrow> (SQLITE_OK, (rows, None, True), h))"
  "api_step busy_api = ref_step" "api_column_int busy_api = ref_column_int"
  "api_finalize busy_api q h = (SQLITE_OK, h)"
  "api_last_insert_rowid busy_api h = word_of_int (last_rowid (ref_view h))"
  by (simp_all add: busy_api_def ref_api_def ref_exec_stmt ref_prepare_def read_query_text text_end_iff)

lemma busy_purchase:
  "\<exists>h'. db_purchase busy_api 2 ex_state = (Val 2, h') \<and> committed (ref_view h') = ex_tables"
  by (simp add: db_purchase_def db_flight_exists_def add_ticket_def csimps DB_EXEC_eq
      DB_PREPARE_STATEMENT_eq DB_FINALIZE_STATEMENT_eq SQLITE_STATEMENT_EXPECT_eq busy_simps
      ex_state_def ex_tables_def current_def put_current_def MAX_ROWID_def)

theorem purchase_commits_witness:
  "\<exists>h' h''. db_purchase busy_api 2 ex_state = (Val 2, h') \<and>
     committed (ref_view h') \<in> {ex_tables, add_row 2 ex_tables} \<and>
     db_purchase ref_api 7 ex_state = (Val (-1), h'') \<and> committed (ref_view h'') = ex_tables"
proof -
  obtain h' where h': "db_purchase busy_api 2 ex_state = (Val 2, h')"
    using busy_purchase by blast
  have out: "pending (view ref_reading ex_state) = None" and wf: "view_wf (view ref_reading ex_state)"
    using ex_state_wf by (simp_all add: ex_state_def)
  have "sint (7 :: i32) \<notin> flight_ids (current (view ref_reading ex_state))" by (simp add: ex_current ex_flight_ids)
  then obtain h'' where h'': "db_purchase ref_api 7 ex_state = (Val (-1), h'')"
    using purchase_missing [OF ref_sqlite_ok ref_sqlite_ready, of ex_state 7] ex_state_wf ex_sellable by auto
  have none: "sint (7 :: i32) \<notin> flight_ids (committed (view ref_reading ex_state))"
    using ex_flight_ids by (simp add: ex_state_def)
  have "committed (ref_view h') \<in> {ex_tables, add_row 2 ex_tables}"
    using purchase_commits [OF busy_sqlite_ok wf out h'] by (auto simp: ex_state_def)
  moreover have "committed (ref_view h'') = ex_tables"
    using purchase_commits [OF ref_sqlite_ok wf out h''] none by (auto simp: ex_state_def)
  ultimately show ?thesis using h' h'' by blast
qed


lemma insert_in_transaction:
  assumes "stmt_exec (Insert_ticket f) v = Some v'" "pending v = Some t"
  shows "last_rowid v' = seq_ticket t + 1" "committed v' = committed v"
  using assms by (auto simp: put_current_def current_def split: option.splits if_splits)

lemma insert_pending:
  assumes "stmt_exec (Insert_ticket f) v = Some v'" "pending v = Some t"
  shows "pending v' = Some (add_row f t)"
  using assms
  by (auto simp: add_row_def list_Some put_current_def current_def split: option.splits if_splits)

text \<open>
  C18: a sale the client is told of can be lost.  When the flight exists and every call of the purchase
  but the last succeeds, and the commit of just this sale fails, the purchase still returns the number
  of the new ticket, but nothing is committed, and when the server closes the connection the ticket is
  gone.
\<close>

theorem reported_sale_lost:
  assumes ok: "sqlite_ok api rd" and wf: "view_wf (view rd h)" and out: "pending (view rd h) = None"
    and sell: "sellable (committed (view rd h))" "sint fid \<in> flight_ids (committed (view rd h))"
    and queries: "queries_ready api rd"
    and begins: "fst (api_exec api (stmt_text Begin_transaction) h) = SQLITE_OK"
    and inserts: "\<And>h1. view rd h1 = (view rd h)\<lparr>pending := Some (committed (view rd h))\<rparr> \<Longrightarrow>
      fst (api_exec api (stmt_text (Insert_ticket (sint fid))) h1) = SQLITE_OK"
    and no_commit: "\<And>h1. committed (view rd h1) = committed (view rd h) \<Longrightarrow>
      pending (view rd h1) = Some (add_row (sint fid) (committed (view rd h))) \<Longrightarrow>
      fst (api_exec api (stmt_text End_transaction) h1) \<noteq> SQLITE_OK"
  shows "\<exists>h'. db_purchase api fid h = (Val (word_of_int (seq_ticket (committed (view rd h)) + 1)), h') \<and>
    committed (view rd h') = committed (view rd h) \<and>
    current (view rd (db_close api h')) = committed (view rd h)"
proof -
  let ?c = "committed (view rd h)" let ?v = "(view rd h)\<lparr>pending := Some ?c\<rparr>"
  obtain h1 where b: "api_exec api (stmt_text Begin_transaction) h = (SQLITE_OK, h1)"
    using begins by (metis prod.collapse)
  have v1: "view rd h1 = ?v"
    using exec_cases(1) [OF ok b refl] by (simp add: begin_exec del: stmt_exec.simps)
  have twf: "tables_wf (current (view rd h1))" and fl: "flights (current (view rd h1)) \<noteq> None"
    using wf sell(1) v1 by (simp_all add: view_wf_def current_def sellable_def)
  obtain e h2 where e: "db_flight_exists api fid h1 = (e, h2)" by force
  have e': "e = Val True" "view rd h2 = ?v"
    using db_flight_exists_outcome [OF ok twf e] queries fl v1 sell(2) by (auto simp: current_def)
  obtain h3 where i: "api_exec api (stmt_text (Insert_ticket (sint fid))) h2 = (SQLITE_OK, h3)"
    using inserts [OF e'(2)] by (metis prod.collapse)
  have ins: "stmt_exec (Insert_ticket (sint fid)) ?v = Some (view rd h3)"
    using exec_cases(1) [OF ok i refl] e'(2) by simp
  have v3: "last_rowid (view rd h3) = seq_ticket ?c + 1" "committed (view rd h3) = ?c"
    "pending (view rd h3) = Some (add_row (sint fid) ?c)"
    using insert_in_transaction [OF ins] insert_pending [OF ins] by simp_all
  have a: "add_ticket api fid h2 = (Val (word_of_int (seq_ticket ?c + 1)), h3)"
    unfolding v3(1) [symmetric] by (simp add: add_ticket_def csimps DB_EXEC_eq i rowid_view [OF ok] ucast_word_of_int)
  obtain rc h4 where f: "api_exec api (stmt_text End_transaction) h3 = (rc, h4)" by force
  have rc: "rc \<noteq> SQLITE_OK" using no_commit [OF v3(2,3)] f by simp
  from exec_cases(2) [OF ok f rc] have "committed (view rd h4) = ?c"
    using v3(2) by (auto simp: unharmed_def)
  moreover have "db_purchase api fid h = (Val (word_of_int (seq_ticket ?c + 1)), h4)"
    using b e e'(1) a f by (simp add: db_purchase_def csimps)
  ultimately show ?thesis by (simp add: db_close_def close_view [OF ok])
qed

theorem reported_sale_lost_witness:
  "\<exists>h'. db_purchase busy_api 2 ex_state = (Val 2, h') \<and> committed (ref_view h') = ex_tables \<and>
     tickets (current (ref_view (db_close busy_api h'))) = Some [(1, 1)]"
proof -
  have view: "committed (ref_view ex_state) = ex_tables" "pending (view ref_reading ex_state) = None"
    by (simp_all add: ex_state_def)
  have queries: "queries_ready busy_api ref_reading"
    using ready_rules(4) [OF ref_sqlite_ready] by (simp add: queries_ready_def busy_api_def)
  have begins: "fst (api_exec busy_api (stmt_text Begin_transaction) ex_state) = SQLITE_OK"
    by (simp add: busy_simps ex_state_def)
  have inserts: "fst (api_exec busy_api (stmt_text (Insert_ticket (sint (2 :: i32)))) h1) = SQLITE_OK"
    if "view ref_reading h1 = (view ref_reading ex_state)\<lparr>pending := Some (committed (view ref_reading ex_state))\<rparr>" for h1
    using that by (simp add: busy_simps ex_state_def ex_tables_def current_def put_current_def MAX_ROWID_def)
  have no_commit: "fst (api_exec busy_api (stmt_text End_transaction) h1) \<noteq> SQLITE_OK" for h1
    by (simp add: busy_simps result_codes)
  have sell: "sellable (committed (view ref_reading ex_state))"
      "sint (2 :: i32) \<in> flight_ids (committed (view ref_reading ex_state))"
    using ex_sellable ex_flight_ids by (simp_all add: view ex_current)
  have "view_wf (view ref_reading ex_state)" using ex_state_wf by simp
  from reported_sale_lost [OF busy_sqlite_ok this view(2) sell queries begins inserts no_commit]
  show ?thesis by (auto simp: view) (auto simp: ex_tables_def)
qed

section \<open>Cancelling\<close>

lemma current_committed [simp]: "current \<lparr>committed = t, pending = None, last_rowid = r\<rparr> = t"
  by (simp add: current_def)

lemma add_row_simps [simp]:
  "ticket_list (add_row f t) = ticket_list t @ [(seq_ticket t + 1, f)]"
  "seq_ticket (add_row f t) = seq_ticket t + 1" "flight_ids (add_row f t) = flight_ids t"
  "tickets (add_row f t) \<noteq> None" "flights (add_row f t) = flights t"
  by (simp_all add: add_row_def flight_ids_def)

lemma del_row_simps [simp]:
  "ticket_list (del_row i t) = filter (\<lambda>(j, f). j \<noteq> i) (ticket_list t)"
  "seq_ticket (del_row i t) = seq_ticket t" "flight_ids (del_row i t) = flight_ids t"
  "tickets (del_row i t) \<noteq> None" "flights (del_row i t) = flights t"
  by (simp_all add: del_row_def flight_ids_def)

lemma del_row_missing:
  assumes "tickets t \<noteq> None" "i \<notin> fst ` set (ticket_list t)"
  shows "del_row i t = t"
proof -
  have "filter (\<lambda>(j, f). j \<noteq> i) (ticket_list t) = ticket_list t"
    using assms(2) by (force simp: filter_id_conv)
  with assms(1) show ?thesis by (auto simp: del_row_def ticket_list_def split: option.splits)
qed

lemma sint_ticket: "0 \<le> n \<Longrightarrow> n < 2147483648 \<Longrightarrow> sint (word_of_int n :: i32) = n"
  by (simp add: signed_of_int signed_take_bit_int_eq_self_iff)

text \<open>
  C31: cancelling the ticket just bought gives the ticket table of before, and its id is not given
  out again: the next purchase returns the following one (for ids that fit the datagram's 32 bits).
\<close>

theorem cancel_undoes_purchase:
  assumes ok: "sqlite_ok api rd" and rdy: "sqlite_ready api rd" and wf: "view_wf (view rd h)"
    and sell: "sellable (current (view rd h))" and fl: "sint fid \<in> flight_ids (current (view rd h))"
    and small: "seq_ticket (current (view rd h)) + 2 < 2 ^ 31"
  shows "\<exists>rid h1 h2 h3. db_purchase api fid h = (Val rid, h1) \<and> db_cancel api rid h1 = (Val True, h2) \<and>
    ticket_list (committed (view rd h2)) = ticket_list (current (view rd h)) \<and>
    db_purchase api fid h2 = (Val (rid + 1), h3)"
proof -
  let ?t = "current (view rd h)" let ?n = "seq_ticket ?t + 1"
  have ids: "\<And>x. x \<in> set (ticket_list ?t) \<Longrightarrow> fst x \<le> seq_ticket ?t" and seq: "0 \<le> seq_ticket ?t"
    using wf by (auto simp: view_wf_def tables_wf_def ids_ok_def)
  obtain h1 where h1: "db_purchase api fid h = (Val (word_of_int ?n), h1)"
    "view rd h1 = \<lparr>committed = add_row (sint fid) ?t, pending = None, last_rowid = ?n\<rparr>"
    using purchase_ready [OF ok rdy wf sell, of fid] fl by auto
  have wf1: "view_wf (view rd h1)" using db_purchase_wf [OF ok wf h1(1)] by simp
  have sn: "sint (word_of_int ?n :: i32) = ?n" using seq small by (intro sint_ticket) simp_all
  obtain h2 where h2: "db_cancel api (word_of_int ?n) h1 = (Val True, h2)"
    "view rd h2 = put_current (del_row ?n (add_row (sint fid) ?t)) (view rd h1)"
    using cancel_ready [OF ok rdy, of h1 "word_of_int ?n", unfolded sn] h1(2) by auto
  have v2: "view rd h2 =
      \<lparr>committed = del_row ?n (add_row (sint fid) ?t), pending = None, last_rowid = ?n\<rparr>"
    using h2(2) h1(2) by (simp add: put_current_def)
  have wf2: "view_wf (view rd h2)"
    using db_cancel_outcome [OF ok h2(1)] stmt_exec_wf [OF _ wf1] by (auto simp del: stmt_exec.simps)
  have sell2: "sellable (current (view rd h2))"
    using v2 sell small by (auto simp: sellable_def MAX_ROWID_def)
  obtain h3 where "db_purchase api fid h2 = (Val (word_of_int (?n + 1)), h3)"
    using purchase_ready [OF ok rdy wf2 sell2, of fid] fl v2 by auto
  moreover have "filter (\<lambda>(j, f). j \<noteq> ?n) (ticket_list ?t) = ticket_list ?t"
    using ids by (force simp: filter_id_conv)
  ultimately show ?thesis
    using h1 h2(1) v2 by (auto simp: algebra_simps)
qed

theorem cancel_undoes_purchase_witness:
  "\<exists>rid h1 h2 h3. db_purchase ref_api 2 ex_state = (Val rid, h1) \<and>
     db_cancel ref_api rid h1 = (Val True, h2) \<and> ticket_list (committed (ref_view h2)) = [(1, 1)] \<and>
     db_purchase ref_api 2 h2 = (Val (rid + 1), h3)"
proof -
  have "sint (2 :: i32) \<in> flight_ids (current (view ref_reading ex_state))"
    by (simp add: ex_current ex_flight_ids)
  moreover have "seq_ticket (current (view ref_reading ex_state)) + 2 < 2 ^ 31"
    by (simp add: ex_current) (simp add: ex_tables_def)
  moreover have "ticket_list (current (ref_view ex_state)) = [(1, 1)]"
    by (simp add: ex_current) (simp add: ex_tables_def ticket_list_def)
  ultimately show ?thesis
    using cancel_undoes_purchase [OF ref_sqlite_ok ref_sqlite_ready, of ex_state 2] ex_state_wf
      ex_sellable by simp
qed

text \<open>
  Cancelling a ticket that was never sold is answered with TRUE as well and changes nothing:
  \<open>db_cancel\<close> does not tell the two cases apart.
\<close>

theorem cancel_unknown:
  assumes "sqlite_ok api rd" "sqlite_ready api rd" "tickets (current (view rd h)) \<noteq> None"
    and "sint rid \<notin> fst ` set (ticket_list (current (view rd h)))"
  shows "\<exists>h'. db_cancel api rid h = (Val True, h') \<and> view rd h' = view rd h"
proof -
  obtain h' where h': "db_cancel api rid h = (Val True, h')"
    "view rd h' = put_current (del_row (sint rid) (current (view rd h))) (view rd h)"
    using cancel_ready [OF assms(1-3)] by blast
  moreover have "put_current (current v) v = v" for v
    by (simp add: put_current_def current_def split: option.split)
  ultimately show ?thesis using del_row_missing [OF assms(3,4)] by auto
qed

theorem cancel_unknown_witness:
  "\<exists>h'. db_cancel ref_api 9 ex_state = (Val True, h') \<and> ref_view h' = ref_view ex_state"
proof -
  have "tickets (current (view ref_reading ex_state)) \<noteq> None"
    and "sint (9 :: i32) \<notin> fst ` set (ticket_list (current (view ref_reading ex_state)))"
    by (simp_all add: ex_current) (simp_all add: ex_tables_def ticket_list_def)
  from cancel_unknown [OF ref_sqlite_ok ref_sqlite_ready this] show ?thesis by simp
qed

end
