(* ===== verification/Catalogue.thy ===== *)
theory Catalogue
  imports Booking
begin

text \<open>
  Properties of the flight catalogue: what \<open>db_consult_flights\<close> shows, how many rows its block can
  hold, and what \<open>db_add_flight\<close> adds.
\<close>

section \<open>Consulting\<close>

text \<open>What a client sees of a flight, and the flights a consultation is about.\<close>

definition entry_key :: "db_entry \<Rightarrow> i32 \<times> i64 \<times> i32 \<times> i32" where
  "entry_key e = (fl_id e, fl_departure e, fl_origin e, fl_destination e)"

definition flight_key :: "int \<times> int \<times> int \<times> int \<Rightarrow> i32 \<times> i64 \<times> i32 \<times> i32" where
  "flight_key = (\<lambda>(i, dep, og, dest).
     (word_of_int i, scast (word_of_int dep :: i32), word_of_int og, word_of_int dest))"

definition matching :: "i32 \<Rightarrow> i32 \<Rightarrow> tables \<Rightarrow> (int \<times> int \<times> int \<times> int) list" where
  "matching og dest t = filter (flight_matches (any_airport og) (any_airport dest)) (flight_list t)"

definition shown :: "datagram \<Rightarrow> (i32 \<times> i64 \<times> i32 \<times> i32) list" where
  "shown d = map (\<lambda>i. entry_key (the (dg_results d i))) [0..<unat (dg_count d)]"

lemma entry_key_row: "entry_key (row_entry_of stk (flight_row f)) = flight_key f"
  by (cases f) (simp add: entry_key_def row_entry_of_def flight_row_def flight_key_def)

lemma consult_rows_ready:
  assumes "flights (current v) \<noteq> None"
  shows "consult_rows og dest v = Some (map flight_row (matching og dest (current v)))"
  using assms by (auto simp: consult_rows_def matching_def flight_list_def)

lemma consult_ready:
  assumes ok: "sqlite_ok api rd" and rdy: "sqlite_ready api rd"
    and fl: "flights (current (view rd h)) \<noteq> None"
    and few: "length (matching og dest (current (view rd h))) \<le> MAX_ROWS"
  shows "\<exists>d h'. db_consult_flights b jk api og dest h = Some (Val d, h') \<and> view rd h' = view rd h \<and>
    dg_wf b d \<and> dg_opcode d = opc OP_CONSULT \<and>
    unat (dg_count d) = length (matching og dest (current (view rd h))) \<and>
    unat (dg_size d) = SIZEOF_DG b + unat (dg_count d) * SIZEOF_ENTRY \<and>
    mset (shown d) = image_mset flight_key (mset (matching og dest (current (view rd h))))"
proof -
  let ?fs = "matching og dest (current (view rd h))"
  note rows = consult_rows_ready [OF fl]
  obtain r h' where run: "db_consult_flights b jk api og dest h = Some (r, h')"
    and out: "(\<exists>rows rows' d. consult_rows og dest (view rd h) = Some rows \<and> mset rows' = mset rows \<and>
        r = Val d \<and> consult_answer b (stack jk) rows' d \<and> length rows \<le> MAX_ROWS \<and>
        view rd h' = view rd h) \<or>
      (r = Exit 1 \<and> view rd h' = rollback (view rd h) \<and>
        (queries_ready api rd \<longrightarrow> consult_rows og dest (view rd h) = None)) \<or>
      (\<exists>rows. r = Crash \<and> consult_rows og dest (view rd h) = Some rows \<and> MAX_ROWS < length rows \<and>
        view rd h' = view rd h)"
    using db_consult_outcome [OF ok, of b jk og dest h] by blast
  from out obtain rows' d where d: "mset rows' = mset (map flight_row ?fs)" "r = Val d"
      "consult_answer b (stack jk) rows' d" "view rd h' = view rd h"
    using rows ready_rules(4) [OF rdy] few by auto
  have len: "length rows' = length ?fs" using mset_eq_length [OF d(1)] by simp
  have cnt: "unat (dg_count d) = length rows'"
    and res: "\<And>i. i < length rows' \<Longrightarrow> dg_results d i = Some (row_entry_of (stack jk) (rows' ! i))"
    using d(3) unfolding consult_answer_def by blast+
  have "shown d = map (\<lambda>i. entry_key (row_entry_of (stack jk) (rows' ! i))) [0..<length rows']"
    unfolding shown_def cnt by (rule map_cong [OF refl]) (simp add: res)
  also have "\<dots> = map (\<lambda>r. entry_key (row_entry_of (stack jk) r)) rows'" by (rule map_nth_upt)
  finally have "mset (shown d) = image_mset (\<lambda>r. entry_key (row_entry_of (stack jk) r)) (mset rows')"
    by simp
  then have "mset (shown d) = image_mset flight_key (mset ?fs)"
    unfolding d(1) by (simp add: entry_key_row multiset.map_comp comp_def)
  then show ?thesis using run d len by (auto simp: consult_answer_def)
qed

text \<open>
  C13: a consultation returns exactly the flights that match, each once, with id, origin and
  destination cut to 32 bits and the departure read as a 32-bit number and sign-extended; nothing
  in the database changes.
\<close>

theorem consult_exact:
  assumes "sqlite_ok api rd" "sqlite_ready api rd" "flights (current (view rd h)) \<noteq> None"
    and "length (matching og dest (current (view rd h))) \<le> MAX_ROWS"
  shows "\<exists>d h'. db_consult_flights b jk api og dest h = Some (Val d, h') \<and> view rd h' = view rd h \<and>
    dg_wf b d \<and> dg_opcode d = opc OP_CONSULT \<and>
    mset (shown d) = image_mset flight_key (mset (matching og dest (current (view rd h))))"
  using consult_ready [OF assms, of b jk] by blast

lemma ex_flights: "flights (current (view ref_reading ex_state)) \<noteq> None"
  by (simp add: ex_current) (simp add: ex_tables_def)

lemma ex_matching: "matching 20 (-1) (current (view ref_reading ex_state)) = [(1, 10, 20, 30), (2, 15, 20, 31)]"
  by (simp add: ex_current) (simp add: matching_def ex_tables_def flight_list_def flight_matches_def any_airport_def)

theorem consult_exact_witness:
  "\<exists>d h'. db_consult_flights SOCKET ex_junk ref_api 20 (-1) ex_state = Some (Val d, h') \<and>
     mset (shown d) = {#(1, 10, 20, 30), (2, 15, 20, 31)#}"
proof -
  have "image_mset flight_key (mset (matching 20 (-1) (current (view ref_reading ex_state)))) =
      {#(1, 10, 20, 30), (2, 15, 20, 31)#}"
    by (simp only: ex_matching) (simp add: flight_key_def)
  moreover have "length (matching 20 (-1) (current (view ref_reading ex_state))) \<le> MAX_ROWS"
    by (simp only: ex_matching) (simp add: MAX_ROWS_def)
  ultimately show ?thesis
    using consult_exact [OF ref_sqlite_ok ref_sqlite_ready ex_flights, of 20 "-1" SOCKET ex_junk] by auto
qed

text \<open>
  C29: the block of 4096 bytes has room for 26 rows.  A consultation that matches more writes past
  its end; one that matches exactly 26 returns a datagram that is larger than DATAGRAM_MAXSIZE.
\<close>

theorem consult_row_limit:
  assumes "sqlite_ok api rd" "sqlite_ready api rd" "flights (current (view rd h)) \<noteq> None"
  shows "(26 < length (matching og dest (current (view rd h))) \<longrightarrow>
      (\<exists>h'. db_consult_flights b jk api og dest h = Some (Crash, h'))) \<and>
    (length (matching og dest (current (view rd h))) = 26 \<longrightarrow>
      (\<exists>d h'. db_consult_flights b jk api og dest h = Some (Val d, h') \<and>
        DATAGRAM_MAXSIZE < unat (dg_size d)))"
proof (intro conjI impI)
  assume many: "26 < length (matching og dest (current (view rd h)))"
  from db_consult_outcome [OF assms(1), of b jk og dest h]
  show "\<exists>h'. db_consult_flights b jk api og dest h = Some (Crash, h')"
    using many ready_rules(4) [OF assms(2)] by (auto simp: consult_rows_ready [OF assms(3)] MAX_ROWS_def)
next
  assume "length (matching og dest (current (view rd h))) = 26"
  then show "\<exists>d h'. db_consult_flights b jk api og dest h = Some (Val d, h') \<and>
      DATAGRAM_MAXSIZE < unat (dg_size d)"
    using consult_ready [OF assms, of og dest b jk] by (auto simp: MAX_ROWS_def layout)
qed

definition full_state :: "nat \<Rightarrow> ref_state" where
  "full_state n = \<lparr>ref_view = \<lparr>committed = \<lparr>tickets = Some [],
     flights = Some (map (\<lambda>i. (int i, 0, 1, 2)) [1..<Suc n]), seq_ticket = 0, seq_flight = int n\<rparr>,
     pending = None, last_rowid = 0\<rparr>, ref_file = True, ref_console = []\<rparr>"

lemma full_matching: "matching (-1) (-1) (current (view ref_reading (full_state n))) =
    map (\<lambda>i. (int i, 0, 1, 2)) [1..<Suc n]"
  by (simp add: matching_def full_state_def flight_list_def current_def any_airport_def
      flight_matches_def filter_id_conv)

theorem consult_row_limit_witness:
  "(\<exists>h'. db_consult_flights SHMEM ex_junk ref_api (-1) (-1) (full_state 27) = Some (Crash, h')) \<and>
   (\<exists>d h'. db_consult_flights SHMEM ex_junk ref_api (-1) (-1) (full_state 26) = Some (Val d, h') \<and>
     DATAGRAM_MAXSIZE < unat (dg_size d))"
proof -
  have "flights (current (view ref_reading (full_state n))) \<noteq> None" for n
    by (simp add: full_state_def current_def)
  from consult_row_limit [OF ref_sqlite_ok ref_sqlite_ready this, of "-1" "-1" _ SHMEM ex_junk]
  show ?thesis by (simp only: full_matching) simp
qed


section \<open>Adding flights\<close>

definition add_flight_row :: "int \<Rightarrow> int \<Rightarrow> int \<Rightarrow> tables \<Rightarrow> tables" where
  "add_flight_row dep og dest t =
     t\<lparr>flights := Some (flight_list t @ [(seq_flight t + 1, dep, og, dest)]),
       seq_flight := seq_flight t + 1\<rparr>"

lemma add_flight_ready:
  assumes ok: "sqlite_ok api rd" and rdy: "sqlite_ready api rd"
    and fl: "flights (current (view rd h)) \<noteq> None" "seq_flight (current (view rd h)) < MAX_ROWID"
  shows "\<exists>h'. db_add_flight api dep og dest h =
      (Val (word_of_int (seq_flight (current (view rd h)) + 1)), h') \<and>
    view rd h' = (put_current (add_flight_row (sint dep) (sint og) (sint dest) (current (view rd h)))
      (view rd h))\<lparr>last_rowid := seq_flight (current (view rd h)) + 1\<rparr>"
proof -
  obtain r h' where run: "db_add_flight api dep og dest h = (r, h')" by force
  have ex: "stmt_exec (Insert_flight (sint dep) (sint og) (sint dest)) (view rd h) =
      Some ((put_current (add_flight_row (sint dep) (sint og) (sint dest) (current (view rd h)))
        (view rd h))\<lparr>last_rowid := seq_flight (current (view rd h)) + 1\<rparr>)"
    using fl by (auto simp: add_flight_row_def list_Some)
  from db_add_flight_outcome [OF ok run] rdy
  have "r = Val (word_of_int (last_rowid (view rd h')))" "view rd h' =
      (put_current (add_flight_row (sint dep) (sint og) (sint dest) (current (view rd h)))
        (view rd h))\<lparr>last_rowid := seq_flight (current (view rd h)) + 1\<rparr>"
    unfolding ex by auto
  with run show ?thesis by simp
qed

lemma matching_added:
  "matching og dest (add_flight_row dep (sint og) (sint dest) t) =
   matching og dest t @ [(seq_flight t + 1, dep, sint og, sint dest)]"
  by (simp add: matching_def add_flight_row_def flight_matches_def any_airport_def)

lemma scast_of_sint: "(word_of_int (sint (w :: i64)) :: i32) = scast w"
  by (simp only: scast_eq)

text \<open>
  C32: a flight added and then consulted by its origin and destination is among the rows shown,
  under the id \<open>db_add_flight\<close> returned; its departure comes back cut to 32 bits, so it is the one
  entered exactly when it fits a signed 32-bit number of seconds.
\<close>

theorem added_flight_is_shown:
  assumes ok: "sqlite_ok api rd" and rdy: "sqlite_ready api rd"
    and fl: "flights (current (view rd h)) \<noteq> None" "seq_flight (current (view rd h)) < MAX_ROWID"
    and few: "length (matching og dest (current (view rd h))) < MAX_ROWS"
  shows "\<exists>i h1 d h2. db_add_flight api dep og dest h = (Val i, h1) \<and>
    db_consult_flights b jk api og dest h1 = Some (Val d, h2) \<and>
    (i, scast (scast dep :: i32), og, dest) \<in> set (shown d)"
proof -
  let ?t = "current (view rd h)"
  obtain h1 where h1: "db_add_flight api dep og dest h = (Val (word_of_int (seq_flight ?t + 1)), h1)"
    "view rd h1 = (put_current (add_flight_row (sint dep) (sint og) (sint dest) ?t)
      (view rd h))\<lparr>last_rowid := seq_flight ?t + 1\<rparr>"
    using add_flight_ready [OF ok rdy fl] by blast
  then have t1: "current (view rd h1) = add_flight_row (sint dep) (sint og) (sint dest) ?t" by simp
  then have "flights (current (view rd h1)) \<noteq> None" by (simp add: add_flight_row_def)
  moreover have "length (matching og dest (current (view rd h1))) \<le> MAX_ROWS"
    using few by (simp add: t1 matching_added)
  ultimately obtain d h2 where d: "db_consult_flights b jk api og dest h1 = Some (Val d, h2)"
    "mset (shown d) = image_mset flight_key (mset (matching og dest (current (view rd h1))))"
    using consult_ready [OF ok rdy] by blast
  have "set (shown d) = flight_key ` set (matching og dest (current (view rd h1)))"
    using mset_eq_setD [of "shown d" "map flight_key (matching og dest (current (view rd h1)))"] d(2)
    by simp
  then have "(word_of_int (seq_flight ?t + 1), scast (scast dep :: i32), og, dest) \<in> set (shown d)"
    by (simp add: t1 matching_added flight_key_def scast_of_sint)
  with h1(1) d(1) show ?thesis by blast
qed

theorem added_flight_is_shown_witness:
  "\<exists>i h1 d h2. db_add_flight ref_api 4294967301 20 31 ex_state = (Val i, h1) \<and>
     db_consult_flights FIFO ex_junk ref_api 20 31 h1 = Some (Val d, h2) \<and> (i, 5, 20, 31) \<in> set (shown d)"
proof -
  have "seq_flight (current (view ref_reading ex_state)) < MAX_ROWID"
    and "length (matching 20 31 (current (view ref_reading ex_state))) < MAX_ROWS"
    by (simp_all add: ex_current)
       (simp_all add: ex_tables_def MAX_ROWID_def MAX_ROWS_def matching_def flight_list_def)
  from added_flight_is_shown [OF ref_sqlite_ok ref_sqlite_ready ex_flights this,
      of 4294967301 FIFO ex_junk]
  show ?thesis by simp
qed

end
