(* ===== verification/Answers.thy ===== *)
theory Answers
  imports Catalogue
begin

text \<open>
  Properties of the server side of a request: \<open>execute_datagram\<close> over the operations of
  \<open>server/db/database.c\<close>, obtained from the interpretation \<open>sql_db\<close> of the contract of
  \<open>include/database.h\<close>.
\<close>

section \<open>Bounds of the queries\<close>

definition safe :: "'a cres \<Rightarrow> bool" where
  "safe r \<longleftrightarrow> r \<noteq> Crash \<and> (\<forall>n. r = Exit n \<longrightarrow> n = 1)"

lemma safe_simps [simp]: "safe (Val x)" "safe (Exit n) = (n = 1)" "\<not> safe Crash"
  by (auto simp: safe_def)

lemma safe_sbind:
  "safe (fst m) \<Longrightarrow> (\<And>x h. m = (Val x, h) \<Longrightarrow> safe (fst (f x h))) \<Longrightarrow> safe (fst (sbind m f))"
  by (cases m; cases "fst m") auto

lemma safe_then [simp]: "safe (fst (sbind m (\<lambda>r h. (Val (f r), h)))) = safe (fst m)"
  by (cases m; cases "fst m") auto

lemma safe_macros:
  "safe (fst (DB_EXEC api q h))" "safe (fst (DB_PREPARE_STATEMENT api q h))"
  "safe (fst (DB_FINALIZE_STATEMENT api s h))" "safe (fst (SQLITE_STATEMENT_EXPECT api rc e h))"
  by (auto simp: DB_EXEC_eq DB_PREPARE_STATEMENT_eq DB_FINALIZE_STATEMENT_eq
      SQLITE_STATEMENT_EXPECT_eq split: prod.split)

lemma safe_flight_exists: "safe (fst (db_flight_exists api fid h))"
  by (auto simp: db_flight_exists_def csimps Let_def split: prod.split
      intro!: safe_sbind safe_macros)

lemma safe_add_ticket: "safe (fst (add_ticket api fid h))"
  by (auto simp: add_ticket_def csimps intro!: safe_sbind safe_macros)

lemma safe_purchase: "safe (fst (db_purchase api fid h))"
  by (auto simp: db_purchase_def Let_def intro!: safe_sbind safe_flight_exists safe_add_ticket)

text \<open>
  C40: the 128 bytes each query is printed into are enough for every argument: whatever the library
  does, adding, buying, cancelling and looking up never write out of bounds, so they end in a value
  or in \<open>exit(1)\<close>; and each of the four texts of a consultation is printed whole, with its NUL.
\<close>

theorem queries_fit:
  "fst (db_flight_exists api fid h) \<notin> {Crash} \<union> Exit ` (- {1}) \<and>
   fst (db_purchase api fid h) \<notin> {Crash} \<union> Exit ` (- {1}) \<and>
   fst (db_cancel api rid h) \<notin> {Crash} \<union> Exit ` (- {1}) \<and>
   fst (db_add_flight api dep og dest h) \<notin> {Crash} \<union> Exit ` (- {1}) \<and>
   (\<exists>query. consult_query og dest h = (Val query, h) \<and> length query < QUERY_SIZE)"
proof -
  have *: "safe r \<Longrightarrow> r \<notin> {Crash} \<union> Exit ` (- {1})" for r :: "'c cres" by auto
  have "safe (fst (db_cancel api rid h))"
    by (auto simp: db_cancel_def remove_ticket_def csimps intro!: safe_sbind safe_macros)
  moreover have "safe (fst (db_add_flight api dep og dest h))"
    by (auto simp: db_add_flight_def csimps intro!: safe_sbind safe_macros)
  moreover have "length (query_text (Select_flight (any_airport og) (any_airport dest))) < QUERY_SIZE"
    using dec_i32_less [of og] dec_i32_less [of dest]
    by (auto simp: any_airport_def query_text.simps layout)
  ultimately show ?thesis
    using safe_flight_exists [of api fid h] safe_purchase [of api fid h] by (auto simp: safe_def csimps)
qed

section \<open>Every request ends\<close>

text \<open>The answer of a consultation that matches no more rows than its block holds.\<close>

lemma safe_consult:
  assumes "sqlite_ok api rd" "length (matching og dest (current (view rd h))) \<le> MAX_ROWS"
  shows "\<exists>m. db_consult_flights b jk api og dest h = Some m \<and> safe (fst m)"
proof -
  have "length rows \<le> MAX_ROWS" if "consult_rows og dest (view rd h) = Some rows" for rows
    using that assms(2) consult_rows_ready [of "view rd h" og dest]
    by (cases "flights (current (view rd h)) = None") (auto simp: consult_rows_def)
  then show ?thesis using db_consult_outcome [OF assms(1), of b jk og dest h] by fastforce
qed

lemma safe_cancel: "safe (fst (db_cancel api rid h))"
  by (auto simp: db_cancel_def remove_ticket_def csimps intro!: safe_sbind safe_macros)

lemma safe_add_flight: "safe (fst (db_add_flight api dep og dest h))"
  by (auto simp: db_add_flight_def csimps intro!: safe_sbind safe_macros)

lemma wf_room: "dg_wf b d \<Longrightarrow> 152 \<le> length (dg_raw d)"
  by (cases "b = MSGQUEUE") (auto simp: dg_wf_def layout)

lemma safe_switch:
  assumes "sqlite_ok api rd" "dg_wf b d" "length (dg_raw d) \<le> DATAGRAM_MAXSIZE"
    and ping: "dg_opcode d = opc OP_PING \<Longrightarrow> dg_cmd d \<noteq> None"
    and consult: "\<And>dest. dg_opcode d = opc OP_CONSULT \<Longrightarrow> dg_destination d = Some dest \<Longrightarrow>
      length (matching (dg_origin d) dest (current (view rd h))) \<le> MAX_ROWS"
  shows "case execute_switch b hp (sqlite_ops b jk api) d h of None \<Rightarrow> False | Some m \<Rightarrow> safe (fst m)"
proof -
  obtain dest where dest: "dg_destination d = Some dest"
    using wf_room [OF assms(2)] by (auto simp: dg_destination_def peek_def)
  obtain e where e: "dg_results d 0 = Some e"
    using wf_room [OF assms(2)] by (auto simp: dg_results_def peek_def layout)
  consider "dg_opcode d = opc OP_CONSULT" | "dg_opcode d = opc OP_PING"
    | "dg_opcode d \<noteq> opc OP_CONSULT" "dg_opcode d \<noteq> opc OP_PING" by blast
  then show ?thesis
  proof cases
    case 1
    obtain m where m: "db_consult_flights b jk api (dg_origin d) dest h = Some m" "safe (fst m)"
      using safe_consult [OF assms(1) consult [OF 1 dest], of b jk] by blast
    with 1 dest show ?thesis by (simp add: execute_switch_def sqlite_ops_def)
  next
    case 2
    then obtain s where "dg_cmd d = Some s" using ping by blast
    from sql_db.switch_ping [OF 2 this assms(3), where b = b and hp = hp and jk = jk and api = api and h = h]
    show ?thesis by auto
  next
    case 3
    then show ?thesis
      by (simp add: execute_switch_def sqlite_ops_def e Let_def safe_purchase safe_cancel safe_add_flight)
  qed
qed

text \<open>
  C16: every request ends: with an answer, or with \<open>exit(1)\<close> when the library fails, and never with an
  access out of bounds.  The request is a datagram as the clients build them: the size it states, no
  longer than the transports carry, and the text of a ping ends in it.  A consultation matches no more
  flights than its block has room for; with more of them the loop over the rows leaves the block.
\<close>

theorem requests_end:
  assumes "sqlite_ok api rd" "dg_wf b d" "length (dg_raw d) \<le> DATAGRAM_MAXSIZE"
    and "dg_opcode d = opc OP_PING \<Longrightarrow> dg_cmd d \<noteq> None"
    and "\<And>dest. dg_opcode d = opc OP_CONSULT \<Longrightarrow> dg_destination d = Some dest \<Longrightarrow>
      length (matching (dg_origin d) dest (current (view rd h))) \<le> MAX_ROWS"
  shows "\<exists>r h'. execute_datagram b hp (sqlite_ops b jk api) d h = Some (r, h') \<and>
    ((\<exists>ans. r = Val ans) \<or> r = Exit 1)"
proof -
  have sw: "case execute_switch b hp (sqlite_ops b jk api) d h of None \<Rightarrow> False | Some m \<Rightarrow> safe (fst m)"
    by (rule safe_switch [OF assms])
  then obtain x where x: "execute_switch b hp (sqlite_ops b jk api) d h = Some x" "safe (fst x)"
    by (simp split: option.splits)
  show ?thesis
    unfolding execute_datagram_def x(1) using x(2) by (cases x; cases "fst x") simp_all
qed

definition a_consult :: "(nat \<Rightarrow> char) \<Rightarrow> datagram" where
  "a_consult hp = (new_dg SOCKET hp (SIZEOF_DG SOCKET) OP_CONSULT)\<lparr>dg_data := 20\<rparr>"

text \<open>A consultation from the airport 20, with the destination malloc left there, and an unlucky library.\<close>

theorem requests_end_witness:
  "\<exists>r h'. execute_datagram SOCKET (heap ex_junk) (sqlite_ops SOCKET ex_junk busy_api)
     (a_consult (heap ex_junk)) ex_state = Some (r, h') \<and> ((\<exists>ans. r = Val ans) \<or> r = Exit 1)"
proof (rule requests_end [OF busy_sqlite_ok])
  show "dg_wf SOCKET (a_consult (heap ex_junk))"
    by (simp add: a_consult_def dg_wf_new layout)
  show "length (dg_raw (a_consult (heap ex_junk))) \<le> DATAGRAM_MAXSIZE"
    by (simp add: a_consult_def layout)
  show "dg_cmd (a_consult (heap ex_junk)) \<noteq> None" if "dg_opcode (a_consult (heap ex_junk)) = opc OP_PING"
    using that by (simp add: a_consult_def)
  show "length (matching (dg_origin (a_consult (heap ex_junk))) dest (current (view ref_reading ex_state))) \<le> MAX_ROWS"
    for dest
  proof -
    have "length (matching og dest ex_tables) \<le> length (flight_list ex_tables)" for og
      by (simp add: matching_def)
    also have "length (flight_list ex_tables) \<le> MAX_ROWS"
      by (simp add: flight_list_def ex_tables_def MAX_ROWS_def)
    finally show ?thesis by (simp add: ex_current)
  qed
qed

section \<open>Requests and answers\<close>



text \<open>
  C23: an answer is a well-formed datagram with the request's opcode (a pong for a ping), and in
  the message-queue build it goes back to the sender of the request.
\<close>

theorem answers_well_formed:
  assumes "sqlite_ok api rd" "view_wf (view rd h)" "length (dg_raw d) \<le> DATAGRAM_MAXSIZE"
    and "execute_datagram b hp (sqlite_ops b jk api) d h = Some (Val (Some a), h')"
  shows "dg_wf b a \<and> dg_opcode a = answer_opcode (dg_opcode d) \<and>
    (b = MSGQUEUE \<longrightarrow> dg_sender a = dg_sender d)"
  by (rule sql_db.execute_answer [OF _ assms(3,4), of rd]) (use assms(1,2) in simp)

definition a_cancel :: "build \<Rightarrow> (nat \<Rightarrow> char) \<Rightarrow> datagram" where
  "a_cancel b hp = (new_dg b hp (SIZEOF_DG b) OP_CANCEL)\<lparr>dg_data := 1, dg_sender := 77\<rparr>"

lemma run_a_cancel:
  "\<exists>a h'. execute_datagram MSGQUEUE hp (sqlite_ops MSGQUEUE jk ref_api) (a_cancel MSGQUEUE hp) ex_state =
     Some (Val (Some a), h')"
proof -
  have "tickets (current (view ref_reading ex_state)) \<noteq> None"
    by (simp add: ex_current) (simp add: ex_tables_def)
  from cancel_ready [OF ref_sqlite_ok ref_sqlite_ready this, of 1] show ?thesis
    by (auto simp: execute_datagram_def execute_switch_def a_cancel_def sqlite_ops_def Let_def)
qed

theorem answers_well_formed_witness:
  "\<exists>a h'. execute_datagram MSGQUEUE (heap ex_junk) (sqlite_ops MSGQUEUE ex_junk ref_api) (a_cancel MSGQUEUE (heap ex_junk)) ex_state =
     Some (Val (Some a), h') \<and> dg_opcode a = 2 \<and> dg_sender a = 77"
proof -
  obtain a h' where run: "execute_datagram MSGQUEUE (heap ex_junk) (sqlite_ops MSGQUEUE ex_junk ref_api)
      (a_cancel MSGQUEUE (heap ex_junk)) ex_state = Some (Val (Some a), h')"
    using run_a_cancel by blast
  have "length (dg_raw (a_cancel MSGQUEUE (heap ex_junk))) \<le> DATAGRAM_MAXSIZE"
    by (simp add: a_cancel_def layout)
  from answers_well_formed [OF ref_sqlite_ok _ this run] ex_state_wf run show ?thesis
    by (auto simp: a_cancel_def answer_opcode_def)
qed

lemma echo_ping:
  assumes "dg_opcode d = opc OP_PING" "dg_cmd d = Some s" "length (dg_raw d) \<le> DATAGRAM_MAXSIZE"
  shows "\<exists>a. execute_datagram b hp (sqlite_ops b jk api) d h = Some (Val (Some a), h) \<and>
    dg_wf b a \<and> dg_opcode a = opc OP_PONG \<and> dg_cmd a = Some s \<and>
    unat (dg_size a) = SIZEOF_DG b + length s + 1"
proof -
  obtain a where "execute_switch b hp (sqlite_ops b jk api) d h = Some (Val (Some a), h)"
      "dg_wf b a" "dg_opcode a = opc OP_PONG" "dg_cmd a = Some s"
      "unat (dg_size a) = SIZEOF_DG b + length s + 1"
    using sql_db.switch_ping [OF assms, where b = b and jk = jk and api = api] by blast
  then show ?thesis by (auto simp: execute_datagram_def copy_sender_def dg_wf_def dg_cmd_def)
qed

end
