(* ===== verification/Libclient.thy ===== *)
theory Libclient
  imports Datagram
begin

text \<open>
  \<open>client/libclient.c\<close>: the command line is split into arguments, a command becomes a request
  datagram, and an answer is printed.  The memory the C code reserves (ten argument pointers, twenty
  bytes for each argument, one block for each datagram) is modelled with its bounds: writing past
  them is \<open>Crash\<close>.

  The date functions of the C library are split in two: the reading and the printing of the format
  \<open>%d-%m-%Y %H:%M:%S\<close> are defined here as the GNU library does them; the conversion between
  calendar dates and seconds depends on the time zone (and, in \<open>mktime\<close>, on the member \<open>tm_isdst\<close>
  the code leaves uninitialised), so it is the parameter \<open>tz\<close>.
\<close>

section \<open>Dates\<close>

record tm =
  tm_sec :: int
  tm_min :: int
  tm_hour :: int
  tm_mday :: int
  tm_mon :: int
  tm_year :: int

record tz =
  tz_mktime :: "tm \<Rightarrow> i64"
  tz_localtime :: "i64 \<Rightarrow> tm option"

text \<open>\<open>get_number\<close> of \<open>strptime\<close>: at most \<open>n\<close> digits, no further digit once the value passes \<open>hi\<close>.\<close>

fun num_loop :: "nat \<Rightarrow> nat \<Rightarrow> nat \<Rightarrow> string \<Rightarrow> nat \<times> string" where
  "num_loop hi 0 v s = (v, s)"
| "num_loop hi (Suc n) v [] = (v, [])"
| "num_loop hi (Suc n) v (c # s) =
     (if v * 10 \<le> hi \<and> is_digit c then num_loop hi n (v * 10 + digit_val c) s else (v, c # s))"

definition get_number :: "nat \<Rightarrow> nat \<Rightarrow> nat \<Rightarrow> string \<Rightarrow> (nat \<times> string) option" where
  "get_number lo hi n s =
     (case dropWhile (\<lambda>c. c = CHR '' '') s of
        [] \<Rightarrow> None
      | c # cs \<Rightarrow>
          if \<not> is_digit c then None
          else let (v, r) = num_loop hi (n - 1) (digit_val c) cs
               in if v < lo \<or> hi < v then None else Some (v, r))"

definition match_char :: "char \<Rightarrow> string \<Rightarrow> string option" where
  "match_char c s = (case s of [] \<Rightarrow> None | x # r \<Rightarrow> if x = c then Some r else None)"

text \<open>\<open>strptime (s, "%d-%m-%Y %H:%M:%S", tm)\<close>\<close>

definition strptime :: "string \<Rightarrow> tm option" where
  "strptime s =
     Option.bind (get_number 1 31 2 s) (\<lambda>(d, s).
     Option.bind (match_char (CHR ''-'') s) (\<lambda>s.
     Option.bind (get_number 1 12 2 s) (\<lambda>(m, s).
     Option.bind (match_char (CHR ''-'') s) (\<lambda>s.
     Option.bind (get_number 0 9999 4 s) (\<lambda>(y, s).
     Option.bind (get_number 0 23 2 (dropWhile is_space s)) (\<lambda>(h, s).
     Option.bind (match_char (CHR '':'') s) (\<lambda>s.
     Option.bind (get_number 0 59 2 s) (\<lambda>(mi, s).
     Option.bind (match_char (CHR '':'') s) (\<lambda>s.
     Option.bind (get_number 0 61 2 s) (\<lambda>(sec, s).
       Some \<lparr>tm_sec = int sec, tm_min = int mi, tm_hour = int h, tm_mday = int d,
             tm_mon = int m - 1, tm_year = int y - 1900\<rparr>))))))))))"

definition pad2 :: "int \<Rightarrow> string" where
  "pad2 i = (if 0 \<le> i \<and> i < 10 then CHR ''0'' # dec i else dec i)"

definition strftime :: "tm \<Rightarrow> string" where
  "strftime t =
     pad2 (tm_mday t) @ ''-'' @ pad2 (tm_mon t + 1) @ ''-'' @ dec (tm_year t + 1900) @ '' '' @
     pad2 (tm_hour t) @ '':'' @ pad2 (tm_min t) @ '':'' @ pad2 (tm_sec t)"

text \<open>Both callers print into \<open>char timebuf[32]\<close>.\<close>

definition time_text :: "tm \<Rightarrow> string cres" where
  "time_text t = (if length (strftime t) < 32 then Val (strftime t) else Crash)"

section \<open>Splitting the command line\<close>

definition MAX_ARGS :: nat where "MAX_ARGS = 10"
definition CMD_BUFFER_SIZE :: nat where "CMD_BUFFER_SIZE = 2 * MAX_ARGS"

lemmas arg_bounds = MAX_ARGS_def CMD_BUFFER_SIZE_def

text \<open>\<open>argv = None\<close> is the null pointer the zeroed structure holds.\<close>

record shell_cmd =
  sc_argc :: nat
  sc_argv :: "string list option"

text \<open>\<open>LEFT_STRIP (str)\<close>: \<open>while (*(++str) == ' ')\<close>.\<close>

definition LEFT_STRIP :: "string \<Rightarrow> string" where
  "LEFT_STRIP s = dropWhile (\<lambda>c. c = CHR '' '') (tl s)"

definition strip_spaces :: "string \<Rightarrow> string" where
  "strip_spaces s = (if s \<noteq> [] \<and> hd s = CHR '' '' then LEFT_STRIP s else s)"

text \<open>The inner loop: copy up to the closing quote, or up to a space when there is no quote.\<close>

fun copy_arg :: "bool \<Rightarrow> string \<Rightarrow> string \<times> string" where
  "copy_arg quoted [] = ([], [])"
| "copy_arg quoted (c # s) =
     (if c = (if quoted then CHR 0x22 else CHR '' '') then ([], c # s)
      else let (a, r) = copy_arg quoted s in (c # a, r))"

lemma copy_arg_append: "copy_arg q s = (a, r) \<Longrightarrow> s = a @ r"
  by (induction q s arbitrary: a r rule: copy_arg.induct) (auto split: if_splits prod.splits)

text \<open>
  The outer loop.  \<open>Val None\<close> is the early return with the zeroed structure, after an argument
  whose quote is never closed.
\<close>

function parse_loop :: "string \<Rightarrow> string list \<Rightarrow> string list option cres" where
  "parse_loop s argv =
     (if s = [] then Val (Some argv)
      else if MAX_ARGS \<le> length argv then Crash
      else let comillas = (hd s = CHR 0x22);
               (a, r) = copy_arg comillas (if comillas then tl s else s)
           in if CMD_BUFFER_SIZE \<le> length a then Crash
              else if comillas then
                (if r = [] then Val None else parse_loop (strip_spaces (tl r)) (argv @ [a]))
              else parse_loop (strip_spaces r) (argv @ [a]))"
  by pat_completeness auto

lemma length_strip_spaces: "length (strip_spaces s) \<le> length s"
  using length_dropWhile_le [of "\<lambda>c. c = CHR '' ''" "tl s"]
  by (auto simp: strip_spaces_def LEFT_STRIP_def)

lemma strip_spaces_less: "s \<noteq> [] \<Longrightarrow> hd s = CHR '' '' \<Longrightarrow> length (strip_spaces s) < length s"
  using length_dropWhile_le [of "\<lambda>c. c = CHR '' ''" "tl s"]
  by (cases s) (auto simp: strip_spaces_def LEFT_STRIP_def)

lemma copy_arg_unquoted_less:
  assumes "copy_arg False s = (a, r)" "s \<noteq> []"
  shows "length (strip_spaces r) < length s"
proof (cases "hd s = CHR '' ''")
  case True
  with assms have "r = s" by (cases s) auto
  with True assms(2) show ?thesis by (simp add: strip_spaces_less)
next
  case False
  with assms have "a \<noteq> []" by (cases s) (auto split: prod.splits)
  with copy_arg_append [OF assms(1)] length_strip_spaces [of r] show ?thesis by (cases a) auto
qed

termination parse_loop
proof (relation "measure (\<lambda>(s, argv). length s)", goal_cases)
  case 1
  show ?case by simp
next
  case (2 s argv comillas p a r)
  then have "length r \<le> length (tl s)" using copy_arg_append [of True "tl s" a r] by simp
  with 2 show ?case using length_strip_spaces [of "tl r"] by (cases s; cases r) auto
next
  case (3 s argv comillas p a r)
  then show ?case using copy_arg_unquoted_less [of s a r] by simp
qed

declare parse_loop.simps [simp del]

definition parse_command :: "string \<Rightarrow> shell_cmd cres" where
  "parse_command command =
     cbind (parse_loop (strip_spaces command) []) (\<lambda>r. Val
       (case r of
          None \<Rightarrow> \<lparr>sc_argc = 0, sc_argv = None\<rparr>
        | Some argv \<Rightarrow> \<lparr>sc_argc = length argv, sc_argv = Some argv\<rparr>))"

text \<open>\<open>cmd.argv[i]\<close>: null, or a pointer that was never set, when \<open>i\<close> is not below \<open>argc\<close>.\<close>

definition arg :: "shell_cmd \<Rightarrow> nat \<Rightarrow> string cres" where
  "arg c i =
     (case sc_argv c of
        None \<Rightarrow> Crash
      | Some argv \<Rightarrow> if i < length argv then Val (argv ! i) else Crash)"

section \<open>From a command to a request\<close>

definition COLOR_GREEN :: string where "COLOR_GREEN = CHR 0x1B # ''[32m''"
definition COLOR_RESET :: string where "COLOR_RESET = CHR 0x1B # ''[0m''"

text \<open>A macro for debugging; its one use is commented out.\<close>

definition dump_args :: "string list \<Rightarrow> string" where
  "dump_args argv = concat (map (\<lambda>a. ''<'' @ a @ ''> '') argv) @ nl"

definition print_prompt :: string where "print_prompt = ''$ > ''"

text \<open>The outcome: the request (or the null pointer), the global \<open>is_admin\<close>, what was printed.\<close>

record reply =
  rep_dg :: "datagram option"
  rep_admin :: bool
  rep_out :: string

definition no_request :: "bool \<Rightarrow> string \<Rightarrow> reply cres" where
  "no_request admin out = Val \<lparr>rep_dg = None, rep_admin = admin, rep_out = out\<rparr>"

definition a_request :: "bool \<Rightarrow> string \<Rightarrow> datagram \<Rightarrow> reply cres" where
  "a_request admin out d = Val \<lparr>rep_dg = Some d, rep_admin = admin, rep_out = out\<rparr>"

text \<open>\<open>CHECK_ARGC\<close>\<close>

definition CHECK_ARGC :: "bool \<Rightarrow> nat \<Rightarrow> nat \<Rightarrow> reply cres \<Rightarrow> reply cres" where
  "CHECK_ARGC admin argc expected k =
     (if argc \<noteq> expected then no_request admin (''Cantidad de argumentos invalida.'' @ nl) else k)"

text \<open>
  \<open>ping\<close>: the block is sized by the whole command, and the text is read five bytes into the input
  buffer, which holds the bytes of earlier commands after the terminator of this one.
\<close>

definition cmd_ping :: "build \<Rightarrow> (nat \<Rightarrow> char) \<Rightarrow> bytes \<Rightarrow> string \<Rightarrow> datagram cres" where
  "cmd_ping b hp buf command =
     (let d = new_dg b hp (SIZEOF_DG b + length command) OP_PING in
      cbind (deref (cstr (drop 5 buf))) (\<lambda>text. deref (put_cmd text d)))"

text \<open>The loop over the arguments of \<open>consult\<close>; \<open>Val None\<close> is \<open>had_error\<close>.\<close>

fun consult_args :: "string list \<Rightarrow> datagram \<Rightarrow> datagram option cres" where
  "consult_args [] d = Val (Some d)"
| "consult_args [a] d = Val None"
| "consult_args (a # x # rest) d =
     (if streq a ''to'' then cbind (deref (put_destination (atoi x) d)) (consult_args rest)
      else if streq a ''from'' then consult_args rest (d\<lparr>dg_data := atoi x\<rparr>)
      else Val None)"

definition cmd_consult :: "build \<Rightarrow> (nat \<Rightarrow> char) \<Rightarrow> shell_cmd \<Rightarrow> datagram option cres" where
  "cmd_consult b hp cmd =
     cbind (deref (put_destination (-1) ((new_dg b hp (SIZEOF_DG b) OP_CONSULT)\<lparr>dg_data := -1\<rparr>)))
       (consult_args (case sc_argv cmd of None \<Rightarrow> [] | Some argv \<Rightarrow> tl argv))"

definition consult_reply :: "bool \<Rightarrow> datagram option \<Rightarrow> reply cres" where
  "consult_reply admin r =
     (case r of
        None \<Rightarrow> no_request admin (''Comando invalido.'' @ nl)
      | Some d \<Rightarrow> a_request admin [] d)"

definition help_text :: string where
  "help_text =
     ''Comandos disponibles:'' @ nl @
     tab @ '' ping [...]: '' @ tab @ ''Envia una cadena de texto al servidor, y '' @
       [CHR 0xC3, CHR 0xA9] @ ''ste responde con la misma cadena.'' @ nl @
     tab @ '' consult [from <origen>] [to <destino>]: '' @ tab @
       ''Consulta la disponibilidad de vuelos. El orden de los argumentos es intercambiable. Sin argumentos imprime toda la lista de vuelos.'' @ nl @
     tab @ '' purchase <flightid>: '' @ tab @ ''Compra un pasaje para el vuelo ingresado.'' @ nl @
     tab @ '' cancel <purchaseid>: '' @ tab @ ''Cancela el pasaje ingresado.'' @ nl @
     tab @ '' exit: '' @ tab @ ''Sale del cliente.'' @ nl @
     tab @ '' makeadmin: '' @ tab @ ''Da privilegios de escritura al usuario.'' @ nl @
     tab @ '' addflight <origen> <destino> '' @ [CHR 0x22] @ ''dd-mm-YYYY HH:MM:SS'' @ [CHR 0x22] @
       '': '' @ tab @ ''Agrega un vuelo a la base de datos'' @ nl"

text \<open>
  \<open>addflight\<close> writes three members of \<open>dg_results[0]\<close>: \<open>origin\<close> at offset 144 of the entry,
  \<open>destination\<close> at 148, \<open>departure\<close> at 4.
\<close>

definition cmd_addflight ::
    "build \<Rightarrow> (nat \<Rightarrow> char) \<Rightarrow> tz \<Rightarrow> bool \<Rightarrow> string \<Rightarrow> string \<Rightarrow> string \<Rightarrow> reply cres" where
  "cmd_addflight b hp z admin a1 a2 a3 =
     (let d = new_dg b hp (SIZEOF_DG b) OP_ADDFLIGHT in
      cbind (deref (put_raw 144 (le4 (atoi a1)) d)) (\<lambda>d.
      cbind (deref (put_raw 148 (le4 (atoi a2)) d)) (\<lambda>d.
        case strptime a3 of
          None \<Rightarrow> no_request admin (''Comando invalido.'' @ nl)
        | Some departure \<Rightarrow>
            (let t = tz_mktime z departure in
             cbind (deref (put_raw 4 (le8 t) d)) (\<lambda>d.
             cbind (deref (tz_localtime z t)) (\<lambda>local.
             cbind (time_text local) (\<lambda>timebuf.
             cbind (printf ''Agregando vuelo de %d a %d con fecha %s''
                      [AInt (atoi a1), AInt (atoi a2), AStr timebuf]) (\<lambda>out.
               a_request admin (out @ nl) d))))))))"

definition command_to_datagram ::
    "build \<Rightarrow> (nat \<Rightarrow> char) \<Rightarrow> tz \<Rightarrow> bool \<Rightarrow> bytes \<Rightarrow> reply cres" where
  "command_to_datagram b hp z admin buf =
     cbind (deref (cstr buf)) (\<lambda>command.
     cbind (parse_command command) (\<lambda>cmd.
     cbind (arg cmd 0) (\<lambda>name.
       if streq name ''ping'' then
         cbind (cmd_ping b hp buf command) (a_request admin [])
       else if streq name ''consult'' then
         cbind (cmd_consult b hp cmd) (consult_reply admin)
       else if streq name ''purchase'' then
         CHECK_ARGC admin (sc_argc cmd) 2
           (cbind (arg cmd 1) (\<lambda>a.
              a_request admin [] ((new_dg b hp (SIZEOF_DG b) OP_PURCHASE)\<lparr>dg_data := atoi a\<rparr>)))
       else if streq name ''cancel'' then
         CHECK_ARGC admin (sc_argc cmd) 2
           (cbind (arg cmd 1) (\<lambda>a.
              a_request admin [] ((new_dg b hp (SIZEOF_DG b) OP_CANCEL)\<lparr>dg_data := atoi a\<rparr>)))
       else if streq name ''help'' then no_request admin help_text
       else if admin \<and> streq name ''addflight'' then
         CHECK_ARGC admin (sc_argc cmd) 4
           (cbind (arg cmd 1) (\<lambda>a1. cbind (arg cmd 2) (\<lambda>a2. cbind (arg cmd 3) (\<lambda>a3.
              cmd_addflight b hp z admin a1 a2 a3))))
       else if streq name ''makeadmin'' then
         no_request True
           (COLOR_GREEN @ ''Privilegios de administrador activados!'' @ nl @ nl @ COLOR_RESET @ ''$ > '')
       else no_request admin (''Comando invalido -1.'' @ nl))))"

section \<open>Printing an answer\<close>

definition print_flight :: "tz \<Rightarrow> db_entry \<Rightarrow> string cres" where
  "print_flight z e =
     cbind (deref (tz_localtime z (fl_departure e))) (\<lambda>local.
     cbind (time_text local) (\<lambda>timebuf.
     cbind (printf ''Encontrado vuelo con ID #%.4d de %d a %d, con fecha de salida %s''
              [AInt (fl_id e), AInt (fl_origin e), AInt (fl_destination e), AStr timebuf])
       (\<lambda>out. Val (out @ nl))))"

primrec print_flights :: "tz \<Rightarrow> datagram \<Rightarrow> nat \<Rightarrow> string cres" where
  "print_flights z d 0 = Val []"
| "print_flights z d (Suc n) =
     cbind (print_flights z d n) (\<lambda>out.
     cbind (deref (dg_results d n)) (\<lambda>e.
     cbind (print_flight z e) (\<lambda>line. Val (out @ line))))"

definition parse_answer :: "build \<Rightarrow> tz \<Rightarrow> datagram \<Rightarrow> string cres" where
  "parse_answer b z d =
     cbind
       (if dg_opcode d = opc OP_PONG then
          cbind (deref (dg_cmd d)) (\<lambda>cmd. Val (''PONG: '' @ cmd @ nl))
        else if dg_opcode d = opc OP_CONSULT then
          cbind (print_flights z d (nat (sint (dg_count d)))) (\<lambda>out.
            Val (''Cantidad de vuelos encontrados: '' @ dec (sint (dg_count d)) @ nl @ out))
        else if dg_opcode d = opc OP_PURCHASE then
          Val (if dg_seat d = -1 then ''El vuelo ingresado no existe.'' @ nl
               else ''Compra exitosa. ID del ticket: '' @ dec4 (sint (dg_seat d)) @ nl)
        else if dg_opcode d = opc OP_CANCEL then
          Val (if dg_result d = c_bool True then ''Compra cancelada de forma exitosa.'' @ nl else [])
        else if dg_opcode d = opc OP_ADDFLIGHT then
          Val (''Agregado el vuelo con ID #'' @ dec4 (sint (dg_flightid d)) @ nl)
        else
          cbind (dump_datagram b d) (\<lambda>out. Val (''Datagrama desconocido:'' @ nl @ out)))
       (\<lambda>out. Val (COLOR_GREEN @ out @ COLOR_RESET @ nl))"

end
