(* ===== verification/LibclientLaws.thy ===== *)
theory LibclientLaws
  imports Libclient
begin

text \<open>
  Lemmas on \<open>client/libclient.c\<close>: what \<open>parse_command\<close> makes of a line written word by word, what
  each command turns into, and the round trip of the date format.
\<close>

section \<open>Words\<close>

text \<open>
  A word is written as it is when the parser reads it back unquoted, and between quotes otherwise;
  an argument with a quote in it can only be written when it needs none.
\<close>

definition plain :: "string \<Rightarrow> bool" where
  "plain a \<longleftrightarrow> a \<noteq> [] \<and> hd a \<noteq> CHR 0x22 \<and> CHR '' '' \<notin> set a"

definition writable :: "string \<Rightarrow> bool" where
  "writable a \<longleftrightarrow> plain a \<or> CHR 0x22 \<notin> set a"

definition short :: "string \<Rightarrow> bool" where
  "short a \<longleftrightarrow> length a < CMD_BUFFER_SIZE"

definition word_text :: "string \<Rightarrow> string" where
  "word_text a = (if plain a then a else CHR 0x22 # a @ [CHR 0x22])"

fun unwords :: "string list \<Rightarrow> string" where
  "unwords [] = []"
| "unwords [a] = word_text a"
| "unwords (a # as) = word_text a @ CHR '' '' # unwords as"

lemma copy_arg_plain:
  "CHR '' '' \<notin> set a \<Longrightarrow> (case r of [] \<Rightarrow> True | c # _ \<Rightarrow> c = CHR '' '') \<Longrightarrow>
   copy_arg False (a @ r) = (a, r)"
  by (induction a) (auto split: list.splits)

lemma copy_arg_quoted: "CHR 0x22 \<notin> set a \<Longrightarrow> copy_arg True (a @ CHR 0x22 # r) = (a, CHR 0x22 # r)"
  by (induction a) auto

lemma copy_arg_unclosed: "CHR 0x22 \<notin> set a \<Longrightarrow> copy_arg True a = (a, [])"
  by (induction a) auto

lemma word_text_nonempty [simp]: "word_text a \<noteq> []"
  by (simp add: word_text_def plain_def)

lemma hd_word_text [simp]: "hd (word_text a) \<noteq> CHR '' ''"
  by (cases a) (auto simp: word_text_def plain_def)

lemma hd_word_text_append [simp]: "hd (word_text a @ r) \<noteq> CHR '' ''"
  by (simp add: hd_append)

lemma unwords_Nil_iff [simp]: "unwords as = [] \<longleftrightarrow> as = []"
  by (cases as rule: unwords.cases) auto

lemma hd_unwords: "as \<noteq> [] \<Longrightarrow> hd (unwords as) \<noteq> CHR '' ''"
  by (cases as rule: unwords.cases) auto

lemma strip_spaces_id [simp]: "(s \<noteq> [] \<Longrightarrow> hd s \<noteq> CHR '' '') \<Longrightarrow> strip_spaces s = s"
  by (auto simp: strip_spaces_def)

lemma strip_spaces_space [simp]:
  "(s \<noteq> [] \<Longrightarrow> hd s \<noteq> CHR '' '') \<Longrightarrow> strip_spaces (CHR '' '' # s) = s"
  by (cases s) (auto simp: strip_spaces_def LEFT_STRIP_def)

lemma strip_spaces_Nil [simp]: "strip_spaces [] = []"
  by (simp add: strip_spaces_def)

lemma parse_loop_Nil [simp]: "parse_loop [] argv = Val (Some argv)"
  by (simp add: parse_loop.simps)

text \<open>One turn of the outer loop over a word, followed by a space or the end of the line.\<close>

lemma parse_loop_word:
  assumes "writable a" "(case r of [] \<Rightarrow> True | c # _ \<Rightarrow> c = CHR '' '')"
  shows "parse_loop (word_text a @ r) argv =
    (if MAX_ARGS \<le> length argv \<or> \<not> short a then Crash
     else parse_loop (strip_spaces r) (argv @ [a]))"
proof (cases "plain a")
  case True
  then have "hd (a @ r) \<noteq> CHR 0x22" "a \<noteq> []" "copy_arg False (a @ r) = (a, r)"
    using assms(2) by (auto simp: plain_def copy_arg_plain)
  with True show ?thesis
    by (subst parse_loop.simps) (simp add: word_text_def short_def not_less)
next
  case False
  then have "copy_arg True (a @ CHR 0x22 # r) = (a, CHR 0x22 # r)"
    using assms(1) by (simp add: writable_def copy_arg_quoted)
  with False show ?thesis
    by (subst parse_loop.simps) (simp add: word_text_def short_def not_less)
qed

lemma parse_loop_unwords:
  assumes "list_all writable as"
  shows "parse_loop (unwords as) argv =
    (if as = [] \<or> (length argv + length as \<le> MAX_ARGS \<and> list_all short as)
     then Val (Some (argv @ as)) else Crash)"
  using assms
proof (induction as arbitrary: argv rule: unwords.induct)
  case 1
  then show ?case by simp
next
  case (2 a)
  then show ?case using parse_loop_word [of a "[]" argv] by auto
next
  case (3 a a' as)
  have strip: "strip_spaces (CHR '' '' # unwords (a' # as)) = unwords (a' # as)"
    by (rule strip_spaces_space) (rule hd_unwords, simp)
  have "parse_loop (unwords (a # a' # as)) argv =
      (if MAX_ARGS \<le> length argv \<or> \<not> short a then Crash
       else parse_loop (unwords (a' # as)) (argv @ [a]))"
    using 3 parse_loop_word [of a "CHR '' '' # unwords (a' # as)" argv] strip by simp
  then show ?case using 3 by auto
qed

lemma parse_unwords_gen:
  assumes "list_all writable as"
  shows "parse_command (unwords as) =
    (if as = [] \<or> (length as \<le> MAX_ARGS \<and> list_all short as)
     then Val \<lparr>sc_argc = length as, sc_argv = Some as\<rparr> else Crash)"
proof -
  have "strip_spaces (unwords as) = unwords as" by (rule strip_spaces_id) (use hd_unwords in auto)
  then show ?thesis using parse_loop_unwords [OF assms, of "[]"] by (auto simp: parse_command_def)
qed

text \<open>A quote that is never closed, after any number of complete words.\<close>

lemma parse_loop_unclosed:
  assumes "CHR 0x22 \<notin> set a" "short a" "length argv < MAX_ARGS"
  shows "parse_loop (CHR 0x22 # a) argv = Val None"
  using assms by (subst parse_loop.simps) (simp add: copy_arg_unclosed short_def)

lemma parse_unclosed:
  assumes "CHR 0x22 \<notin> set a" "short a" "list_all writable as" "list_all short as"
    and "length as < MAX_ARGS"
  shows "parse_command (concat (map (\<lambda>w. word_text w @ '' '') as) @ CHR 0x22 # a) =
    Val \<lparr>sc_argc = 0, sc_argv = None\<rparr>"
proof -
  let ?line = "\<lambda>ws. concat (map (\<lambda>w. word_text w @ '' '') ws) @ CHR 0x22 # a"
  have hd: "hd (?line ws) \<noteq> CHR '' ''" for ws by (cases ws) auto
  have "parse_loop (?line as) argv = Val None" if "length argv + length as < MAX_ARGS" for argv
    using assms(3,4) that
  proof (induction as arbitrary: argv)
    case Nil
    then show ?case using parse_loop_unclosed [OF assms(1,2)] by simp
  next
    case (Cons w ws)
    have "strip_spaces (CHR '' '' # ?line ws) = ?line ws"
      by (rule strip_spaces_space) (rule hd)
    then show ?case
      using Cons parse_loop_word [of w "CHR '' '' # ?line ws" argv] by simp
  qed
  from this [of "[]"] have "parse_loop (?line as) [] = Val None" using assms(5) by simp
  moreover have "strip_spaces (?line as) = ?line as" by (rule strip_spaces_id) (rule hd)
  ultimately show ?thesis by (simp add: parse_command_def)
qed

section \<open>Well-formed requests\<close>

lemma put_raw_wf:
  "put_raw off bs d = Some d' \<Longrightarrow>
   dg_wf b d' = dg_wf b d \<and> dg_opcode d' = dg_opcode d \<and> dg_data d' = dg_data d \<and>
   length (dg_raw d') = length (dg_raw d)"
  by (auto simp: put_raw_def dg_wf_def dest: length_poke)

lemma put_destination_wf:
  "put_destination w d = Some d' \<Longrightarrow>
   dg_wf b d' = dg_wf b d \<and> dg_opcode d' = dg_opcode d \<and> dg_data d' = dg_data d \<and>
   length (dg_raw d') = length (dg_raw d)"
  unfolding put_destination_def by (rule put_raw_wf)

lemma put_cmd_wf:
  "put_cmd s d = Some d' \<Longrightarrow> dg_wf b d' = dg_wf b d \<and> dg_opcode d' = dg_opcode d"
  by (auto simp: put_cmd_def strcpy_def dg_wf_def dest: length_poke)

lemma consult_args_wf:
  "consult_args as d = Val (Some d') \<Longrightarrow>
   dg_wf b d' = dg_wf b d \<and> dg_opcode d' = dg_opcode d \<and> length (dg_raw d') = length (dg_raw d)"
  by (induction as d rule: consult_args.induct)
     (auto simp: cbind_Val_iff split: if_splits dest!: put_destination_wf [where b = b])

lemma new_dg_wf [simp]: "dg_wf b (new_dg b hp (SIZEOF_DG b) op)"
  by (rule dg_wf_new) (simp_all add: layout)

definition request_ok :: "build \<Rightarrow> bool \<Rightarrow> datagram \<Rightarrow> bool" where
  "request_ok b admin d \<longleftrightarrow>
     dg_wf b d \<and>
     dg_opcode d \<in> opc ` {OP_PING, OP_CONSULT, OP_PURCHASE, OP_CANCEL, OP_ADDFLIGHT} \<and>
     (dg_opcode d = opc OP_ADDFLIGHT \<longrightarrow> admin)"

lemma cmd_ping_ok:
  assumes "cmd_ping b hp buf command = Val d" "length command < 2 ^ 32"
  shows "request_ok b admin d"
proof -
  obtain s where "put_cmd s (new_dg b hp (SIZEOF_DG b + length command) OP_PING) = Some d"
    using assms(1) by (auto simp: cmd_ping_def cbind_Val_iff Let_def)
  with put_cmd_wf [OF this] show ?thesis
    using dg_wf_new [of b "SIZEOF_DG b + length command" hp OP_PING] assms(2)
    by (auto simp: request_ok_def layout)
qed

lemma cmd_consult_ok:
  assumes "cmd_consult b hp cmd = Val (Some d)"
  shows "request_ok b admin d"
proof -
  let ?d = "(new_dg b hp (SIZEOF_DG b) OP_CONSULT)\<lparr>dg_data := -1\<rparr>"
  obtain d1 where d1: "put_destination (-1) ?d = Some d1"
    and "\<exists>as. consult_args as d1 = Val (Some d)"
    using assms by (auto simp: cmd_consult_def cbind_Val_iff)
  then obtain as where as: "consult_args as d1 = Val (Some d)" by blast
  have "dg_wf b d" "dg_opcode d = opc OP_CONSULT"
    using consult_args_wf [OF as, of b] put_destination_wf [OF d1, of b] by simp_all
  then show ?thesis by (simp add: request_ok_def)
qed

lemma cmd_addflight_ok:
  assumes "cmd_addflight b hp z admin a1 a2 a3 = Val rep"
  shows "rep_admin rep = admin \<and> (\<forall>d. rep_dg rep = Some d \<longrightarrow>
    dg_wf b d \<and> dg_opcode d = opc OP_ADDFLIGHT)"
proof -
  let ?d = "new_dg b hp (SIZEOF_DG b) OP_ADDFLIGHT"
  obtain d1 d2 where d1: "put_raw 144 (le4 (atoi a1)) ?d = Some d1"
    and d2: "put_raw 148 (le4 (atoi a2)) d1 = Some d2"
    using assms by (auto simp: cmd_addflight_def cbind_Val_iff Let_def)
  have wf2: "dg_wf b d2" "dg_opcode d2 = opc OP_ADDFLIGHT"
    using put_raw_wf [OF d1, of b] put_raw_wf [OF d2, of b] by simp_all
  show ?thesis
  proof (cases "strptime a3")
    case None
    with assms d1 d2 show ?thesis by (auto simp: cmd_addflight_def Let_def no_request_def)
  next
    case (Some t)
    then obtain d3 out where d3: "put_raw 4 (le8 (tz_mktime z t)) d2 = Some d3"
      and "rep = \<lparr>rep_dg = Some d3, rep_admin = admin, rep_out = out\<rparr>"
      using assms d1 d2 by (auto simp: cmd_addflight_def cbind_Val_iff Let_def a_request_def)
    then show ?thesis using put_raw_wf [OF d3, of b] wf2 by simp
  qed
qed

lemma CHECK_ARGC_Val:
  "CHECK_ARGC admin n m k = Val rep \<Longrightarrow>
   k = Val rep \<or> (rep_dg rep = None \<and> rep_admin rep = admin)"
  by (auto simp: CHECK_ARGC_def no_request_def split: if_splits)

definition is_makeadmin :: "bytes \<Rightarrow> bool" where
  "is_makeadmin buf =
     (case cstr buf of None \<Rightarrow> False
      | Some command \<Rightarrow> cbind (parse_command command) (\<lambda>cmd. arg cmd 0) = Val ''makeadmin'')"

lemma command_ok:
  assumes run: "command_to_datagram b hp z admin buf = Val rep" and "length buf < 2 ^ 32"
  shows "(\<forall>d. rep_dg rep = Some d \<longrightarrow> request_ok b admin d) \<and>
    rep_admin rep = (admin \<or> is_makeadmin buf)"
proof -
  obtain command cmd name where c: "cstr buf = Some command" "parse_command command = Val cmd"
      "arg cmd 0 = Val name"
    using run by (auto simp: command_to_datagram_def cbind_Val_iff)
  have len: "length command < 2 ^ 32" using cstr_length [OF c(1)] assms(2) by simp
  have mk: "is_makeadmin buf = (name = ''makeadmin'')" using c by (simp add: is_makeadmin_def)
  note run = run [unfolded command_to_datagram_def c cbind.simps deref_simps streq_def]
  consider "name = ''ping''" | "name = ''consult''" | "name = ''purchase'' \<or> name = ''cancel''"
    | "name = ''help''" | "name \<notin> {''ping'', ''consult'', ''purchase'', ''cancel'', ''help''}" by blast
  then show ?thesis
  proof cases
    case 1
    then obtain d where "cmd_ping b hp buf command = Val d"
      "rep = \<lparr>rep_dg = Some d, rep_admin = admin, rep_out = []\<rparr>"
      using run by (auto simp: cbind_Val_iff a_request_def)
    then show ?thesis using cmd_ping_ok [OF _ len] mk 1 by simp
  next
    case 2
    then obtain r where r: "cmd_consult b hp cmd = Val r" "rep_dg rep = r" "rep_admin rep = admin"
      using run by (auto simp: cbind_Val_iff consult_reply_def a_request_def no_request_def split: option.splits)
    then show ?thesis using cmd_consult_ok mk 2 by auto
  next
    case 3
    then have "rep_admin rep = admin" "\<forall>d. rep_dg rep = Some d \<longrightarrow> request_ok b admin d"
      using run by (auto simp: cbind_Val_iff a_request_def request_ok_def dest!: CHECK_ARGC_Val)
    then show ?thesis using mk 3 by auto
  next
    case 4
    then show ?thesis using run mk by (auto simp: no_request_def)
  next
    case 5
    show ?thesis
    proof (cases "admin \<and> name = ''addflight''")
      case True
      then have "CHECK_ARGC admin (sc_argc cmd) 4
          (cbind (arg cmd 1) (\<lambda>a1. cbind (arg cmd 2) (\<lambda>a2. cbind (arg cmd 3) (\<lambda>a3.
             cmd_addflight b hp z admin a1 a2 a3)))) = Val rep"
        using run by simp
      from CHECK_ARGC_Val [OF this]
      have "rep_admin rep = admin \<and> (\<forall>d. rep_dg rep = Some d \<longrightarrow> request_ok b admin d)"
      proof
        assume "cbind (arg cmd 1) (\<lambda>a1. cbind (arg cmd 2) (\<lambda>a2. cbind (arg cmd 3) (\<lambda>a3.
             cmd_addflight b hp z admin a1 a2 a3))) = Val rep"
        then obtain a1 a2 a3 where "cmd_addflight b hp z admin a1 a2 a3 = Val rep"
          unfolding cbind_Val_iff by blast
        from cmd_addflight_ok [OF this] True show ?thesis by (simp add: request_ok_def)
      qed simp
      then show ?thesis using True mk by simp
    next
      case False
      then show ?thesis using run 5 mk by (auto simp: no_request_def split: if_splits)
    qed
  qed
qed

section \<open>One command at a time\<close>

text \<open>The input buffer after a line was read: the line, its terminator, older bytes.\<close>

definition typed :: "string \<Rightarrow> bytes \<Rightarrow> bytes" where
  "typed line rest = line @ NUL # rest"

definition line_ok :: "string list \<Rightarrow> bool" where
  "line_ok as \<longleftrightarrow> as \<noteq> [] \<and> list_all writable as \<and> list_all short as \<and> length as \<le> MAX_ARGS \<and>
     list_all nul_free as"

lemma nul_free_word_text [simp]: "nul_free (word_text a) = nul_free a"
  by (simp add: word_text_def)

lemma nul_free_unwords: "list_all nul_free as \<Longrightarrow> nul_free (unwords as)"
  by (induction as rule: unwords.induct) auto

lemma line_parsed:
  assumes "line_ok as"
  shows "cstr (typed (unwords as) rest) = Some (unwords as)"
    and "parse_command (unwords as) = Val \<lparr>sc_argc = length as, sc_argv = Some as\<rparr>"
  using assms nul_free_unwords [of as] parse_unwords_gen [of as]
  by (auto simp: line_ok_def typed_def)

lemma arg_simps [simp]:
  "arg \<lparr>sc_argc = n, sc_argv = Some as\<rparr> i = (if i < length as then Val (as ! i) else Crash)"
  by (simp add: arg_def)

lemma run_purchase:
  assumes "line_ok [''purchase'', a]"
  shows "command_to_datagram b hp z admin (typed (unwords [''purchase'', a]) rest) =
    a_request admin [] ((new_dg b hp (SIZEOF_DG b) OP_PURCHASE)\<lparr>dg_data := atoi a\<rparr>)"
  unfolding command_to_datagram_def line_parsed(1) [OF assms]
  using line_parsed(2) [OF assms] by (simp add: streq_def CHECK_ARGC_def del: unwords.simps)

lemma run_cancel:
  assumes "line_ok [''cancel'', a]"
  shows "command_to_datagram b hp z admin (typed (unwords [''cancel'', a]) rest) =
    a_request admin [] ((new_dg b hp (SIZEOF_DG b) OP_CANCEL)\<lparr>dg_data := atoi a\<rparr>)"
  unfolding command_to_datagram_def line_parsed(1) [OF assms]
  using line_parsed(2) [OF assms] by (simp add: streq_def CHECK_ARGC_def del: unwords.simps)

lemma run_consult:
  assumes "line_ok (''consult'' # as)"
  shows "command_to_datagram b hp z admin (typed (unwords (''consult'' # as)) rest) =
    cbind (cmd_consult b hp \<lparr>sc_argc = Suc (length as), sc_argv = Some (''consult'' # as)\<rparr>)
      (consult_reply admin)"
  unfolding command_to_datagram_def line_parsed(1) [OF assms]
  using line_parsed(2) [OF assms] by (simp add: streq_def del: unwords.simps)

lemma run_ping:
  assumes "line_ok (''ping'' # as)" "as \<noteq> []"
  shows "command_to_datagram b hp z admin (typed (unwords (''ping'' # as)) rest) =
    a_request admin [] (the (put_cmd (unwords as)
      (new_dg b hp (SIZEOF_DG b + length (unwords (''ping'' # as))) OP_PING)))"
proof -
  have line: "unwords (''ping'' # as) = ''ping '' @ unwords as"
    using assms(2) by (cases as) (auto simp: word_text_def plain_def)
  have "nul_free (unwords as)" using assms(1) nul_free_unwords by (simp add: line_ok_def)
  then have rest: "cstr (drop 5 (typed (unwords (''ping'' # as)) rest)) = Some (unwords as)"
    unfolding line typed_def by simp
  have "length (unwords as) <
      length (dg_raw (new_dg b hp (SIZEOF_DG b + length (unwords (''ping'' # as))) OP_PING))"
    unfolding line using HDR_le_SIZEOF [of b] by simp
  from put_cmd_fits [OF this] show ?thesis
    unfolding command_to_datagram_def line_parsed(1) [OF assms(1)]
    using rest line_parsed(2) [OF assms(1)]
    by (auto simp: streq_def cmd_ping_def simp del: unwords.simps)
qed

lemma run_ping_bare:
  assumes "nul_free stale"
  shows "command_to_datagram b hp z admin (typed ''ping'' (stale @ NUL # rest)) =
    (if length stale < SIZEOF_DG b + 4 - HDR b
     then a_request admin [] (the (put_cmd stale (new_dg b hp (SIZEOF_DG b + 4) OP_PING)))
     else Crash)"
proof -
  have "line_ok [''ping'']" by (simp add: line_ok_def writable_def plain_def short_def arg_bounds)
  moreover have "unwords [''ping''] = ''ping''" by (simp add: word_text_def plain_def)
  ultimately have p: "cstr (typed ''ping'' (stale @ NUL # rest)) = Some ''ping''"
    "parse_command ''ping'' = Val \<lparr>sc_argc = 1, sc_argv = Some [''ping'']\<rparr>"
    using line_parsed(1) [of "[''ping'']" "stale @ NUL # rest"] line_parsed(2) [of "[''ping'']"]
    by simp_all
  have s: "cstr (drop 5 (typed ''ping'' (stale @ NUL # rest))) = Some stale"
    using assms by (simp add: typed_def)
  show ?thesis
    unfolding command_to_datagram_def p(1)
    using s p(2) put_cmd_fits [of stale "new_dg b hp (SIZEOF_DG b + 4) OP_PING"]
      put_cmd_None [of "new_dg b hp (SIZEOF_DG b + 4) OP_PING" stale]
    by (auto simp: streq_def cmd_ping_def numeral_eq_Suc)
qed

text \<open>A line whose quote is never closed leaves a null \<open>argv\<close>, which \<open>strcmp\<close> then reads.\<close>

lemma run_unclosed:
  assumes "cstr buf = Some line" "parse_command line = Val \<lparr>sc_argc = 0, sc_argv = None\<rparr>"
  shows "command_to_datagram b hp z admin buf = Crash"
  using assms by (simp add: command_to_datagram_def arg_def)

section \<open>Dates\<close>

lemma foldl_num_ge: "v \<le> foldl (\<lambda>a c. 10 * a + digit_val c) v ds" for v :: nat
proof (induction ds arbitrary: v)
  case Nil
  then show ?case by simp
next
  case (Cons c ds)
  have "v \<le> 10 * v + digit_val c" by simp
  also have "\<dots> \<le> foldl (\<lambda>a c. 10 * a + digit_val c) (10 * v + digit_val c) ds" by (rule Cons)
  finally show ?case by simp
qed

lemma num_loop_digits:
  "list_all is_digit ds \<Longrightarrow> foldl (\<lambda>a c. 10 * a + digit_val c) v ds \<le> hi \<Longrightarrow>
   num_loop hi (length ds) v (ds @ r) = (foldl (\<lambda>a c. 10 * a + digit_val c) v ds, r)"
proof (induction ds arbitrary: v)
  case Nil
  then show ?case by simp
next
  case (Cons c ds)
  have "10 * v \<le> hi"
    using foldl_num_ge [of "10 * v + digit_val c" ds] Cons.prems(2) by simp
  with Cons show ?case by (simp add: mult.commute)
qed

lemma get_number_digits:
  assumes "list_all is_digit (c # ds)" "n = length (c # ds)" "num_val (c # ds) = v" "lo \<le> v" "v \<le> hi"
  shows "get_number lo hi n (c # ds @ r) = Some (v, r)"
proof -
  have "c \<noteq> CHR '' ''" using assms(1) by (auto simp: is_digit_def)
  then show ?thesis
    using assms num_loop_digits [of ds "digit_val c" hi r] by (simp add: get_number_def num_val_def)
qed

lemma dec_nat_two: "10 \<le> n \<Longrightarrow> n < 100 \<Longrightarrow> dec_nat n = [digit (n div 10), digit (n mod 10)]"
  by (simp add: dec_nat.simps [of n] dec_nat.simps [of "n div 10"])

lemma dec_nat_four:
  "1000 \<le> n \<Longrightarrow> n < 10000 \<Longrightarrow>
   dec_nat n = [digit (n div 1000), digit (n div 100 mod 10), digit (n div 10 mod 10), digit (n mod 10)]"
proof -
  assume n: "1000 \<le> n" "n < 10000"
  then have "\<not> n < 10" "\<not> n div 10 < 10" "\<not> n div 100 < 10" "n div 1000 < 10" by arith+
  then show ?thesis
    by (simp add: dec_nat.simps [of n] dec_nat.simps [of "n div 10"] dec_nat.simps [of "n div 100"]
        dec_nat.simps [of "n div 1000"] flip: div_mult2_eq)
qed

lemma get_number_pad2:
  assumes "int lo \<le> i" "i \<le> int hi" "hi < 100"
  shows "get_number lo hi 2 (pad2 i @ r) = Some (nat i, r)"
proof (cases "i < 10")
  case True
  then have "pad2 i = [CHR ''0'', digit (nat i)]"
    using assms(1) by (simp add: pad2_def dec_def dec_nat.simps [of "nat i"])
  moreover have "num_val [CHR ''0'', digit (nat i)] = nat i"
    using True assms(1) by (simp add: num_val_def digit_val_def [of "CHR ''0''"])
  ultimately show ?thesis
    using True assms get_number_digits [of "CHR ''0''" "[digit (nat i)]" 2 "nat i" lo hi r]
    by (simp add: is_digit_def [of "CHR ''0''"])
next
  case False
  then have d: "pad2 i = [digit (nat i div 10), digit (nat i mod 10)]"
    using assms dec_nat_two [of "nat i"] by (simp add: pad2_def dec_def)
  moreover have "num_val [digit (nat i div 10), digit (nat i mod 10)] = nat i"
    using assms by (simp add: num_val_def)
  ultimately show ?thesis
    using False assms
      get_number_digits [of "digit (nat i div 10)" "[digit (nat i mod 10)]" 2 "nat i" lo hi r]
    by simp
qed

lemma get_number_year:
  assumes "1000 \<le> y" "y \<le> 9999"
  shows "get_number 0 9999 4 (dec y @ r) = Some (nat y, r)"
proof -
  let ?n = "nat y"
  have n: "1000 \<le> ?n" "?n < 10000" using assms by auto
  have d: "dec y = [digit (?n div 1000), digit (?n div 100 mod 10), digit (?n div 10 mod 10), digit (?n mod 10)]"
    using dec_nat_four [OF n] assms by (simp add: dec_def)
  have lt: "?n div 1000 < 10" using n by simp
  have "num_val (dec_nat ?n) = ?n" by simp
  then have v: "num_val [digit (?n div 1000), digit (?n div 100 mod 10), digit (?n div 10 mod 10), digit (?n mod 10)] = ?n"
    by (simp only: dec_nat_four [OF n])
  show ?thesis
    using d n lt v get_number_digits [of "digit (?n div 1000)"
        "[digit (?n div 100 mod 10), digit (?n div 10 mod 10), digit (?n mod 10)]" 4 ?n 0 9999 r]
    by simp
qed

definition tm_ok :: "tm \<Rightarrow> bool" where
  "tm_ok t \<longleftrightarrow>
     0 \<le> tm_sec t \<and> tm_sec t \<le> 61 \<and> 0 \<le> tm_min t \<and> tm_min t \<le> 59 \<and>
     0 \<le> tm_hour t \<and> tm_hour t \<le> 23 \<and> 1 \<le> tm_mday t \<and> tm_mday t \<le> 31 \<and>
     0 \<le> tm_mon t \<and> tm_mon t \<le> 11 \<and> 1000 \<le> tm_year t + 1900 \<and> tm_year t + 1900 \<le> 9999"

lemma match_char_Cons [simp]: "match_char c (c # s) = Some s"
  by (simp add: match_char_def)

lemma pad2_not_space: "0 \<le> i \<Longrightarrow> dropWhile is_space (pad2 i @ r) = pad2 i @ r"
proof -
  assume "0 \<le> i"
  moreover obtain c cs where c: "dec_nat (nat i) = c # cs" by (cases "dec_nat (nat i)") auto
  moreover have "is_digit c" using dec_nat_digits [of "nat i"] c by simp
  ultimately show ?thesis
    using is_digit_not_space [of c] by (simp add: pad2_def dec_def is_space_def [of "CHR ''0''"])
qed

lemma strptime_strftime_gen:
  assumes "tm_ok t"
  shows "strptime (strftime t) = Some t"
proof -
  have "dropWhile is_space (CHR '' '' # pad2 (tm_hour t) @ r) = pad2 (tm_hour t) @ r" for r
    using assms pad2_not_space [of "tm_hour t" r] by (simp add: tm_ok_def is_space_def)
  moreover have "get_number 0 61 2 (pad2 (tm_sec t)) = Some (nat (tm_sec t), [])"
    using get_number_pad2 [of 0 "tm_sec t" 61 "[]"] assms by (simp add: tm_ok_def)
  ultimately show ?thesis
    using assms by (simp add: strptime_def strftime_def tm_ok_def get_number_pad2 get_number_year)
qed

end
