(* ===== verification/Commands.thy ===== *)
theory Commands
  imports LibclientLaws
begin

text \<open>
  Properties of the client's command line: how a line is split, which requests the commands give,
  and what the fixed sizes of the argument vector and of the buffers do to longer lines.
\<close>

section \<open>Splitting\<close>

text \<open>
  C24: a line made of words (written as they are, or between quotes when they hold a space or are
  empty) is split into exactly these words when there are at most ten of them and each is shorter
  than twenty bytes; any longer line writes past the vector or past an argument.
\<close>

theorem split_words:
  assumes "list_all writable as"
  shows "parse_command (unwords as) =
    (if as = [] \<or> (length as \<le> 10 \<and> list_all (\<lambda>a. length a < 20) as)
     then Val \<lparr>sc_argc = length as, sc_argv = Some as\<rparr> else Crash)"
  using parse_unwords_gen [OF assms] by (simp add: short_def [abs_def] arg_bounds)

theorem split_words_witness:
  "parse_command ''addflight 1 \"02-01-2030 10:00:00\"'' = Val \<lparr>sc_argc = 3,
     sc_argv = Some [''addflight'', ''1'', ''02-01-2030 10:00:00'']\<rparr> \<and>
   parse_command ''consult from 12345678901234567890'' = Crash"
proof -
  have "list_all writable [''addflight'', ''1'', ''02-01-2030 10:00:00'']"
    and "list_all writable [''consult'', ''from'', ''12345678901234567890'']"
    by (simp_all add: writable_def plain_def)
  from this [THEN split_words] show ?thesis by (simp add: word_text_def plain_def)
qed

text \<open>
  A line whose last quote is never closed crashes the client: the parser returns its zeroed
  structure and the first comparison reads the null \<open>argv\<close>.
\<close>

theorem unclosed_quote_crashes:
  assumes "CHR 0x22 \<notin> set a" "length a < 20" "list_all writable as" "list_all short as"
    and "length as < 10" "list_all nul_free as" "nul_free a"
  shows "command_to_datagram b hp z admin
    (typed (concat (map (\<lambda>w. word_text w @ '' '') as) @ CHR 0x22 # a) rest) = Crash"
proof -
  let ?line = "concat (map (\<lambda>w. word_text w @ '' '') as) @ CHR 0x22 # a"
  have "nul_free ?line" using assms(6,7) by (induction as) auto
  then have "cstr (typed ?line rest) = Some ?line" unfolding typed_def by (rule cstr_append)
  moreover have "parse_command ?line = Val \<lparr>sc_argc = 0, sc_argv = None\<rparr>"
    using assms by (intro parse_unclosed) (simp_all add: short_def arg_bounds)
  ultimately show ?thesis by (rule run_unclosed)
qed

definition ex_heap :: "nat \<Rightarrow> char" where "ex_heap = (\<lambda>i. CHR 0xA5)"

text \<open>A time zone whose calendar has months of 31 days: enough to run the date functions.\<close>

definition ex_tz :: tz where
  "ex_tz = \<lparr>tz_mktime = (\<lambda>t. word_of_int
       (((((tm_year t * 12 + tm_mon t) * 31 + (tm_mday t - 1)) * 24 + tm_hour t) * 60 + tm_min t) * 60 +
        tm_sec t)),
     tz_localtime = (\<lambda>w. let s = sint w in Some \<lparr>tm_sec = s mod 60, tm_min = s div 60 mod 60,
       tm_hour = s div 3600 mod 24, tm_mday = s div 86400 mod 31 + 1,
       tm_mon = s div 2678400 mod 12, tm_year = s div 32140800\<rparr>)\<rparr>"

theorem unclosed_quote_crashes_witness:
  "command_to_datagram SHMEM ex_heap ex_tz False (typed ''ping \"hola'' []) = Crash"
  using unclosed_quote_crashes [of "''hola''" "[''ping'']" SHMEM ex_heap ex_tz False "[]"]
  by (simp add: writable_def short_def plain_def word_text_def arg_bounds)

section \<open>Requests\<close>

text \<open>
  C25: every request the client builds is a well-formed datagram of one of the five operations, and
  only an administrator's client builds \<open>addflight\<close>; privileges are gained by the command
  \<open>makeadmin\<close> and by nothing else, and never lost.
\<close>

theorem requests_well_formed:
  assumes "command_to_datagram b hp z admin buf = Val rep" "length buf < 2 ^ 32"
  shows "(\<forall>d. rep_dg rep = Some d \<longrightarrow> dg_wf b d \<and>
      dg_opcode d \<in> opc ` {OP_PING, OP_CONSULT, OP_PURCHASE, OP_CANCEL, OP_ADDFLIGHT} \<and>
      (dg_opcode d = opc OP_ADDFLIGHT \<longrightarrow> admin)) \<and>
    rep_admin rep = (admin \<or> is_makeadmin buf)"
  using command_ok [OF assms] by (simp add: request_ok_def)

theorem requests_well_formed_witness:
  "\<exists>d. command_to_datagram FIFO ex_heap ex_tz False (typed ''purchase 7'' []) =
      Val \<lparr>rep_dg = Some d, rep_admin = False, rep_out = []\<rparr> \<and> dg_wf FIFO d \<and>
      dg_opcode d \<noteq> opc OP_ADDFLIGHT"
proof -
  have "line_ok [''purchase'', ''7'']"
    by (simp add: line_ok_def writable_def plain_def short_def arg_bounds)
  moreover have line: "unwords [''purchase'', ''7''] = ''purchase 7''" by (simp add: word_text_def plain_def)
  ultimately have run: "command_to_datagram FIFO ex_heap ex_tz False (typed ''purchase 7'' []) =
      Val \<lparr>rep_dg = Some ((new_dg FIFO ex_heap (SIZEOF_DG FIFO) OP_PURCHASE)\<lparr>dg_data := atoi ''7''\<rparr>),
        rep_admin = False, rep_out = []\<rparr>"
    using run_purchase [of "''7''" FIFO ex_heap ex_tz False "[]"] by (simp add: a_request_def)
  have "length (typed ''purchase 7'' []) < 2 ^ 32" by (simp add: typed_def)
  from requests_well_formed [OF run this] run show ?thesis by auto
qed


section \<open>What the requests hold\<close>

lemma put_destination_fits:
  assumes "4 \<le> length (dg_raw d)"
  shows "\<exists>d'. put_destination w d = Some d' \<and> dg_destination d' = Some w \<and> dg_data d' = dg_data d \<and>
    length (dg_raw d') = length (dg_raw d)"
  using assms
  by (auto simp: put_destination_def put_raw_def poke_0 dg_destination_def peek_def)

lemma dg_destination_data [simp]: "dg_destination (d\<lparr>dg_data := x\<rparr>) = dg_destination d"
  by (simp add: dg_destination_def)

lemma new_dg_room: "4 \<le> length (dg_raw (new_dg b hp (SIZEOF_DG b) op))"
  by (simp add: layout)

definition consult_request :: "build \<Rightarrow> (nat \<Rightarrow> char) \<Rightarrow> i32 \<Rightarrow> i32 \<Rightarrow> datagram" where
  "consult_request b hp og dest =
     the (put_destination dest ((new_dg b hp (SIZEOF_DG b) OP_CONSULT)\<lparr>dg_data := og\<rparr>))"

lemma consult_request_fields:
  "dg_opcode (consult_request b hp og dest) = opc OP_CONSULT"
  "dg_origin (consult_request b hp og dest) = og"
  "dg_destination (consult_request b hp og dest) = Some dest"
  "dg_wf b (consult_request b hp og dest)"
proof -
  let ?n = "(new_dg b hp (SIZEOF_DG b) OP_CONSULT)\<lparr>dg_data := og\<rparr>"
  obtain d where d: "put_destination dest ?n = Some d" "dg_destination d = Some dest" "dg_data d = og"
    using put_destination_fits [of ?n dest] new_dg_room [of b hp OP_CONSULT] by auto
  with put_destination_wf [OF d(1), of b]
  show "dg_opcode (consult_request b hp og dest) = opc OP_CONSULT"
    "dg_origin (consult_request b hp og dest) = og"
    "dg_destination (consult_request b hp og dest) = Some dest"
    "dg_wf b (consult_request b hp og dest)"
    by (simp_all add: consult_request_def)
qed

text \<open>The zero, one or two pairs of arguments \<open>consult\<close> takes, in either order.\<close>

lemma cmd_consult_pairs:
  fixes b :: build
  defines "args xs \<equiv> \<lparr>sc_argc = Suc (length xs), sc_argv = Some (''consult'' # xs)\<rparr>"
  shows "cmd_consult b hp (args []) = Val (Some (consult_request b hp (-1) (-1)))"
    and "cmd_consult b hp (args [''from'', x]) = Val (Some (consult_request b hp (atoi x) (-1)))"
    and "cmd_consult b hp (args [''to'', y]) = Val (Some (consult_request b hp (-1) (atoi y)))"
    and "cmd_consult b hp (args [''from'', x, ''to'', y]) =
      Val (Some (consult_request b hp (atoi x) (atoi y)))"
    and "cmd_consult b hp (args [''to'', y, ''from'', x]) =
      Val (Some (consult_request b hp (atoi x) (atoi y)))"
proof -
  let ?n = "new_dg b hp (SIZEOF_DG b) OP_CONSULT"
  have r: "4 \<le> length (dg_raw ?n)" by (rule new_dg_room)
  have p: "put_destination v (?n\<lparr>dg_data := x\<rparr>) =
      Some (?n\<lparr>dg_raw := le4 v @ drop 4 (dg_raw ?n), dg_data := x\<rparr>)" for v x
    using r by (simp add: put_destination_def put_raw_def poke_0)
  have q: "put_destination w (d\<lparr>dg_raw := le4 v @ rest, dg_data := x\<rparr>) =
      Some (d\<lparr>dg_raw := le4 w @ rest, dg_data := x\<rparr>)" for v w x d rest
    by (simp add: put_destination_def put_raw_def poke_0)
  show "cmd_consult b hp (args []) = Val (Some (consult_request b hp (-1) (-1)))"
    and "cmd_consult b hp (args [''from'', x]) = Val (Some (consult_request b hp (atoi x) (-1)))"
    and "cmd_consult b hp (args [''to'', y]) = Val (Some (consult_request b hp (-1) (atoi y)))"
    and "cmd_consult b hp (args [''from'', x, ''to'', y]) =
      Val (Some (consult_request b hp (atoi x) (atoi y)))"
    and "cmd_consult b hp (args [''to'', y, ''from'', x]) =
      Val (Some (consult_request b hp (atoi x) (atoi y)))"
    by (simp_all add: args_def cmd_consult_def consult_request_def p q streq_def)
qed

text \<open>
  The requests \<open>consult from X to Y\<close> and \<open>consult to Y from X\<close> give the same request, with the two numbers in
  its fields; a pair that is left out is the wildcard -1.
\<close>

theorem consult_pairs_commute:
  assumes "line_ok [''consult'', ''from'', x, ''to'', y]"
  shows "\<exists>d. command_to_datagram b hp z admin
        (typed (unwords [''consult'', ''from'', x, ''to'', y]) rest) = a_request admin [] d \<and>
      command_to_datagram b hp z admin
        (typed (unwords [''consult'', ''to'', y, ''from'', x]) rest) = a_request admin [] d \<and>
      dg_opcode d = opc OP_CONSULT \<and> dg_origin d = atoi x \<and> dg_destination d = Some (atoi y)"
proof -
  have ok: "line_ok [''consult'', ''to'', y, ''from'', x]"
    using assms by (auto simp: line_ok_def)
  show ?thesis
    using run_consult [OF assms, of b hp z admin rest] run_consult [OF ok, of b hp z admin rest]
      cmd_consult_pairs(4) [of b hp x y] cmd_consult_pairs(5) [of b hp y x] consult_request_fields [of b hp "atoi x" "atoi y"]
    by (auto simp: consult_reply_def simp del: unwords.simps)
qed

theorem consult_pairs_commute_witness:
  "\<exists>d. command_to_datagram SHMEM ex_heap ex_tz False (typed ''consult from 20 to 31'' []) =
       a_request False [] d \<and>
     command_to_datagram SHMEM ex_heap ex_tz False (typed ''consult to 31 from 20'' []) =
       a_request False [] d \<and> dg_origin d = atoi ''20'' \<and> dg_destination d = Some (atoi ''31'')"
proof -
  have "line_ok [''consult'', ''from'', ''20'', ''to'', ''31'']"
    by (simp add: line_ok_def writable_def plain_def short_def arg_bounds)
  from consult_pairs_commute [OF this, of SHMEM ex_heap ex_tz False "[]"] show ?thesis
    by (auto simp: word_text_def plain_def)
qed


lemma ping_line:
  assumes "line_ok (''ping'' # as)" "as \<noteq> []"
  shows "\<exists>d. command_to_datagram b hp z admin (typed (unwords (''ping'' # as)) rest) =
      a_request admin [] d \<and> dg_opcode d = opc OP_PING \<and> dg_cmd d = Some (unwords as) \<and>
      length (dg_raw d) = SIZEOF_DG b - HDR b + 5 + length (unwords as)"
proof -
  let ?n = "new_dg b hp (SIZEOF_DG b + length (unwords (''ping'' # as))) OP_PING"
  have line: "unwords (''ping'' # as) = ''ping '' @ unwords as"
    using assms(2) by (cases as) (auto simp: word_text_def plain_def)
  have nf: "nul_free (unwords as)" using assms(1) nul_free_unwords by (simp add: line_ok_def)
  have "length (unwords as) < length (dg_raw ?n)"
    unfolding line using HDR_le_SIZEOF [of b] by simp
  from put_cmd_fits [OF this] obtain d where d: "put_cmd (unwords as) ?n = Some d"
      "dg_cmd d = Some (unwords as)" "length (dg_raw d) = length (dg_raw ?n)" using nf by auto
  have "dg_opcode d = opc OP_PING" using put_cmd_wf [OF d(1)] by simp
  moreover have "length (dg_raw ?n) = SIZEOF_DG b - HDR b + 5 + length (unwords as)"
    unfolding line using HDR_le_SIZEOF [of b] by simp
  ultimately show ?thesis
    using run_ping [OF assms, of b hp z admin rest] d by (intro exI [of _ d]) simp
qed

text \<open>
  \<open>ping\<close> alone reads past the end of the line: what is sent is the string the buffer still
  holds behind the terminator, left there by earlier lines, and the client crashes when that string
  does not fit the datagram.
\<close>

theorem bare_ping_sends_stale_bytes:
  assumes "nul_free stale"
  shows "if length stale < SIZEOF_DG b + 4 - HDR b
    then \<exists>d. command_to_datagram b hp z admin (typed ''ping'' (stale @ NUL # rest)) = a_request admin [] d \<and>
      dg_opcode d = opc OP_PING \<and> dg_cmd d = Some stale
    else command_to_datagram b hp z admin (typed ''ping'' (stale @ NUL # rest)) = Crash"
proof -
  let ?n = "new_dg b hp (SIZEOF_DG b + 4) OP_PING"
  have "\<exists>d. put_cmd stale ?n = Some d \<and> dg_cmd d = Some stale \<and> dg_opcode d = opc OP_PING"
    if "length stale < SIZEOF_DG b + 4 - HDR b"
    using put_cmd_fits [of stale ?n] put_cmd_wf [of stale ?n] that assms by fastforce
  then show ?thesis using run_ping_bare [OF assms, of b hp z admin rest] by force
qed

theorem bare_ping_sends_stale_bytes_witness:
  "\<exists>d. command_to_datagram SHMEM ex_heap ex_tz False (typed ''ping'' (''secreto'' @ NUL # [])) =
       a_request False [] d \<and> dg_cmd d = Some ''secreto''"
  using bare_ping_sends_stale_bytes [of "''secreto''" SHMEM ex_heap ex_tz False "[]"]
  by (auto simp: nul_free_def layout)

section \<open>Adding a flight\<close>

lemma poke_entry:
  assumes "152 \<le> length r"
  shows "\<exists>r1 r2 r3. poke 144 (le4 og) r = Some r1 \<and> poke 148 (le4 dest) r1 = Some r2 \<and>
    poke 4 (le8 t) r2 = Some r3 \<and> length r3 = length r \<and>
    rd8 (drop 4 (take 152 r3)) = t \<and> rd4 (drop 144 (take 152 r3)) = og \<and>
    rd4 (drop 148 (take 152 r3)) = dest"
proof -
  let ?r1 = "take 144 r @ le4 og @ drop 148 r"
  let ?r2 = "take 144 r @ le4 og @ le4 dest @ drop 152 r"
  let ?r3 = "take 4 r @ le8 t @ take 132 (drop 12 r) @ le4 og @ le4 dest @ drop 152 r"
  have "poke 144 (le4 og) r = Some ?r1" using assms by (simp add: poke_def)
  moreover have "poke 148 (le4 dest) ?r1 = Some ?r2" using assms by (simp add: poke_def)
  moreover have "poke 4 (le8 t) ?r2 = Some ?r3" using assms by (simp add: poke_def drop_take)
  moreover have "rd8 (drop 4 (take 152 ?r3)) = t" "rd4 (drop 144 (take 152 ?r3)) = og"
    "rd4 (drop 148 (take 152 ?r3)) = dest" "length ?r3 = length r"
    using assms by simp_all
  ultimately show ?thesis by blast
qed

lemma cmd_addflight_entry:
  assumes "strptime a3 = Some t" "tz_localtime z (tz_mktime z t) = Some local" "time_text local = Val buf"
  shows "\<exists>d e out. cmd_addflight b hp z admin a1 a2 a3 = a_request admin out d \<and>
    dg_opcode d = opc OP_ADDFLIGHT \<and> dg_results d 0 = Some e \<and> fl_origin e = atoi a1 \<and>
    fl_destination e = atoi a2 \<and> fl_departure e = tz_mktime z t"
proof -
  let ?n = "new_dg b hp (SIZEOF_DG b) OP_ADDFLIGHT"
  have "152 \<le> length (dg_raw ?n)" by (simp add: layout)
  from poke_entry [OF this, of "atoi a1" "atoi a2" "tz_mktime z t"] obtain r1 r2 r3 where
    r: "poke 144 (le4 (atoi a1)) (dg_raw ?n) = Some r1" "poke 148 (le4 (atoi a2)) r1 = Some r2"
      "poke 4 (le8 (tz_mktime z t)) r2 = Some r3" "length r3 = length (dg_raw ?n)"
      "rd8 (drop 4 (take 152 r3)) = tz_mktime z t" "rd4 (drop 144 (take 152 r3)) = atoi a1"
      "rd4 (drop 148 (take 152 r3)) = atoi a2" by blast
  let ?d = "?n\<lparr>dg_raw := r3\<rparr>"
  have "152 \<le> length r3" using r(4) by (simp add: layout)
  then have "dg_results ?d 0 = Some (entry_of (take 152 r3))"
    by (simp add: dg_results_def peek_def layout)
  moreover have "\<exists>out. cmd_addflight b hp z admin a1 a2 a3 = a_request admin out ?d"
    using r(1-3) assms
    by (simp add: cmd_addflight_def put_raw_def Let_def printf_def) (rule exI, rule refl)
  ultimately show ?thesis using r(5-7) by (force simp: entry_of_def)
qed

text \<open>
  C39: an administrator's \<open>addflight\<close> with a date the client itself would print sends the two
  airports and the date's number of seconds in the first entry of the request.
\<close>

theorem addflight_request:
  assumes "line_ok [''addflight'', a1, a2, strftime t]" "tm_ok t"
    and "tz_localtime z (tz_mktime z t) = Some local" "length (strftime local) < 32"
  shows "\<exists>d e out. command_to_datagram b hp z True
        (typed (unwords [''addflight'', a1, a2, strftime t]) rest) = a_request True out d \<and>
      dg_opcode d = opc OP_ADDFLIGHT \<and> dg_results d 0 = Some e \<and> fl_origin e = atoi a1 \<and>
      fl_destination e = atoi a2 \<and> fl_departure e = tz_mktime z t"
proof -
  have "command_to_datagram b hp z True (typed (unwords [''addflight'', a1, a2, strftime t]) rest) =
      cmd_addflight b hp z True a1 a2 (strftime t)"
    unfolding command_to_datagram_def line_parsed(1) [OF assms(1)]
    using line_parsed(2) [OF assms(1)] by (simp add: streq_def CHECK_ARGC_def numeral_eq_Suc del: unwords.simps)
  then show ?thesis
    using cmd_addflight_entry [OF strptime_strftime_gen [OF assms(2)] assms(3), of "strftime local"]
      assms(4) by (simp add: time_text_def)
qed


definition ex_tm :: tm where
  "ex_tm = \<lparr>tm_sec = 30, tm_min = 5, tm_hour = 10, tm_mday = 2, tm_mon = 0, tm_year = 130\<rparr>"

lemma ex_tm_text: "strftime ex_tm = ''02-01-2030 10:05:30''"
  by (simp add: strftime_def ex_tm_def pad2_def dec_def digit_def dec_nat.simps)

lemma ex_tm_tz: "tz_mktime ex_tz ex_tm = 4178426730" "tz_localtime ex_tz 4178426730 = Some ex_tm"
  by (simp_all add: ex_tz_def ex_tm_def)

theorem addflight_request_witness:
  "\<exists>d e out. command_to_datagram SOCKET ex_heap ex_tz True
       (typed ''addflight 20 31 \"02-01-2030 10:05:30\"'' []) = a_request True out d \<and>
     dg_results d 0 = Some e \<and> fl_departure e = 4178426730"
proof -
  have "line_ok [''addflight'', ''20'', ''31'', strftime ex_tm]"
    by (simp add: ex_tm_text line_ok_def writable_def plain_def short_def arg_bounds nul_free_def)
  moreover have "tm_ok ex_tm" by (simp add: tm_ok_def ex_tm_def)
  moreover have "length (strftime ex_tm) < 32" by (simp add: ex_tm_text)
  ultimately show ?thesis
    using addflight_request [of "''20''" "''31''" ex_tm ex_tz ex_tm SOCKET ex_heap "[]"]
    by (auto simp: ex_tm_tz) (auto simp: ex_tm_text word_text_def plain_def)
qed

end
