(* ===== verification/Sessions.thy ===== *)
theory Sessions
  imports Answers Commands
begin

text \<open>
  Properties that span the client and the server: a line typed at the prompt, the request it
  becomes, the server's answer to it, and what the client prints of that answer.
\<close>

section \<open>Numbers typed at the prompt\<close>

lemma dec_nat_chars: "c \<in> set (dec_nat n) \<Longrightarrow> is_digit c" "dec_nat n \<noteq> []"
  using dec_nat_digits [of n] by (auto simp: list_all_iff)

lemma dec_writable: "plain (dec (sint (w :: i32)))" "short (dec (sint (w :: i32)))"
proof -
  have "CHR '' '' \<notin> set (dec_nat n)" "hd (dec_nat n) \<noteq> CHR 0x22" for n
    using dec_nat_chars(1) [of _ n] hd_in_set [OF dec_nat_chars(2) [of n]] by (force simp: is_digit_def)+
  then show "plain (dec (sint w))"
    using dec_nat_chars(2) by (auto simp: plain_def dec_def)
  show "short (dec (sint w))" using length_dec_i32 [of w] by (simp add: short_def arg_bounds)
qed

lemma command_line: "line_ok [''purchase'', dec (sint (w :: i32))]"
  "line_ok [''cancel'', dec (sint (w :: i32))]"
  using dec_writable [of w]
  by (simp_all add: line_ok_def writable_def plain_def short_def arg_bounds)

lemma command_text: "unwords [''purchase'', dec (sint (w :: i32))] = ''purchase '' @ dec (sint w)"
  "unwords [''cancel'', dec (sint (w :: i32))] = ''cancel '' @ dec (sint w)"
  using dec_writable(1) [of w] by (simp_all add: word_text_def plain_def)

section \<open>Sessions\<close>

text \<open>
  C5: typing \<open>purchase n\<close> for a flight on sale sells one ticket for flight n and prints its id; for
  a number that is no flight the client prints that the flight does not exist.
\<close>

theorem purchase_session:
  fixes f :: i32
  assumes ok: "sqlite_ok api rd" and rdy: "sqlite_ready api rd" and wf: "view_wf (view rd h)"
    and sell: "sellable (current (view rd h))"
    and small: "seq_ticket (current (view rd h)) + 1 < 2 ^ 31"
  shows "\<exists>d a h'. command_to_datagram b hp z admin (typed (''purchase '' @ dec (sint f)) rest) =
      a_request admin [] d \<and>
    execute_datagram b hp (sqlite_ops b jk api) d h = Some (Val (Some a), h') \<and>
    (if sint f \<in> flight_ids (current (view rd h))
     then committed (view rd h') = add_row (sint f) (current (view rd h)) \<and>
       parse_answer b z a = Val (COLOR_GREEN @ ''Compra exitosa. ID del ticket: '' @
         dec4 (seq_ticket (current (view rd h)) + 1) @ nl @ COLOR_RESET @ nl)
     else committed (view rd h') = committed (view rd h) \<and>
       parse_answer b z a =
         Val (COLOR_GREEN @ ''El vuelo ingresado no existe.'' @ nl @ COLOR_RESET @ nl))"
proof -
  let ?n = "seq_ticket (current (view rd h)) + 1"
  let ?d = "(new_dg b hp (SIZEOF_DG b) OP_PURCHASE)\<lparr>dg_data := f\<rparr>"
  have "0 \<le> seq_ticket (current (view rd h))" using wf by (simp add: view_wf_def tables_wf_def)
  then have sn: "sint (word_of_int ?n :: i32) = ?n" using small by (intro sint_ticket) simp_all
  have "(word_of_int ?n :: i32) \<noteq> -1"
  proof
    assume e: "(word_of_int ?n :: i32) = -1"
    show False using sn \<open>0 \<le> seq_ticket (current (view rd h))\<close> unfolding e by simp
  qed
  obtain h' where h': "db_purchase api f h =
      (if sint f \<in> flight_ids (current (view rd h)) then (Val (word_of_int ?n), h') else (Val (-1), h'))"
    and v: "view rd h' =
      (if sint f \<in> flight_ids (current (view rd h))
       then \<lparr>committed = add_row (sint f) (current (view rd h)), pending = None, last_rowid = ?n\<rparr>
       else (view rd h)\<lparr>pending := Some (current (view rd h))\<rparr>)"
    using purchase_ready [OF ok rdy wf sell, of f] by blast
  have run: "command_to_datagram b hp z admin (typed (''purchase '' @ dec (sint f)) rest) =
      a_request admin [] ?d"
    using run_purchase [OF command_line(1) [of f], of b hp z admin rest] unfolding command_text by simp
  show ?thesis
  proof (cases "sint f \<in> flight_ids (current (view rd h))")
    case True
    let ?a = "copy_sender b ?d ((new_dg b hp (SIZEOF_DG b) OP_PURCHASE)\<lparr>dg_data := word_of_int ?n\<rparr>)"
    have "execute_datagram b hp (sqlite_ops b jk api) ?d h = Some (Val (Some ?a), h')"
      using h' True by (simp add: execute_datagram_def execute_switch_def sqlite_ops_def Let_def)
    moreover have "parse_answer b z ?a = Val (COLOR_GREEN @ ''Compra exitosa. ID del ticket: '' @
         dec4 ?n @ nl @ COLOR_RESET @ nl)"
      using sn \<open>word_of_int ?n \<noteq> -1\<close> by (simp add: parse_answer_def copy_sender_def)
    ultimately show ?thesis using run v True by force
  next
    case False
    let ?a = "copy_sender b ?d ((new_dg b hp (SIZEOF_DG b) OP_PURCHASE)\<lparr>dg_data := -1\<rparr>)"
    have "execute_datagram b hp (sqlite_ops b jk api) ?d h = Some (Val (Some ?a), h')"
      using h' False by (simp add: execute_datagram_def execute_switch_def sqlite_ops_def Let_def)
    moreover have "parse_answer b z ?a =
        Val (COLOR_GREEN @ ''El vuelo ingresado no existe.'' @ nl @ COLOR_RESET @ nl)"
      by (simp add: parse_answer_def copy_sender_def)
    ultimately show ?thesis using run v False by force
  qed
qed

lemma length_unwords: "list_all short as \<Longrightarrow> length (unwords as) \<le> 22 * length as"
  by (induction as rule: unwords.induct) (auto simp: word_text_def short_def arg_bounds)

text \<open>
  A ping comes back: what follows \<open>ping\<close> on the line is what the client prints after
  \<open>PONG: \<close>, for every line whose request the transports can carry.
\<close>

theorem ping_session:
  assumes "line_ok (''ping'' # as)" "as \<noteq> []"
  shows "\<exists>d a. command_to_datagram b hp z admin (typed (unwords (''ping'' # as)) rest) =
      a_request admin [] d \<and>
    execute_datagram b hp (sqlite_ops b jk api) d h = Some (Val (Some a), h) \<and>
    parse_answer b z a = Val (COLOR_GREEN @ ''PONG: '' @ unwords as @ nl @ COLOR_RESET @ nl)"
proof -
  obtain d where d: "command_to_datagram b hp z admin (typed (unwords (''ping'' # as)) rest) =
      a_request admin [] d" "dg_opcode d = opc OP_PING" "dg_cmd d = Some (unwords as)"
      "length (dg_raw d) = SIZEOF_DG b - HDR b + 5 + length (unwords as)"
    using ping_line [OF assms, of b hp z admin rest] by blast
  have "length (unwords as) \<le> 22 * length as"
    using assms(1) by (intro length_unwords) (simp add: line_ok_def)
  also have "\<dots> \<le> 22 * 10" using assms(1) by (simp add: line_ok_def arg_bounds)
  finally have "length (dg_raw d) \<le> DATAGRAM_MAXSIZE" using d(4) by (simp add: layout)
  from echo_ping [OF d(2,3) this, of b hp jk api h] obtain a where
    a: "execute_datagram b hp (sqlite_ops b jk api) d h = Some (Val (Some a), h)"
      "dg_opcode a = opc OP_PONG" "dg_cmd a = Some (unwords as)" by blast
  then have "parse_answer b z a = Val (COLOR_GREEN @ ''PONG: '' @ unwords as @ nl @ COLOR_RESET @ nl)"
    by (simp add: parse_answer_def)
  with d(1) a(1) show ?thesis by blast
qed


theorem purchase_session_witness:
  "\<exists>d a h'. command_to_datagram FIFO ex_heap ex_tz False (typed ''purchase 2'' []) =
       a_request False [] d \<and>
     execute_datagram FIFO ex_heap (sqlite_ops FIFO ex_junk ref_api) d ex_state = Some (Val (Some a), h') \<and>
     parse_answer FIFO ex_tz a =
       Val (COLOR_GREEN @ ''Compra exitosa. ID del ticket: 0002'' @ nl @ COLOR_RESET @ nl)"
proof -
  have small: "seq_ticket (current (view ref_reading ex_state)) + 1 < 2 ^ 31"
    and seq: "seq_ticket (current (view ref_reading ex_state)) + 1 = 2"
    by (simp_all only: view_ref ex_current) (simp_all add: ex_tables_def)
  have fl: "sint (2 :: i32) \<in> flight_ids (current (view ref_reading ex_state))"
    by (simp add: ex_current ex_flight_ids)
  have digits: "''purchase '' @ dec (sint (2 :: i32)) = ''purchase 2''" "dec4 2 = ''0002''"
    by (simp_all add: dec_def dec4_def dec_nat.simps digit_def numeral_eq_Suc)
  have wf: "view_wf (view ref_reading ex_state)" and sell: "sellable (current (view ref_reading ex_state))"
    using ex_state_wf ex_sellable by simp_all
  from purchase_session [OF ref_sqlite_ok ref_sqlite_ready wf sell small,
      of FIFO ex_heap ex_tz False 2 "[]" ex_junk]
  show ?thesis unfolding digits(1) seq digits(2) using fl by auto
qed

theorem ping_session_witness:
  "\<exists>d a. command_to_datagram MSGQUEUE ex_heap ex_tz False (typed ''ping hola mundo'' []) =
       a_request False [] d \<and>
     execute_datagram MSGQUEUE ex_heap (sqlite_ops MSGQUEUE ex_junk ref_api) d ex_state =
       Some (Val (Some a), ex_state) \<and>
     parse_answer MSGQUEUE ex_tz a =
       Val (COLOR_GREEN @ ''PONG: hola mundo'' @ nl @ COLOR_RESET @ nl)"
proof -
  have "line_ok [''ping'', ''hola'', ''mundo'']"
    by (simp add: line_ok_def writable_def plain_def short_def arg_bounds)
  from ping_session [OF this, of MSGQUEUE ex_heap ex_tz False "[]" ex_junk ref_api ex_state]
  show ?thesis by (simp add: word_text_def plain_def)
qed

end
