(* ===== verification/Transports.thy ===== *)
theory Transports
  imports Server Sessions
begin

text \<open>
  Properties of the transports together with the server's loop: a conversation over each of them is
  the direct execution of its requests on the database, and what happens at the limits of each.
\<close>

section \<open>Requests executed in order\<close>

lemma dg_wf_raw: "dg_wf b d \<Longrightarrow> dg_size d \<le> of_nat DATAGRAM_MAXSIZE \<Longrightarrow> length (dg_raw d) \<le> DATAGRAM_MAXSIZE"
  using word_le_nat_alt [of "dg_size d" 4096] by (simp add: dg_wf_def layout)

text \<open>The answers of a whole sequence are well formed and go back to the senders.\<close>

lemma direct_answers:
  assumes "sqlite_ok api rd"
  shows "view_wf (view rd h) \<Longrightarrow> \<forall>d \<in> set ds. length (dg_raw d) \<le> DATAGRAM_MAXSIZE \<Longrightarrow>
    direct b hp (sqlite_ops b jk api) ds h = Some (as, h') \<Longrightarrow>
    view_wf (view rd h') \<and>
    list_all2 (\<lambda>d a. dg_wf b a \<and> (b = MSGQUEUE \<longrightarrow> dg_sender a = dg_sender d)) ds as"
proof (induction ds arbitrary: h as)
  case (Cons d ds)
  obtain a as' h1 where as: "as = a # as'"
    and ex: "execute_datagram b hp (sqlite_ops b jk api) d h = Some (Val (Some a), h1)"
    and rest: "direct b hp (sqlite_ops b jk api) ds h1 = Some (as', h')"
    using Cons.prems(3) unfolding direct_Cons by blast
  have "view_wf (view rd h1)"
    using sql_db.execute_total [of api rd h b hp jk d] assms Cons.prems(1) ex by auto
  from Cons.IH [OF this _ rest] Cons.prems(2)
    sql_db.execute_answer [of api rd h d b hp jk a h1] assms Cons.prems(1) ex
  show ?case unfolding as by auto
qed simp

lemma direct_wf:
  assumes "sqlite_ok api rd" "view_wf (view rd h)"
    and "\<forall>d \<in> set ds. dg_wf b d \<and> dg_size d \<le> of_nat DATAGRAM_MAXSIZE"
    and "direct b hp (sqlite_ops b jk api) ds h = Some (as, h')"
  shows "\<forall>a \<in> set as. dg_wf b a"
proof -
  have "\<forall>d \<in> set ds. length (dg_raw d) \<le> DATAGRAM_MAXSIZE" using assms(3) dg_wf_raw by blast
  from direct_answers [OF assms(1,2) this assms(4)] show ?thesis
    by (auto simp: list_all2_conv_all_nth in_set_conv_nth)
qed

lemma sizes_same: "SHMEM_SIZE = DATAGRAM_MAXSIZE"
  by (simp add: layout)

section \<open>An example conversation\<close>

definition ex_purchase :: "build \<Rightarrow> datagram" where
  "ex_purchase b = (new_dg b ex_heap (SIZEOF_DG b) OP_PURCHASE)\<lparr>dg_data := 2\<rparr>"

definition ex_cancel :: "build \<Rightarrow> datagram" where
  "ex_cancel b = (new_dg b ex_heap (SIZEOF_DG b) OP_CANCEL)\<lparr>dg_data := 1\<rparr>"

lemma ex_requests:
  "d \<in> {ex_purchase b, ex_cancel b} \<Longrightarrow> dg_wf b d \<and> dg_size d = of_nat (SIZEOF_DG b) \<and>
     dg_opcode d \<noteq> opc OP_EXIT"
  using dg_wf_new [of b "SIZEOF_DG b" ex_heap] by (auto simp: ex_purchase_def ex_cancel_def layout)

lemma sizes_small: "(of_nat (SIZEOF_DG b) :: 64 word) \<le> of_nat DATAGRAM_MAXSIZE"
  by (cases b) (simp_all add: layout word_le_nat_alt)

lemma ex_direct_from:
  "\<exists>a a' h'. direct b ex_heap (sqlite_ops b ex_junk ref_api)
       [(ex_purchase b)\<lparr>dg_sender := v\<rparr>, (ex_cancel b)\<lparr>dg_sender := w\<rparr>] ex_state =
     Some ([a, a'], h') \<and> dg_size a = of_nat (SIZEOF_DG b) \<and> dg_size a' = of_nat (SIZEOF_DG b) \<and>
     dg_seat a = 2 \<and> dg_result a' = c_bool True"
proof -
  have wf: "view_wf (view ref_reading ex_state)" and sell: "sellable (current (view ref_reading ex_state))"
    using ex_state_wf ex_sellable by simp_all
  have fl: "sint (2 :: i32) \<in> flight_ids (current (view ref_reading ex_state))"
    by (simp add: ex_current ex_flight_ids)
  have seq: "seq_ticket (current (view ref_reading ex_state)) + 1 = 2"
    by (simp_all only: view_ref ex_current) (simp_all add: ex_tables_def)
  obtain h1 where h1: "db_purchase ref_api 2 ex_state = (Val 2, h1)"
    and v: "view ref_reading h1 = \<lparr>committed = add_row (sint (2 :: i32)) (current (view ref_reading ex_state)),
      pending = None, last_rowid = 2\<rparr>"
    using purchase_ready [OF ref_sqlite_ok ref_sqlite_ready wf sell, of 2] fl unfolding seq
    by (auto split: if_splits)
  have "tickets (current (view ref_reading h1)) \<noteq> None"
    unfolding v by (simp add: current_def add_row_def)
  from cancel_ready [OF ref_sqlite_ok ref_sqlite_ready this, of 1]
  obtain h2 where "db_cancel ref_api 1 h1 = (Val True, h2)" by auto
  with h1 show ?thesis
    by (simp add: execute_datagram_def execute_switch_def sqlite_ops_def Let_def ex_purchase_def
        ex_cancel_def copy_sender_def)
qed

lemmas ex_direct_mq = ex_direct_from [of MSGQUEUE 77 77]

lemma ex_direct:
  "b \<noteq> MSGQUEUE \<Longrightarrow>
   \<exists>a a' h'. direct b ex_heap (sqlite_ops b ex_junk ref_api) [ex_purchase b, ex_cancel b] ex_state =
     Some ([a, a'], h') \<and> dg_size a = of_nat (SIZEOF_DG b) \<and> dg_size a' = of_nat (SIZEOF_DG b) \<and>
     dg_seat a = 2 \<and> dg_result a' = c_bool True"
proof -
  assume b: "b \<noteq> MSGQUEUE"
  then have "d\<lparr>dg_sender := 0\<rparr> = d" if "d \<in> {ex_purchase b, ex_cancel b}" for d
    using ex_requests [OF that] by (simp add: dg_wf_def)
  with ex_direct_from [of b 0 0] show ?thesis by (simp del: direct.simps)
qed

section \<open>Connected sessions\<close>

definition ex_shm_session :: shm_session where
  "ex_shm_session = \<lparr>ss_semid = 3, ss_queueid = 4, ss_memid = 7, ss_alloc = 7\<rparr>"

definition ex_shm :: shm_state where
  "ex_shm = \<lparr>sem_ids = (\<lambda>_. None), sem_sets = [3 \<mapsto> [0, 0], 4 \<mapsto> [1, 0]], sem_adj = (\<lambda>_ _ _. 0), sem_next = 5,
     sem_room = True, shm_ids = (\<lambda>_. None),
     shm_segs = [7 \<mapsto> \<lparr>seg_bytes = replicate SHMEM_SIZE NUL, seg_att = 2, seg_removed = False\<rparr>],
     shm_next = 8, shm_room = True\<rparr>"

lemma ex_shm_idle: "shm_idle ex_shm_session ex_shm"
  by (simp add: shm_idle_def ex_shm_def ex_shm_session_def seg_ok_def sem_val_def sem_numbers)

definition ex_fifo_session :: fifo_session where
  "ex_fifo_session = \<lparr>fs_path_r = [], fs_path_w = [], fs_serverfd_r = 0, fs_serverfd_w = 1, fs_queueid = 4\<rparr>"

definition ex_pipe :: pipe where
  "ex_pipe = \<lparr>p_buf = [], p_readers = 1, p_writers = 1, p_r_opens = 1, p_w_opens = 1\<rparr>"

definition ex_fifo :: fifo_state where
  "ex_fifo = \<lparr>sem_ids = (\<lambda>_. None), sem_sets = (\<lambda>_. None), sem_adj = (\<lambda>_ _ _. 0), sem_next = 0,
     sem_room = True, pipe_names = (\<lambda>_. None), pipes = (\<lambda>_. ex_pipe), pipe_next = 2, pipe_room = True\<rparr>"

lemma ex_fifo_idle: "fifo_idle ex_fifo_session ex_fifo"
  by (simp add: fifo_idle_def ex_fifo_def ex_fifo_session_def ex_pipe_def)

definition ex_mq_session :: msg_session where
  "ex_mq_session = \<lparr>ms_queueid_r = 0, ms_queueid_w = 1, ms_otherpid = 0\<rparr>"

definition ex_mq :: msg_state where
  "ex_mq = \<lparr>mq_ids = (\<lambda>_. None), mq_sets = [0 \<mapsto> [], 1 \<mapsto> []], mq_next = 2, mq_room = True\<rparr>"

lemma ex_mq_idle: "msg_idle ex_mq_session ex_mq"
  by (simp add: msg_idle_def ex_mq_def ex_mq_session_def)

definition ex_sock_session :: sock_session where
  "ex_sock_session = \<lparr>so_serverfd = 5, so_otherfd = 1, so_cli_addr = [], so_client_ip = []\<rparr>"

definition ex_sock :: sock_state where
  "ex_sock = \<lparr>ports = [5 \<mapsto> []], conns = (\<lambda>_. new_conn [] False), conn_next = 2, sock_room = True,
     port_denied = (\<lambda>_. False), port_auto = (\<lambda>_. 40000), sock_reaches = (\<lambda>_. True), sock_host = []\<rparr>"

lemma ex_sock_idle: "sock_idle ex_sock_session ex_sock"
  by (simp add: sock_idle_def ex_sock_def ex_sock_session_def up_of_def new_conn_def)

section \<open>Conversations\<close>

text \<open>Requests a transport of the build \<open>b\<close> carries and that do not end the conversation.\<close>

definition requests_ok :: "build \<Rightarrow> datagram list \<Rightarrow> bool" where
  "requests_ok b ds \<longleftrightarrow>
     (\<forall>d \<in> set ds. dg_wf b d \<and> dg_size d \<le> of_nat DATAGRAM_MAXSIZE \<and> dg_opcode d \<noteq> opc OP_EXIT)"

definition answers_fit :: "datagram list \<Rightarrow> bool" where
  "answers_fit as \<longleftrightarrow> (\<forall>a \<in> set as. dg_size a \<le> of_nat DATAGRAM_MAXSIZE)"

lemma requests_ok_wf: "requests_ok b ds \<Longrightarrow> \<forall>d \<in> set ds. dg_wf b d \<and> dg_size d \<le> of_nat DATAGRAM_MAXSIZE"
  by (simp add: requests_ok_def)

lemma ex_requests_ok: "requests_ok b [ex_purchase b, ex_cancel b]"
  using ex_requests [of "ex_purchase b" b] ex_requests [of "ex_cancel b" b] sizes_small [of b]
  by (simp add: requests_ok_def)

text \<open>
  C9: over shared memory a conversation of any number of requests is the direct execution of the
  requests on the database: the client gets exactly those answers, in order, the database ends in
  that state, and the two sessions are idle again.
\<close>

theorem shmem_conversation:
  fixes s :: shm_state
  assumes "sqlite_ok api rd" "view_wf (view rd h)" "shm_idle session s" "requests_ok SHMEM ds"
    and "direct SHMEM hp (sqlite_ops SHMEM jk api) ds h = Some (as, h')" "answers_fit as"
  shows "\<exists>s'. run_proc
      (conversation (shm_ipc_send CLIENT flg p session) (shm_receive_ptr CLIENT p session)
        SHMEM hp (sqlite_ops SHMEM jk api)
        (io_of (shm_receive_ptr SERVER q session) (shm_ipc_send SERVER flg q session)
           (shm_ipc_disconnect SERVER session)) ds) (s, h) =
      (Done (map Some as), (s', h')) \<and> shm_idle session s'"
proof -
  have "\<forall>a \<in> set as. shm_fits a"
    using direct_wf [OF assms(1,2) requests_ok_wf [OF assms(4)] assms(5)] assms(6)
    by (simp add: shm_fits_def answers_fit_def sizes_same)
  moreover have "\<forall>d \<in> set ds. shm_fits d \<and> dg_opcode d \<noteq> opc OP_EXIT"
    using assms(4) by (simp add: requests_ok_def shm_fits_def sizes_same)
  ultimately show ?thesis
    using shm_turns.conversation_direct [OF assms(3), where ds = ds and as = as] assms(5)
    by (simp add: comp_def)
qed

theorem shmem_conversation_witness:
  "\<exists>a a' s' h'. run_proc
     (conversation (shm_ipc_send CLIENT 0 11 ex_shm_session) (shm_receive_ptr CLIENT 11 ex_shm_session)
       SHMEM ex_heap (sqlite_ops SHMEM ex_junk ref_api)
       (io_of (shm_receive_ptr SERVER 12 ex_shm_session) (shm_ipc_send SERVER 0 12 ex_shm_session)
          (shm_ipc_disconnect SERVER ex_shm_session))
       [ex_purchase SHMEM, ex_cancel SHMEM]) (ex_shm, ex_state) = (Done [Some a, Some a'], (s', h')) \<and>
     dg_seat a = 2 \<and> dg_result a' = c_bool True \<and> shm_idle ex_shm_session s'"
proof -
  obtain a a' h' where d: "direct SHMEM ex_heap (sqlite_ops SHMEM ex_junk ref_api)
      [ex_purchase SHMEM, ex_cancel SHMEM] ex_state = Some ([a, a'], h')"
      "dg_size a = of_nat (SIZEOF_DG SHMEM)" "dg_size a' = of_nat (SIZEOF_DG SHMEM)"
      "dg_seat a = 2" "dg_result a' = c_bool True"
    using ex_direct [of SHMEM] by auto
  have "answers_fit [a, a']" using d(2,3) sizes_small [of SHMEM] by (simp add: answers_fit_def)
  from shmem_conversation [OF ref_sqlite_ok _ ex_shm_idle ex_requests_ok d(1) this] d(4,5) ex_state_wf
  show ?thesis by fastforce
qed

text \<open>
  C10: over named pipes a conversation of any number of requests is the direct execution of the
  requests on the database.
\<close>

theorem fifo_conversation:
  fixes s :: fifo_state
  assumes "sqlite_ok api rd" "view_wf (view rd h)" "fifo_idle session s" "requests_ok FIFO ds"
    and "direct FIFO hp (sqlite_ops FIFO jk api) ds h = Some (as, h')" "answers_fit as"
  shows "\<exists>s'. run_proc
      (conversation (fifo_ipc_send CLIENT csig session) (fifo_ipc_receive CLIENT session)
        FIFO hp (sqlite_ops FIFO jk api)
        (io_of (fifo_ipc_receive SERVER session) (fifo_ipc_send SERVER ssig session) disc) ds) (s, h) =
      (Done (map Some as), (s', h')) \<and> fifo_idle session s'"
proof -
  have "\<forall>a \<in> set as. fifo_fits a"
    using direct_wf [OF assms(1,2) requests_ok_wf [OF assms(4)] assms(5)] assms(6)
    by (simp add: fifo_fits_def answers_fit_def)
  moreover have "\<forall>d \<in> set ds. fifo_fits d \<and> dg_opcode d \<noteq> opc OP_EXIT"
    using assms(4) by (simp add: requests_ok_def fifo_fits_def)
  ultimately show ?thesis
    using fifo_link.conversation_direct [OF assms(3), where ds = ds and as = as] assms(5)
    by (simp add: comp_def)
qed

theorem fifo_conversation_witness:
  "\<exists>a a' s' h'. run_proc
     (conversation (fifo_ipc_send CLIENT Undef ex_fifo_session) (fifo_ipc_receive CLIENT ex_fifo_session)
       FIFO ex_heap (sqlite_ops FIFO ex_junk ref_api)
       (io_of (fifo_ipc_receive SERVER ex_fifo_session) (fifo_ipc_send SERVER Undef ex_fifo_session) Undef)
       [ex_purchase FIFO, ex_cancel FIFO]) (ex_fifo, ex_state) = (Done [Some a, Some a'], (s', h')) \<and>
     dg_seat a = 2 \<and> dg_result a' = c_bool True \<and> fifo_idle ex_fifo_session s'"
proof -
  obtain a a' h' where d: "direct FIFO ex_heap (sqlite_ops FIFO ex_junk ref_api)
      [ex_purchase FIFO, ex_cancel FIFO] ex_state = Some ([a, a'], h')"
      "dg_size a = of_nat (SIZEOF_DG FIFO)" "dg_size a' = of_nat (SIZEOF_DG FIFO)"
      "dg_seat a = 2" "dg_result a' = c_bool True"
    using ex_direct [of FIFO] by auto
  have "answers_fit [a, a']" using d(2,3) sizes_small [of FIFO] by (simp add: answers_fit_def)
  from fifo_conversation [OF ref_sqlite_ok _ ex_fifo_idle ex_requests_ok d(1) this] d(4,5) ex_state_wf
  show ?thesis by fastforce
qed

text \<open>
  C11: over message queues a conversation of any number of requests is the direct execution of the
  requests, each with the client's process number as its sender.
\<close>

theorem msgqueue_conversation:
  fixes p :: i32
  assumes "sqlite_ok api rd" "view_wf (view rd h)" "msg_idle session s" "0 < sint p"
    and "requests_ok MSGQUEUE ds"
    and "direct MSGQUEUE hp (sqlite_ops MSGQUEUE jk api) (map (\<lambda>d. d\<lparr>dg_sender := p\<rparr>) ds) h = Some (as, h')"
    and "answers_fit as"
  shows "\<exists>s'. run_proc
      (conversation (msg_ipc_send CLIENT p session) (msg_ipc_receive CLIENT hp p session)
        MSGQUEUE hp (sqlite_ops MSGQUEUE jk api)
        (io_of (msg_ipc_receive SERVER hp srv session) (msg_ipc_send SERVER srv session)
           (msg_ipc_disconnect SERVER session)) ds) (s, h) =
      (Done (map Some as), (s', h')) \<and> msg_idle session s'"
proof -
  let ?ds = "map (\<lambda>d. d\<lparr>dg_sender := p\<rparr>) ds"
  have ds: "\<forall>d \<in> set ?ds. dg_wf MSGQUEUE d \<and> dg_size d \<le> of_nat DATAGRAM_MAXSIZE \<and> dg_sender d = p"
    using assms(5) by (auto simp: requests_ok_def dg_wf_def)
  then have "\<forall>d \<in> set ?ds. length (dg_raw d) \<le> DATAGRAM_MAXSIZE" using dg_wf_raw by blast
  from direct_answers [OF assms(1,2) this assms(6)] ds
  have "\<forall>a \<in> set as. dg_wf MSGQUEUE a \<and> dg_sender a = p"
    by (fastforce simp: list_all2_conv_all_nth in_set_conv_nth)
  then have "\<forall>a \<in> set as. msg_fits a \<and> dg_sender a = p"
    using assms(7) by (simp add: msg_fits_def answers_fit_def)
  moreover have "\<forall>d \<in> set ds. msg_fits d \<and> dg_opcode (d\<lparr>dg_sender := p\<rparr>) \<noteq> opc OP_EXIT"
    using assms(5) by (simp add: requests_ok_def msg_fits_def)
  ultimately show ?thesis
    using mq_turns.conversation_direct [where s = s and session = session and pid = p and ds = ds and as = as]
      assms(3,4,6)
    by (auto simp: comp_def)
qed

theorem msgqueue_conversation_witness:
  "\<exists>a a' s' h'. run_proc
     (conversation (msg_ipc_send CLIENT 77 ex_mq_session) (msg_ipc_receive CLIENT ex_heap 77 ex_mq_session)
       MSGQUEUE ex_heap (sqlite_ops MSGQUEUE ex_junk ref_api)
       (io_of (msg_ipc_receive SERVER ex_heap 1 ex_mq_session) (msg_ipc_send SERVER 1 ex_mq_session)
          (msg_ipc_disconnect SERVER ex_mq_session))
       [ex_purchase MSGQUEUE, ex_cancel MSGQUEUE]) (ex_mq, ex_state) = (Done [Some a, Some a'], (s', h')) \<and>
     dg_seat a = 2 \<and> dg_result a' = c_bool True \<and> msg_idle ex_mq_session s'"
proof -
  obtain a a' h' where d: "direct MSGQUEUE ex_heap (sqlite_ops MSGQUEUE ex_junk ref_api)
      (map (\<lambda>d. d\<lparr>dg_sender := 77\<rparr>) [ex_purchase MSGQUEUE, ex_cancel MSGQUEUE]) ex_state = Some ([a, a'], h')"
      "dg_size a = of_nat (SIZEOF_DG MSGQUEUE)" "dg_size a' = of_nat (SIZEOF_DG MSGQUEUE)"
      "dg_seat a = 2" "dg_result a' = c_bool True"
    using ex_direct_mq by (auto simp del: direct.simps)
  have "answers_fit [a, a']" using d(2,3) sizes_small [of MSGQUEUE] by (simp add: answers_fit_def)
  from msgqueue_conversation [OF ref_sqlite_ok _ ex_mq_idle _ ex_requests_ok d(1) this] d(4,5) ex_state_wf
  show ?thesis by fastforce
qed

text \<open>
  C12: over TCP, when every message has arrived whole before it is received, a conversation of any
  number of requests is the direct execution of the requests on the database.
\<close>

theorem socket_conversation:
  assumes "sqlite_ok api rd" "view_wf (view rd h)" "sock_idle session s" "requests_ok SOCKET ds"
    and "direct SOCKET hp (sqlite_ops SOCKET jk api) ds h = Some (as, h')" "answers_fit as"
  shows "\<exists>s'. run_proc
      (conversation (sock_ipc_send CLIENT session) (receive_whole CLIENT session)
        SOCKET hp (sqlite_ops SOCKET jk api)
        (io_of (receive_whole SERVER session) (sock_ipc_send SERVER session) disc) ds) (s, h) =
      (Done (map Some as), (s', h')) \<and> sock_idle session s'"
proof -
  have "\<forall>a \<in> set as. sock_fits a"
    using direct_wf [OF assms(1,2) requests_ok_wf [OF assms(4)] assms(5)] assms(6)
    by (simp add: sock_fits_def answers_fit_def)
  moreover have "\<forall>d \<in> set ds. sock_fits d \<and> dg_opcode d \<noteq> opc OP_EXIT"
    using assms(4) by (simp add: requests_ok_def sock_fits_def)
  ultimately show ?thesis
    using sock_link.conversation_direct [OF assms(3), where ds = ds and as = as] assms(5)
    by (simp add: comp_def)
qed

theorem socket_conversation_witness:
  "\<exists>a a' s' h'. run_proc
     (conversation (sock_ipc_send CLIENT ex_sock_session) (receive_whole CLIENT ex_sock_session)
       SOCKET ex_heap (sqlite_ops SOCKET ex_junk ref_api)
       (io_of (receive_whole SERVER ex_sock_session) (sock_ipc_send SERVER ex_sock_session) Undef)
       [ex_purchase SOCKET, ex_cancel SOCKET]) (ex_sock, ex_state) = (Done [Some a, Some a'], (s', h')) \<and>
     dg_seat a = 2 \<and> dg_result a' = c_bool True \<and> sock_idle ex_sock_session s'"
proof -
  obtain a a' h' where d: "direct SOCKET ex_heap (sqlite_ops SOCKET ex_junk ref_api)
      [ex_purchase SOCKET, ex_cancel SOCKET] ex_state = Some ([a, a'], h')"
      "dg_size a = of_nat (SIZEOF_DG SOCKET)" "dg_size a' = of_nat (SIZEOF_DG SOCKET)"
      "dg_seat a = 2" "dg_result a' = c_bool True"
    using ex_direct [of SOCKET] by auto
  have "answers_fit [a, a']" using d(2,3) sizes_small [of SOCKET] by (simp add: answers_fit_def)
  from socket_conversation [OF ref_sqlite_ok _ ex_sock_idle ex_requests_ok d(1) this] d(4,5) ex_state_wf
  show ?thesis by fastforce
qed

end
