(* ===== verification/Client.thy ===== *)
theory Client
  imports Libclient Proc
begin

text \<open>
  \<open>client/client.c\<close>: the loop of the networked clients.  The standard input is a list of chunks, one
  for each \<open>read\<close>; what the client prints is threaded through as a string.
\<close>

section \<open>The input buffer\<close>

text \<open>
  \<open>char buffer[4096]\<close> starts zeroed; \<open>read\<close> overwrites its first \<open>n\<close> bytes and the last of them, the
  newline, becomes the terminator.
\<close>

definition empty_buffer :: bytes where
  "empty_buffer = replicate DATAGRAM_MAXSIZE NUL"

definition fill_buffer :: "bytes \<Rightarrow> bytes \<Rightarrow> bytes" where
  "fill_buffer chunk buf = (chunk @ drop (length chunk) buf)[length chunk - 1 := NUL]"

lemma fill_buffer_line:
  assumes "nul_free line"
  shows "cstr (fill_buffer (line @ [c]) buf) = Some line"
proof -
  have "fill_buffer (line @ [c]) buf = line @ NUL # drop (length line + 1) buf"
    by (simp add: fill_buffer_def list_update_append)
  then show ?thesis using cstr_append [OF assms] by simp
qed

lemma length_fill_buffer [simp]:
  "length chunk \<le> length buf \<Longrightarrow> length (fill_buffer chunk buf) = length buf"
  by (simp add: fill_buffer_def)

section \<open>The loop\<close>

record 's client_io =
  ci_send :: "datagram \<Rightarrow> ('s, int) proc"
  ci_receive :: "('s, datagram option) proc"
  ci_disconnect :: "('s, unit) proc"
  ci_free :: "('s, unit) proc"

definition send_exit :: "build \<Rightarrow> (nat \<Rightarrow> char) \<Rightarrow> 's client_io \<Rightarrow> ('s, int) proc" where
  "send_exit b hp io = ci_send io (new_dg b hp (SIZEOF_DG b) OP_EXIT)"

definition client_end :: "'s client_io \<Rightarrow> string \<Rightarrow> ('s, string) proc" where
  "client_end io out = pseq (ci_disconnect io) (pseq (ci_free io) (Ret out))"

primrec client_loop ::
    "bytes list \<Rightarrow> build \<Rightarrow> (nat \<Rightarrow> char) \<Rightarrow> tz \<Rightarrow> 's client_io \<Rightarrow> bytes \<Rightarrow> bool \<Rightarrow> string \<Rightarrow>
     ('s, string) proc" where
  "client_loop [] b hp z io buf admin out = client_end io out"
| "client_loop (chunk # input) b hp z io buf admin out =
     (if chunk = [] then client_end io out
      else
        let buf = fill_buffer chunk buf in
        case cstr buf of
          None \<Rightarrow> Undef
        | Some line \<Rightarrow>
            if line = [] then client_loop input b hp z io buf admin out
            else if streq line ''exit'' then
              pseq (send_exit b hp io) (client_end io (out @ ''Enviando comando EXIT'' @ nl))
            else
              (case command_to_datagram b hp z admin buf of
                 Exit n \<Rightarrow> Halt n
               | Crash \<Rightarrow> Undef
               | Val rep \<Rightarrow>
                   (case rep_dg rep of
                      None \<Rightarrow>
                        client_loop input b hp z io buf (rep_admin rep) (out @ rep_out rep @ print_prompt)
                    | Some datagram \<Rightarrow>
                        pseq (ci_send io datagram)
                       (pbind (ci_receive io) (\<lambda>answer.
                          case answer of
                            None \<Rightarrow> Undef
                          | Some a \<Rightarrow>
                              (case parse_answer b z a of
                                 Exit n \<Rightarrow> Halt n
                               | Crash \<Rightarrow> Undef
                               | Val text \<Rightarrow>
                                   client_loop input b hp z io buf (rep_admin rep)
                                     (out @ rep_out rep @ text @ print_prompt)))))))"

text \<open>
  \<open>main\<close>: only -1 is taken for a failed \<open>ipc_connect\<close>.  \<open>connect\<close> gives the transport's functions for
  the session it opens.
\<close>

definition client_main ::
    "build \<Rightarrow> (nat \<Rightarrow> char) \<Rightarrow> tz \<Rightarrow> ('s, int \<times> 's client_io) proc \<Rightarrow> bytes list \<Rightarrow> ('s, string) proc" where
  "client_main b hp z connect input =
     pbind connect (\<lambda>(err, io).
       if err = -1 then Halt 1
       else client_loop input b hp z io empty_buffer False
              (''Iniciando cliente...'' @ nl @ ''----------------------------------'' @ nl @
               COLOR_GREEN @ ''Ejecute 'help' para obtener ayuda.'' @ nl @ COLOR_RESET @ print_prompt))"

text \<open>The handler of SIGINT.\<close>

definition client_int_handler :: "build \<Rightarrow> (nat \<Rightarrow> char) \<Rightarrow> 's client_io \<Rightarrow> ('s, unit) proc" where
  "client_int_handler b hp io =
     pseq (send_exit b hp io) (pseq (ci_disconnect io) (pseq (ci_free io) (Halt 0)))"

end
