(* ===== verification/Filemutex.thy ===== *)
theory Filemutex
  imports Proc
begin

text \<open>
  \<open>ipc/lib/filemutex.c\<close>: mutual exclusion between local clients with a lock on a file.  A descriptor
  is the number of the file or -1; a process that may not open the file gets -1, and its calls of
  \<open>fcntl\<close> fail at once (their results are not looked at).  The messages are left out.
\<close>

section \<open>Locks of the system\<close>

record lock_state =
  lock_files :: "string \<Rightarrow> nat option"
  lock_next :: nat
  lock_holder :: "nat \<Rightarrow> nat option"        \<comment> \<open>file to the process with the write lock\<close>
  lock_denied :: "nat \<Rightarrow> string \<Rightarrow> bool"    \<comment> \<open>the process may not open the file, even after \<open>chmod\<close>\<close>

definition lock_open :: "nat \<Rightarrow> string \<Rightarrow> 'z lock_state_scheme \<Rightarrow> int \<times> 'z lock_state_scheme" where
  "lock_open pid path s =
     (if lock_denied s pid path then (-1, s)
      else case lock_files s path of
          Some i \<Rightarrow> (int i, s)
        | None \<Rightarrow>
            (int (lock_next s),
             s\<lparr>lock_files := (lock_files s)(path := Some (lock_next s)), lock_next := lock_next s + 1\<rparr>))"

text \<open>\<open>fcntl (fd, F_SETLKW, F_WRLCK)\<close> waits while another process has the lock.\<close>

definition lock_wait :: "nat \<Rightarrow> int \<Rightarrow> 'z lock_state_scheme \<Rightarrow> (int \<times> 'z lock_state_scheme) option" where
  "lock_wait pid fd s =
     (if fd < 0 then Some (-1, s)
      else case lock_holder s (nat fd) of
          Some p \<Rightarrow> if p = pid then Some (0, s) else None
        | None \<Rightarrow> Some (0, s\<lparr>lock_holder := (lock_holder s)(nat fd := Some pid)\<rparr>))"

text \<open>\<open>F_UNLCK\<close>, and \<open>close\<close>, which drops the process's locks on the file.\<close>

definition lock_drop :: "nat \<Rightarrow> int \<Rightarrow> 'z lock_state_scheme \<Rightarrow> 'z lock_state_scheme" where
  "lock_drop pid fd s =
     (if fd < 0 then s
      else if lock_holder s (nat fd) = Some pid
        then s\<lparr>lock_holder := (lock_holder s)(nat fd := None)\<rparr> else s)"

section \<open>The functions\<close>

record fmutex =
  fm_path :: string
  fm_fd :: int

text \<open>
  The structure has a pointer and an \<open>int\<close>, but the block is asked for with the size of a pointer:
  the member \<open>fd\<close>, at offset 8, is inside only when the allocator (\<open>usable\<close>) gives more.
\<close>

definition fmutex_new :: "(nat \<Rightarrow> nat) \<Rightarrow> string \<Rightarrow> fmutex cres" where
  "fmutex_new usable path =
     (if usable 8 < 12 then Crash else Val \<lparr>fm_path = path, fm_fd = -2\<rparr>)"

definition fmutex_enter :: "nat \<Rightarrow> fmutex \<Rightarrow> ('z lock_state_scheme, fmutex) proc" where
  "fmutex_enter pid mutex =
     pbind (sys (\<lambda>s. Some (lock_open pid (fm_path mutex) s))) (\<lambda>fd.
     pbind (sys (lock_wait pid fd)) (\<lambda>code.
       Ret (mutex\<lparr>fm_fd := fd\<rparr>)))"

definition fmutex_leave :: "nat \<Rightarrow> fmutex \<Rightarrow> ('z lock_state_scheme, unit) proc" where
  "fmutex_leave pid mutex =
     pseq (upd (lock_drop pid (fm_fd mutex))) (upd (lock_drop pid (fm_fd mutex)))"

definition fmutex_free :: "fmutex \<Rightarrow> ('s, unit) proc" where
  "fmutex_free mutex = Ret ()"

section \<open>Mutual exclusion\<close>

text \<open>
  Any number of processes that enter and leave the mutex, over and over: a process is outside, at
  some system call of \<open>fmutex_enter\<close>, inside with the descriptor it got, or at some system call of
  \<open>fmutex_leave\<close>.
\<close>

datatype place =
    Outside
  | Entering "(lock_state, fmutex) proc"
  | Inside fmutex
  | Leaving "(lock_state, unit) proc"

inductive mutex_step ::
    "fmutex \<Rightarrow> lock_state \<times> (nat \<Rightarrow> place) \<Rightarrow> lock_state \<times> (nat \<Rightarrow> place) \<Rightarrow> bool" for mutex where
  calls_enter: "at p = Outside \<Longrightarrow>
    mutex_step mutex (s, at) (s, at(p := Entering (fmutex_enter p mutex)))"
| in_enter: "at p = Entering (Act f) \<Longrightarrow> f s = Some (s', q) \<Longrightarrow>
    mutex_step mutex (s, at) (s', at(p := Entering q))"
| entered: "at p = Entering (Ret m) \<Longrightarrow>
    mutex_step mutex (s, at) (s, at(p := Inside m))"
| calls_leave: "at p = Inside m \<Longrightarrow>
    mutex_step mutex (s, at) (s, at(p := Leaving (fmutex_leave p m)))"
| in_leave: "at p = Leaving (Act g) \<Longrightarrow> g s = Some (s', r) \<Longrightarrow>
    mutex_step mutex (s, at) (s', at(p := Leaving r))"
| left: "at p = Leaving (Ret u) \<Longrightarrow>
    mutex_step mutex (s, at) (s, at(p := Outside))"

inductive_cases mutex_stepE: "mutex_step mutex c c'"

definition no_lock :: "(nat \<Rightarrow> string \<Rightarrow> bool) \<Rightarrow> lock_state" where
  "no_lock denied = \<lparr>lock_files = (\<lambda>_. None), lock_next = 0, lock_holder = (\<lambda>_. None), lock_denied = denied\<rparr>"

definition mutex_start :: "(nat \<Rightarrow> string \<Rightarrow> bool) \<Rightarrow> lock_state \<times> (nat \<Rightarrow> place)" where
  "mutex_start denied = (no_lock denied, \<lambda>_. Outside)"

text \<open>What each place guarantees: the descriptor is the one of the path, and inside the lock is held.\<close>

definition has_file :: "fmutex \<Rightarrow> lock_state \<Rightarrow> int \<Rightarrow> bool" where
  "has_file mutex s fd \<longleftrightarrow> 0 \<le> fd \<and> lock_files s (fm_path mutex) = Some (nat fd)"

definition has_lock :: "fmutex \<Rightarrow> lock_state \<Rightarrow> nat \<Rightarrow> int \<Rightarrow> bool" where
  "has_lock mutex s p fd \<longleftrightarrow> has_file mutex s fd \<and> lock_holder s (nat fd) = Some p"

primrec place_ok :: "fmutex \<Rightarrow> lock_state \<Rightarrow> nat \<Rightarrow> place \<Rightarrow> bool" where
  "place_ok mutex s p Outside = True"
| "place_ok mutex s p (Entering q) =
     (q = fmutex_enter p mutex \<or>
      (\<exists>fd. has_file mutex s fd \<and> q = pbind (sys (lock_wait p fd)) (\<lambda>code. Ret (mutex\<lparr>fm_fd := fd\<rparr>))) \<or>
      (\<exists>m. has_lock mutex s p (fm_fd m) \<and> q = Ret m))"
| "place_ok mutex s p (Inside m) = has_lock mutex s p (fm_fd m)"
| "place_ok mutex s p (Leaving q) =
     (\<exists>fd. has_file mutex s fd \<and>
        (q = pseq (upd (lock_drop p fd)) (upd (lock_drop p fd)) \<or> q = upd (lock_drop p fd) \<or> q = Ret ()))"

definition mutex_inv :: "fmutex \<Rightarrow> lock_state \<times> (nat \<Rightarrow> place) \<Rightarrow> bool" where
  "mutex_inv mutex = (\<lambda>(s, at).
     (\<forall>p. \<not> lock_denied s p (fm_path mutex)) \<and> (\<forall>p. place_ok mutex s p (at p)))"

text \<open>A system call of \<open>p\<close> takes nothing from the others.\<close>

definition spares :: "fmutex \<Rightarrow> nat \<Rightarrow> lock_state \<Rightarrow> lock_state \<Rightarrow> bool" where
  "spares mutex p s s' \<longleftrightarrow>
     lock_denied s' = lock_denied s \<and>
     (\<forall>fd. has_file mutex s fd \<longrightarrow> has_file mutex s' fd) \<and>
     (\<forall>q i. q \<noteq> p \<longrightarrow> lock_holder s i = Some q \<longrightarrow> lock_holder s' i = Some q)"

lemma place_ok_spares: "place_ok mutex s q pl \<Longrightarrow> spares mutex p s s' \<Longrightarrow> q \<noteq> p \<Longrightarrow> place_ok mutex s' q pl"
  by (cases pl) (auto simp: spares_def has_lock_def)

lemma spares_refl: "spares mutex p s s"
  by (simp add: spares_def)

lemma mutex_inv_upd:
  assumes "mutex_inv mutex (s, at)" "spares mutex p s s'" "place_ok mutex s' p pl"
  shows "mutex_inv mutex (s', at(p := pl))"
  using assms place_ok_spares [OF _ assms(2)] by (auto simp: mutex_inv_def) (auto simp: spares_def)

lemma lock_open_ok:
  assumes "lock_open p (fm_path mutex) s = (fd, s')" "\<not> lock_denied s p (fm_path mutex)"
  shows "has_file mutex s' fd \<and> spares mutex p s s'"
  using assms by (auto simp: lock_open_def has_file_def spares_def split: option.splits)

lemma lock_wait_ok:
  assumes "lock_wait p fd s = Some (rc, s')" "has_file mutex s fd"
  shows "has_lock mutex s' p fd \<and> spares mutex p s s'"
  using assms
  by (auto simp: lock_wait_def has_file_def has_lock_def spares_def split: option.splits if_splits)

lemma lock_drop_ok: "has_file mutex s fd \<Longrightarrow> has_file mutex (lock_drop p fd s) fd \<and> spares mutex p s (lock_drop p fd s)"
  by (auto simp: lock_drop_def has_file_def spares_def)

lemma enter_call_ok:
  assumes "place_ok mutex s p (Entering (Act f))" "f s = Some (s', q)" "\<not> lock_denied s p (fm_path mutex)"
  shows "place_ok mutex s' p (Entering q) \<and> spares mutex p s s'"
proof -
  consider "Act f = fmutex_enter p mutex"
    | fd where "has_file mutex s fd" "Act f = pbind (sys (lock_wait p fd)) (\<lambda>code. Ret (mutex\<lparr>fm_fd := fd\<rparr>))"
    using assms(1) by auto
  then show ?thesis
  proof cases
    case 1
    then obtain fd where "lock_open p (fm_path mutex) s = (fd, s')"
        "q = pbind (sys (lock_wait p fd)) (\<lambda>code. Ret (mutex\<lparr>fm_fd := fd\<rparr>))"
      using assms(2) by (auto simp: fmutex_enter_def split: prod.splits)
    with lock_open_ok [OF this(1) assms(3)] show ?thesis by auto
  next
    case 2
    then obtain rc where "lock_wait p fd s = Some (rc, s')" "q = Ret (mutex\<lparr>fm_fd := fd\<rparr>)"
      using assms(2) by auto
    with lock_wait_ok [OF this(1) 2(1)] show ?thesis by auto
  qed
qed

lemma leave_call_ok:
  assumes "place_ok mutex s p (Leaving (Act g))" "g s = Some (s', q)"
  shows "place_ok mutex s' p (Leaving q) \<and> spares mutex p s s'"
proof -
  obtain fd where fd: "has_file mutex s fd"
    and g: "Act g = pseq (upd (lock_drop p fd)) (upd (lock_drop p fd)) \<or> Act g = upd (lock_drop p fd)"
    using assms(1) by auto
  from g have "g = (\<lambda>s. Some (lock_drop p fd s, upd (lock_drop p fd))) \<or>
      g = (\<lambda>s. Some (lock_drop p fd s, Ret ()))"
    by (simp add: pseq_def upd_def sys_def)
  then have "s' = lock_drop p fd s" "q = upd (lock_drop p fd) \<or> q = Ret ()"
    using assms(2) by auto
  with lock_drop_ok [OF fd, of p] show ?thesis by auto
qed

lemma mutex_inv_at:
  assumes "mutex_inv mutex (s, at)"
  shows "place_ok mutex s p (at p)" "\<not> lock_denied s p (fm_path mutex)"
  using assms by (simp_all add: mutex_inv_def)

lemma mutex_inv_step: "mutex_step mutex c c' \<Longrightarrow> mutex_inv mutex c \<Longrightarrow> mutex_inv mutex c'"
proof (induction rule: mutex_step.induct)
  case (in_enter at p f s s' q)
  have "place_ok mutex s p (Entering (Act f))" using mutex_inv_at(1) [OF in_enter(3), of p] in_enter(1) by metis
  from enter_call_ok [OF this in_enter(2) mutex_inv_at(2) [OF in_enter(3)]]
  show ?case by (intro mutex_inv_upd [OF in_enter(3)]) simp_all
next
  case (in_leave at p g s s' r)
  have "place_ok mutex s p (Leaving (Act g))" using mutex_inv_at(1) [OF in_leave(3), of p] in_leave(1) by metis
  from leave_call_ok [OF this in_leave(2)]
  show ?case by (intro mutex_inv_upd [OF in_leave(3)]) simp_all
next
  case (calls_enter at p s)
  show ?case by (rule mutex_inv_upd [OF calls_enter(2) spares_refl]) simp
next
  case (entered at p m s)
  have "place_ok mutex s p (Entering (Ret m))" using mutex_inv_at(1) [OF entered(2), of p] entered(1) by metis
  then show ?case by (intro mutex_inv_upd [OF entered(2) spares_refl]) (simp add: fmutex_enter_def)
next
  case (calls_leave at p m s)
  have "place_ok mutex s p (Inside m)" using mutex_inv_at(1) [OF calls_leave(2), of p] calls_leave(1) by metis
  then show ?case
    by (intro mutex_inv_upd [OF calls_leave(2) spares_refl]) (auto simp: has_lock_def fmutex_leave_def)
next
  case (left at p u s)
  show ?case by (rule mutex_inv_upd [OF left(2) spares_refl]) simp
qed

lemma mutex_inv_start: "(\<And>p. \<not> denied p (fm_path mutex)) \<Longrightarrow> mutex_inv mutex (mutex_start denied)"
  by (simp add: mutex_inv_def mutex_start_def no_lock_def)

lemma mutex_inv_reach: "(mutex_step mutex)\<^sup>*\<^sup>* c c' \<Longrightarrow> mutex_inv mutex c \<Longrightarrow> mutex_inv mutex c'"
  by (induction rule: rtranclp_induct) (auto dest: mutex_inv_step)

lemma mutex_inv_one:
  "mutex_inv mutex (s, at) \<Longrightarrow> at p = Inside m \<Longrightarrow> at q = Inside n \<Longrightarrow> p = q"
  by (simp add: mutex_inv_def has_lock_def has_file_def) (metis option.inject place_ok.simps(3) has_lock_def has_file_def)

end
