(* ===== verification/Localclient.thy ===== *)
theory Localclient
  imports Server Client Filemutex
begin

text \<open>
  \<open>client/localclient.c\<close>: the client that uses the database library itself, one process at a time,
  with the file mutex around each request.  The state is that of the locks together with that of the
  database.  The standard input is a list of chunks as in \<open>Client\<close>, and what is printed is threaded
  through as a string.
\<close>

text \<open>\<open>sleep\<close> changes nothing; the other processes run meanwhile.\<close>

definition sleep :: "i32 \<Rightarrow> ('s, unit) proc" where
  "sleep seconds = upd (\<lambda>s. s)"

text \<open>
  The branch of \<open>setdelay\<close>: with another number of arguments the message is printed and the second
  argument is read all the same.  The result is the new \<open>delay\<close> and the text.
\<close>

definition set_delay :: "string \<Rightarrow> (i32 \<times> string) cres" where
  "set_delay line =
     cbind (parse_command line) (\<lambda>cmd.
     let out = (if sc_argc cmd \<noteq> 2 then ''Comando invalido.'' @ nl else []) in
     cbind (arg cmd 1) (\<lambda>a.
       Val (atoi a,
            out @ ''Retardo seteado en '' @ dec (sint (atoi a)) @ '' segundos'' @ nl @ print_prompt)))"

text \<open>A request: the mutex is held while the database is used and while the process sleeps.\<close>

definition guarded ::
    "nat \<Rightarrow> build \<Rightarrow> (nat \<Rightarrow> char) \<Rightarrow> 'h db_ops \<Rightarrow> fmutex \<Rightarrow> i32 \<Rightarrow> datagram \<Rightarrow>
     ('z lock_state_scheme \<times> 'h, fmutex \<times> datagram option) proc" where
  "guarded pid b hp ops mutex delay datagram =
     pbind (on_ipc (fmutex_enter pid mutex)) (\<lambda>mutex.
     pbind (on_db (execute_datagram b hp ops datagram)) (\<lambda>ans.
     pseq (if 0 < sint delay then sleep delay else Ret ())
    (pseq (on_ipc (fmutex_leave pid mutex))
          (Ret (mutex, ans)))))"

definition local_end :: "fmutex \<Rightarrow> string \<Rightarrow> ('s, string) proc" where
  "local_end mutex out = pseq (fmutex_free mutex) (Ret out)"

primrec local_loop ::
    "bytes list \<Rightarrow> nat \<Rightarrow> build \<Rightarrow> (nat \<Rightarrow> char) \<Rightarrow> tz \<Rightarrow> 'h db_ops \<Rightarrow> bytes \<Rightarrow> bool \<Rightarrow> fmutex \<Rightarrow> i32 \<Rightarrow>
     string \<Rightarrow> ('z lock_state_scheme \<times> 'h, string) proc" where
  "local_loop [] pid b hp z ops buf admin mutex delay out = local_end mutex out"
| "local_loop (chunk # input) pid b hp z ops buf admin mutex delay out =
     (if chunk = [] then local_end mutex out
      else
        let buf = fill_buffer chunk buf in
        case cstr buf of
          None \<Rightarrow> Undef
        | Some line \<Rightarrow>
            if line = [] then local_loop input pid b hp z ops buf admin mutex delay out
            else if streq line ''exit'' then local_end mutex out
            else if strneq 8 line ''setdelay'' then
              (case set_delay line of
                 Exit n \<Rightarrow> Halt n
               | Crash \<Rightarrow> Undef
               | Val (delay, text) \<Rightarrow>
                   local_loop input pid b hp z ops buf admin mutex delay (out @ text))
            else
              (case command_to_datagram b hp z admin buf of
                 Exit n \<Rightarrow> Halt n
               | Crash \<Rightarrow> Undef
               | Val rep \<Rightarrow>
                   (case rep_dg rep of
                      None \<Rightarrow>
                        local_loop input pid b hp z ops buf (rep_admin rep) mutex delay
                          (out @ rep_out rep @ print_prompt)
                    | Some datagram \<Rightarrow>
                        pbind (guarded pid b hp ops mutex delay datagram) (\<lambda>(mutex, ans).
                          case ans of
                            None \<Rightarrow> Undef
                          | Some a \<Rightarrow>
                              (case parse_answer b z a of
                                 Exit n \<Rightarrow> Halt n
                               | Crash \<Rightarrow> Undef
                               | Val text \<Rightarrow>
                                   local_loop input pid b hp z ops buf (rep_admin rep) mutex delay
                                     (out @ rep_out rep @ text @ print_prompt))))))"

text \<open>
  \<open>main\<close>: the result of \<open>db_open\<close> is not looked at.  The lines of \<open>database.c\<close> go to the terminal of this
  process too; they are in the state of the database (\<open>api_printf\<close>), not in the text threaded here.
\<close>

definition local_main ::
    "(nat \<Rightarrow> nat) \<Rightarrow> nat \<Rightarrow> build \<Rightarrow> junk \<Rightarrow> tz \<Rightarrow> ('h, 'q) sqlite \<Rightarrow> bytes list \<Rightarrow>
     ('z lock_state_scheme \<times> 'h, string) proc" where
  "local_main usable pid b jk z api input =
     pbind (of_cres (fmutex_new usable LOCALCLIENT_MUTEX_PATH)) (\<lambda>mutex.
     pbind (on_db (\<lambda>h. Some (db_open api DB_PATH h))) (\<lambda>_.
       local_loop input pid b (heap jk) z (sqlite_ops b jk api) empty_buffer False mutex 0
         (''Iniciando cliente...'' @ nl @ ''----------------------------------'' @ nl @
          COLOR_GREEN @ ''Ejecute 'help' para obtener ayuda.'' @ nl @ COLOR_RESET @ print_prompt)))"

definition local_int_handler :: "fmutex \<Rightarrow> ('s, unit) proc" where
  "local_int_handler mutex = pseq (fmutex_free mutex) (Halt 0)"

section \<open>A request under the mutex\<close>

lemma guarded_waits:
  assumes "\<not> lock_denied s pid (fm_path mutex)" "lock_files s (fm_path mutex) = Some i"
    "lock_holder s i = Some q" "q \<noteq> pid"
  shows "run_proc (guarded pid b hp ops mutex delay d) (s, h) = (Blocked, (s, h))"
  using assms by (simp add: guarded_def run_proc_bind run_on_ipc fmutex_enter_def lock_open_def lock_wait_def)

lemma guarded_runs:
  assumes "\<not> lock_denied s pid (fm_path mutex)" "lock_files s (fm_path mutex) = Some i"
    "lock_holder s i = None" and ex: "execute_datagram b hp ops d h = Some (Val ans, h')"
  shows "run_proc (guarded pid b hp ops mutex delay d) (s, h) =
    (Done (mutex\<lparr>fm_fd := int i\<rparr>, ans), (s, h'))"
proof -
  have "s\<lparr>lock_holder := lock_holder s\<rparr> = s" by simp
  moreover have "(lock_holder s)(i := None) = lock_holder s" using assms(3) by (simp add: fun_upd_idem)
  ultimately show ?thesis
    using assms
    by (simp add: guarded_def run_proc_bind run_on_ipc run_on_db pseq_def fmutex_enter_def fmutex_leave_def
        lock_open_def lock_wait_def lock_drop_def on_db_def of_cres_def sleep_def upd_def sys_def)
qed

end
