(* ===== verification/Limits.thy ===== *)
theory Limits
  imports Transports Localclient
begin

text \<open>
  What happens at the limits of the transports: answers that are too large, and several clients on
  the shared message queues.
\<close>

section \<open>A catalogue too large for an answer\<close>

lemma consult_request_size: "dg_size (consult_request b hp og dest) = of_nat (SIZEOF_DG b)"
proof -
  let ?n = "(new_dg b hp (SIZEOF_DG b) OP_CONSULT)\<lparr>dg_data := og\<rparr>"
  obtain d where d: "put_destination dest ?n = Some d"
    using put_destination_fits [of ?n dest] new_dg_room [of b hp OP_CONSULT] by auto
  then have "dg_size d = dg_size ?n" by (auto simp: put_destination_def put_raw_def split: option.splits)
  then show ?thesis using d by (simp add: consult_request_def)
qed

lemma consult_full:
  assumes "sqlite_ok api rd" "sqlite_ready api rd" "flights (current (view rd h)) \<noteq> None"
    and "length (matching og dest (current (view rd h))) = 26" "b \<noteq> MSGQUEUE"
  shows "\<exists>a h'. execute_datagram b hp (sqlite_ops b jk api) (consult_request b hp' og dest) h =
      Some (Val (Some a), h') \<and> of_nat DATAGRAM_MAXSIZE < dg_size a"
proof -
  obtain a h' where "db_consult_flights b jk api og dest h = Some (Val a, h')"
      "unat (dg_size a) = SIZEOF_DG b + unat (dg_count a) * SIZEOF_ENTRY" "unat (dg_count a) = 26"
    using consult_ready [OF assms(1-3), of og dest b jk] assms(4) by (auto simp: MAX_ROWS_def)
  then show ?thesis
    using assms(5)
    by (auto simp: execute_datagram_def execute_switch_def consult_request_fields sqlite_ops_def
        copy_sender_def layout word_less_nat_alt)
qed

text \<open>
  C28: over shared memory a consultation that matches 26 flights is never answered: the server
  builds an answer that its \<open>ipc_send\<close> refuses and goes on, and then the client waits for the answer
  and the server for the next request.
\<close>

theorem full_catalogue_deadlocks:
  fixes s :: shm_state
  assumes "sqlite_ok api rd" "sqlite_ready api rd" "flights (current (view rd h)) \<noteq> None"
    and "length (matching og dest (current (view rd h))) = 26" "shm_idle session s"
  shows "\<exists>s1 s2 h'.
    run_proc (shm_ipc_send CLIENT flg p session (consult_request SHMEM hp' og dest)) s = (Done 0, s1) \<and>
    run_proc (serve 1 SHMEM hp (sqlite_ops SHMEM jk api)
      (io_of (shm_receive_ptr SERVER q session) (shm_ipc_send SERVER flg q session) disc)) (s1, h) =
      (Done (), (s2, h')) \<and>
    fst (run_proc (shm_receive_ptr CLIENT p session) s2) = Blocked \<and>
    fst (run_proc (serve (Suc n) SHMEM hp (sqlite_ops SHMEM jk api)
      (io_of (shm_receive_ptr SERVER q session) (shm_ipc_send SERVER flg q session) disc)) (s2, h')) = Blocked"
proof -
  have "shm_fits (consult_request SHMEM hp' og dest)"
    using consult_request_fields(4) [of SHMEM hp' og dest] sizes_small [of SHMEM]
    by (simp add: shm_fits_def consult_request_size sizes_same)
  from shm_big.refused_stuck [OF assms(5) this] consult_full [OF assms(1-4), of SHMEM hp jk hp']
  show ?thesis by (fastforce simp: consult_request_fields)
qed

theorem full_catalogue_deadlocks_witness:
  "\<exists>s1 s2 h'.
    run_proc (shm_ipc_send CLIENT 0 11 ex_shm_session (consult_request SHMEM ex_heap (-1) (-1))) ex_shm =
      (Done 0, s1) \<and>
    run_proc (serve 1 SHMEM ex_heap (sqlite_ops SHMEM ex_junk ref_api)
      (io_of (shm_receive_ptr SERVER 12 ex_shm_session) (shm_ipc_send SERVER 0 12 ex_shm_session) Undef))
      (s1, full_state 26) = (Done (), (s2, h')) \<and>
    fst (run_proc (shm_receive_ptr CLIENT 11 ex_shm_session) s2) = Blocked"
proof -
  have "flights (current (view ref_reading (full_state 26))) \<noteq> None"
    by (simp add: full_state_def current_def)
  moreover have "length (matching (-1) (-1) (current (view ref_reading (full_state 26)))) = 26"
    by (simp only: full_matching) simp
  ultimately show ?thesis
    using full_catalogue_deadlocks [OF ref_sqlite_ok ref_sqlite_ready _ _ ex_shm_idle,
        of "full_state 26" "-1" "-1" 0 11 ex_heap ex_heap ex_junk 12 Undef 0] by blast
qed

section \<open>Several clients on the message queues\<close>

lemma msg_send_one:
  assumes "mq_sets s (if r = SERVER then ms_queueid_w session else ms_queueid_r session) = Some q"
    and "msg_fits d" "0 < sint (if r = SERVER then dg_sender d else pid)"
    and "sum_list (map (length \<circ> snd) q) \<le> 4096"
  shows "run_proc (msg_ipc_send r pid session d) s =
    (Done 0, s\<lparr>mq_sets := (mq_sets s)((if r = SERVER then ms_queueid_w session else ms_queueid_r session) :=
       Some (q @ [(scast (if r = SERVER then dg_sender d else pid), dg_bytes MSGQUEUE d)]))\<rparr>)"
  using assms fits_length [OF assms(2)] scast_positive [of "if r = SERVER then dg_sender d else pid"]
  by (cases r) (simp_all add: msg_ipc_send_def pseq_def msgsnd_def MSGMAX_def MSGMNB_def del: length_dg_bytes)

lemma msg_receive_one:
  assumes "mq_sets s (if r = SERVER then ms_queueid_r session else ms_queueid_w session) = Some q"
    and "take_msg (if r = SERVER then 0 else scast pid) q = Some ((t, dg_bytes MSGQUEUE d), q')" "msg_fits d"
  shows "run_proc (msg_ipc_receive r hp pid session) s =
    (Done (Some (if r = SERVER then d\<lparr>dg_sender := ucast t\<rparr> else d)),
     s\<lparr>mq_sets := (mq_sets s)((if r = SERVER then ms_queueid_r session else ms_queueid_w session) := Some q')\<rparr>)"
  using assms(1,2) fits_length [OF assms(3)]
  by (cases r) (simp_all add: dg_block_bytes msg_fits_wf [OF assms(3)] msg_ipc_receive_def msgrcv_def Let_def
      layout del: length_dg_bytes)

text \<open>One round of the server takes the first request and adds its answer.\<close>

lemma msg_round:
  fixes p :: i32
  assumes "mq_sets s (ms_queueid_r session) = Some ((scast p, dg_bytes MSGQUEUE d) # r)"
    and "mq_sets s (ms_queueid_w session) = Some w" "ms_queueid_r session \<noteq> ms_queueid_w session"
    and "msg_fits d" "dg_opcode d \<noteq> opc OP_EXIT" "0 < sint p"
    and "execute_datagram MSGQUEUE hp ops (d\<lparr>dg_sender := p\<rparr>) h = Some (Val (Some a), h')"
    and "msg_fits a" "dg_sender a = p" "sum_list (map (length \<circ> snd) w) \<le> 4096"
  shows "run_proc (serve (Suc n) MSGQUEUE hp ops
      (io_of (msg_ipc_receive SERVER hp srv session) (msg_ipc_send SERVER srv session) disc)) (s, h) =
    run_proc (serve n MSGQUEUE hp ops
      (io_of (msg_ipc_receive SERVER hp srv session) (msg_ipc_send SERVER srv session) disc))
      (s\<lparr>mq_sets := (mq_sets s)(ms_queueid_r session := Some r,
         ms_queueid_w session := Some (w @ [(scast p, dg_bytes MSGQUEUE a)]))\<rparr>, h')"
proof -
  let ?s = "s\<lparr>mq_sets := (mq_sets s)(ms_queueid_r session := Some r)\<rparr>"
  have "run_proc (msg_ipc_receive SERVER hp srv session) s = (Done (Some (d\<lparr>dg_sender := p\<rparr>)), ?s)"
    using msg_receive_one [of s SERVER session "(scast p, dg_bytes MSGQUEUE d) # r" srv "scast p" d r hp] assms(1,4)
    by (simp add: ucast_scast_pid)
  moreover have "run_proc (msg_ipc_send SERVER srv session a) ?s =
      (Done 0, s\<lparr>mq_sets := (mq_sets s)(ms_queueid_r session := Some r,
         ms_queueid_w session := Some (w @ [(scast p, dg_bytes MSGQUEUE a)]))\<rparr>)"
    using msg_send_one [of ?s SERVER session w a srv] assms by simp
  ultimately show ?thesis
    using assms(5,7) by (simp add: run_proc_bind run_on_ipc on_db_def of_cres_def pseq_def)
qed

text \<open>
  C26: the clients of the message queues do not get each other's answers: when two send before the
  server has answered either, each receives the answer to its own request, also when the one that sent
  last asks first, while the other's answer is in front of the queue.
\<close>

theorem msgqueue_routes_answers:
  fixes p q :: i32
  assumes "sqlite_ok api rd" "view_wf (view rd h)" "msg_idle session s" "0 < sint p" "0 < sint q" "p \<noteq> q"
    and "requests_ok MSGQUEUE [d1, d2]" "answers_fit [a1, a2]"
    and "direct MSGQUEUE hp (sqlite_ops MSGQUEUE jk api) [d1\<lparr>dg_sender := p\<rparr>, d2\<lparr>dg_sender := q\<rparr>] h =
      Some ([a1, a2], h')"
  shows "\<exists>s1 s2 s3 s4 s5.
    run_proc (msg_ipc_send CLIENT p session d1) s = (Done 0, s1) \<and>
    run_proc (msg_ipc_send CLIENT q session d2) s1 = (Done 0, s2) \<and>
    run_proc (serve 2 MSGQUEUE hp (sqlite_ops MSGQUEUE jk api)
      (io_of (msg_ipc_receive SERVER hp srv session) (msg_ipc_send SERVER srv session)
         (msg_ipc_disconnect SERVER session))) (s2, h) = (Done (), (s3, h')) \<and>
    run_proc (msg_ipc_receive CLIENT hp q session) s3 = (Done (Some a2), s4) \<and>
    run_proc (msg_ipc_receive CLIENT hp p session) s4 = (Done (Some a1), s5) \<and> msg_idle session s5"
proof -
  let ?qr = "ms_queueid_r session" let ?qw = "ms_queueid_w session"
  let ?m = "\<lambda>pid d. (scast pid :: i64, dg_bytes MSGQUEUE d)"
  let ?io = "io_of (msg_ipc_receive SERVER hp srv session) (msg_ipc_send SERVER srv session)
      (msg_ipc_disconnect SERVER session)"
  let ?at = "\<lambda>r w. s\<lparr>mq_sets := (mq_sets s)(?qr := Some r, ?qw := Some w)\<rparr>"
  have q: "mq_sets s ?qr = Some []" "mq_sets s ?qw = Some []" "?qr \<noteq> ?qw" "?qw \<noteq> ?qr"
    using assms(3) by (auto simp: msg_idle_def)
  have s: "?at [] [] = s" using q by (simp add: fun_upd_idem)
  have d: "msg_fits d1" "msg_fits d2" "dg_opcode d1 \<noteq> opc OP_EXIT" "dg_opcode d2 \<noteq> opc OP_EXIT"
    using assms(7) by (simp_all add: requests_ok_def msg_fits_def)
  have "\<forall>d \<in> set [d1\<lparr>dg_sender := p\<rparr>, d2\<lparr>dg_sender := q\<rparr>]. length (dg_raw d) \<le> DATAGRAM_MAXSIZE"
    using assms(7) dg_wf_raw by (auto simp: requests_ok_def)
  from direct_answers [OF assms(1,2) this assms(9)] assms(8)
  have a: "msg_fits a1" "msg_fits a2" "dg_sender a1 = p" "dg_sender a2 = q"
    by (simp_all add: answers_fit_def msg_fits_def)
  obtain h1 where ex: "execute_datagram MSGQUEUE hp (sqlite_ops MSGQUEUE jk api) (d1\<lparr>dg_sender := p\<rparr>) h =
        Some (Val (Some a1), h1)"
      "execute_datagram MSGQUEUE hp (sqlite_ops MSGQUEUE jk api) (d2\<lparr>dg_sender := q\<rparr>) h1 =
        Some (Val (Some a2), h')"
    using assms(9) unfolding direct_Cons by auto
  have ne: "(scast p :: i64) \<noteq> scast q" using assms(6) by (metis ucast_scast_pid)
  have "(scast q :: i64) \<noteq> 0" using scast_positive [OF assms(5)] by auto
  with ne have tq: "take_msg (scast q) [?m p a1, ?m q a2] = Some (?m q a2, [?m p a1])" by simp
  have tp: "take_msg (scast p) [?m p a1] = Some (?m p a1, [])" by simp
  have len: "length (dg_bytes MSGQUEUE d1) \<le> 4096" "length (dg_bytes MSGQUEUE a1) \<le> 4096"
    using fits_length [OF d(1)] fits_length [OF a(1)] by simp_all
  have 1: "run_proc (msg_ipc_send CLIENT p session d1) (?at [] []) = (Done 0, ?at [?m p d1] [])"
    using msg_send_one [of "?at [] []" CLIENT session "[]" d1 p] d q assms(4) by (simp add: fun_upd_twist)
  have 2: "run_proc (msg_ipc_send CLIENT q session d2) (?at [?m p d1] []) = (Done 0, ?at [?m p d1, ?m q d2] [])"
    using msg_send_one [of "?at [?m p d1] []" CLIENT session "[?m p d1]" d2 q] d q len assms(5)
    by (simp add: fun_upd_twist)
  have 3: "run_proc (serve 2 MSGQUEUE hp (sqlite_ops MSGQUEUE jk api) ?io) (?at [?m p d1, ?m q d2] [], h) =
      (Done (), (?at [] [?m p a1, ?m q a2], h'))"
    unfolding numeral_2_eq_2
    using msg_round [OF _ _ q(3) d(1,3) assms(4) ex(1) a(1,3), of "?at [?m p d1, ?m q d2] []" "[?m q d2]" "[]" "Suc 0" srv]
      msg_round [OF _ _ q(3) d(2,4) assms(5) ex(2) a(2,4), of "?at [?m q d2] [?m p a1]" "[]" "[?m p a1]" 0 srv] q len
    by (simp add: fun_upd_twist del: serve.simps(2)) 
  have 4: "run_proc (msg_ipc_receive CLIENT hp q session) (?at [] [?m p a1, ?m q a2]) =
      (Done (Some a2), ?at [] [?m p a1])"
    using msg_receive_one [of "?at [] [?m p a1, ?m q a2]" CLIENT session "[?m p a1, ?m q a2]" q "scast q" a2 "[?m p a1]" hp] a(2) q tq
    by (simp add: fun_upd_twist)
  have 5: "run_proc (msg_ipc_receive CLIENT hp p session) (?at [] [?m p a1]) = (Done (Some a1), ?at [] [])"
    using msg_receive_one [of "?at [] [?m p a1]" CLIENT session "[?m p a1]" p "scast p" a1 "[]" hp] a(1) q tp
    by (simp add: fun_upd_twist)
  show ?thesis using 1 2 3 4 5 assms(3) unfolding s by blast
qed

theorem msgqueue_routes_answers_witness:
  "\<exists>s1 s2 s3 s4 s5 a1 a2 h'.
    run_proc (msg_ipc_send CLIENT 77 ex_mq_session (ex_purchase MSGQUEUE)) ex_mq = (Done 0, s1) \<and>
    run_proc (msg_ipc_send CLIENT 78 ex_mq_session (ex_cancel MSGQUEUE)) s1 = (Done 0, s2) \<and>
    run_proc (serve 2 MSGQUEUE ex_heap (sqlite_ops MSGQUEUE ex_junk ref_api)
      (io_of (msg_ipc_receive SERVER ex_heap 1 ex_mq_session) (msg_ipc_send SERVER 1 ex_mq_session)
         (msg_ipc_disconnect SERVER ex_mq_session))) (s2, ex_state) = (Done (), (s3, h')) \<and>
    run_proc (msg_ipc_receive CLIENT ex_heap 78 ex_mq_session) s3 = (Done (Some a2), s4) \<and>
    run_proc (msg_ipc_receive CLIENT ex_heap 77 ex_mq_session) s4 = (Done (Some a1), s5) \<and>
    dg_seat a1 = 2 \<and> dg_result a2 = c_bool True"
proof -
  obtain a1 a2 h' where d: "direct MSGQUEUE ex_heap (sqlite_ops MSGQUEUE ex_junk ref_api)
      [(ex_purchase MSGQUEUE)\<lparr>dg_sender := 77\<rparr>, (ex_cancel MSGQUEUE)\<lparr>dg_sender := 78\<rparr>] ex_state =
        Some ([a1, a2], h')"
      "dg_size a1 = of_nat (SIZEOF_DG MSGQUEUE)" "dg_size a2 = of_nat (SIZEOF_DG MSGQUEUE)"
      "dg_seat a1 = 2" "dg_result a2 = c_bool True"
    using ex_direct_from [of MSGQUEUE 77 78] by (auto simp del: direct.simps)
  have fit: "answers_fit [a1, a2]" using d(2,3) sizes_small [of MSGQUEUE] by (simp add: answers_fit_def)
  have wf: "view_wf (view ref_reading ex_state)" using ex_state_wf by simp
  have "0 < sint (77 :: i32)" "0 < sint (78 :: i32)" "(77 :: i32) \<noteq> 78" by simp_all
  from msgqueue_routes_answers [OF ref_sqlite_ok wf ex_mq_idle this ex_requests_ok fit d(1), of 1] d(4,5)
  show ?thesis by blast
qed

end
