(* ===== verification/Pieces.thy ===== *)
theory Pieces
  imports Limits
begin

text \<open>
  More of the limits of the transports: the end of the message-queue server, TCP messages that
  arrive in pieces, and old bytes and lost signals of the file transport.
\<close>

section \<open>The end of the message-queue server\<close>

lemma msg_exit_seen: "dg_wf MSGQUEUE d \<Longrightarrow> dg_wf MSGQUEUE (d\<lparr>dg_sender := p\<rparr>)"
  by (simp add: dg_wf_def)

text \<open>
  C38: one client's exit ends the message-queue server for all: its process ends with status 0, both
  queues are gone, and another client that waits for an answer goes on with an uninitialised buffer.
\<close>

theorem one_exit_stops_all:
  assumes "msg_idle session s" "0 < sint p"
  shows "\<exists>s1 s2.
    run_proc (msg_ipc_send CLIENT p session (new_dg MSGQUEUE hp (SIZEOF_DG MSGQUEUE) OP_EXIT)) s = (Done 0, s1) \<and>
    run_proc (serve (Suc n) MSGQUEUE hp' ops
      (io_of (msg_ipc_receive SERVER hp' srv session) (msg_ipc_send SERVER srv session)
         (msg_ipc_disconnect SERVER session))) (s1, h) = (Halted 0, (s2, h)) \<and>
    mq_sets s2 (ms_queueid_r session) = None \<and> mq_sets s2 (ms_queueid_w session) = None \<and>
    fst (run_proc (msg_ipc_receive CLIENT hp'' q session) s2) = Undefined"
proof -
  let ?d = "new_dg MSGQUEUE hp (SIZEOF_DG MSGQUEUE) OP_EXIT"
  have "msg_fits ?d"
    using dg_wf_new [of MSGQUEUE "SIZEOF_DG MSGQUEUE" hp OP_EXIT] sizes_small [of MSGQUEUE]
    by (simp add: msg_fits_def layout)
  then obtain s1 s2 where r: "run_proc (msg_ipc_send CLIENT p session ?d) s = (Done 0, s1)"
    and x: "\<forall>s3. run_proc (msg_ipc_disconnect SERVER session) s2 = (Done (), s3) \<longrightarrow>
       run_proc (serve (Suc n) MSGQUEUE hp' ops
         (io_of (msg_ipc_receive SERVER hp' srv session) (msg_ipc_send SERVER srv session)
            (msg_ipc_disconnect SERVER session))) (s1, h) = (Halted 0, (s3, h))"
    using mq_turns.exit_served [of session s p ?d] assms by fastforce
  let ?s3 = "msgctl_RMID (ms_queueid_w session) (msgctl_RMID (ms_queueid_r session) s2)"
  have "run_proc (msg_ipc_disconnect SERVER session) s2 = (Done (), ?s3)"
    by (simp add: msg_ipc_disconnect_def pseq_def upd_def sys_def)
  with r x have "run_proc (serve (Suc n) MSGQUEUE hp' ops
      (io_of (msg_ipc_receive SERVER hp' srv session) (msg_ipc_send SERVER srv session)
         (msg_ipc_disconnect SERVER session))) (s1, h) = (Halted 0, (?s3, h))"
    by blast
  moreover have gone: "mq_sets ?s3 (ms_queueid_r session) = None" "mq_sets ?s3 (ms_queueid_w session) = None"
    by (simp_all add: msgctl_RMID_def)
  moreover have "fst (run_proc (msg_ipc_receive CLIENT hp'' q session) ?s3) = Undefined"
    using gone(2) by (simp add: msg_ipc_receive_def msgrcv_def)
  ultimately show ?thesis using r by blast
qed

theorem one_exit_stops_all_witness:
  "\<exists>s1 s2.
    run_proc (msg_ipc_send CLIENT 77 ex_mq_session (new_dg MSGQUEUE ex_heap (SIZEOF_DG MSGQUEUE) OP_EXIT)) ex_mq =
      (Done 0, s1) \<and>
    run_proc (serve 1 MSGQUEUE ex_heap (sqlite_ops MSGQUEUE ex_junk ref_api)
      (io_of (msg_ipc_receive SERVER ex_heap 1 ex_mq_session) (msg_ipc_send SERVER 1 ex_mq_session)
         (msg_ipc_disconnect SERVER ex_mq_session))) (s1, ex_state) = (Halted 0, (s2, ex_state)) \<and>
    mq_sets s2 0 = None \<and> fst (run_proc (msg_ipc_receive CLIENT ex_heap 78 ex_mq_session) s2) = Undefined"
proof -
  have "0 < sint (77 :: i32)" by simp
  from one_exit_stops_all [OF ex_mq_idle this, of ex_heap 0 ex_heap "sqlite_ops MSGQUEUE ex_junk ref_api" 1 ex_state
      ex_heap 78]
  show ?thesis by (fastforce simp: ex_mq_session_def)
qed

section \<open>TCP in pieces\<close>

lemma network_stream:
  "network r fd ks s =
   set_conn fd (set_up r ((up_of r (conns s fd))
     \<lparr>st_arrived := st_arrived (up_of r (conns s fd)) @ take (sum_list ks) (st_flying (up_of r (conns s fd))),
      st_flying := drop (sum_list ks) (st_flying (up_of r (conns s fd)))\<rparr>) (conns s fd)) s"
proof (induction ks arbitrary: s)
  case Nil
  have "t\<lparr>st_arrived := st_arrived t, st_flying := st_flying t\<rparr> = t" for t :: stream by simp
  then show ?case by (simp add: network_def)
next
  case (Cons k ks)
  have "network r fd (k # ks) s = network r fd ks (deliver r fd k s)" by (simp add: network_def)
  also have "\<dots> = set_conn fd (set_up r ((up_of r (conns s fd))
     \<lparr>st_arrived := st_arrived (up_of r (conns s fd)) @ take (sum_list (k # ks)) (st_flying (up_of r (conns s fd))),
      st_flying := drop (sum_list (k # ks)) (st_flying (up_of r (conns s fd)))\<rparr>) (conns s fd)) s"
    unfolding Cons.IH by (simp add: deliver_def Let_def take_add add.commute)
  finally show ?case .
qed

lemma sock_send_one:
  assumes "sock_idle session s" "sock_fits d"
  shows "run_proc (sock_ipc_send r session d) s =
    (Done 0, set_conn (nat (so_otherfd session)) (set_up r (new_stream\<lparr>st_flying := dg_bytes SOCKET d\<rparr>)
       (conns s (nat (so_otherfd session)))) s)"
  using sock_fits_length [OF assms(2)] assms(1)
  by (simp add: sock_ipc_send_def pseq_def sock_write_def sock_idle_def Let_def del: length_dg_bytes)

text \<open>
  C36: however the network cuts a message, it is received as it was sent when all its bytes arrive
  before the receiver reads.
\<close>

theorem socket_pieces:
  assumes "sock_idle session s" "sock_fits d" "length (dg_bytes SOCKET d) \<le> sum_list ks"
  shows "\<exists>s1. run_proc (sock_ipc_send r session d) s = (Done 0, s1) \<and>
    run_proc (sock_ipc_receive (other_role r) session) (network r (nat (so_otherfd session)) ks s1) =
      (Done (Some d), s)"
proof -
  let ?i = "nat (so_otherfd session)" let ?c = "conns s ?i"
  have i: "0 < so_otherfd session" "up_of r ?c = new_stream" "\<not> c_reset ?c"
    using assms(1) by (simp_all add: sock_idle_def)
  note len = sock_fits_length [OF assms(2)]
  have wf: "dg_wf SOCKET d" using assms(2) by (simp add: sock_fits_def)
  have e: "new_stream\<lparr>st_arrived := []\<rparr> = new_stream" by (simp add: new_stream_def)
  have same: "set_conn ?i (set_up r new_stream ?c) s = s" unfolding i(2) [symmetric] by simp
  let ?s1 = "set_conn ?i (set_up r (new_stream\<lparr>st_flying := dg_bytes SOCKET d\<rparr>) ?c) s"
  have "network r ?i ks ?s1 = set_conn ?i (set_up r (new_stream\<lparr>st_arrived := dg_bytes SOCKET d\<rparr>) ?c) s"
    unfolding network_stream using assms(3) by (simp add: new_stream_def)
  then have "run_proc (sock_ipc_receive (other_role r) session) (network r ?i ks ?s1) = (Done (Some d), s)"
    using len i(1,3)
    by (simp add: sock_ipc_receive_def sock_recv_def Let_def layout kept_block_bytes [OF wf] e same
        del: length_dg_bytes)
  then show ?thesis unfolding sock_send_one [OF assms(1,2)] by blast
qed

theorem socket_pieces_witness:
  "\<exists>s1. run_proc (sock_ipc_send CLIENT ex_sock_session (ex_purchase SOCKET)) ex_sock = (Done 0, s1) \<and>
    run_proc (sock_ipc_receive SERVER ex_sock_session) (network CLIENT 1 [10, 0, 150, 8] s1) =
      (Done (Some (ex_purchase SOCKET)), ex_sock)"
proof -
  have "sock_fits (ex_purchase SOCKET)"
    using ex_requests [of "ex_purchase SOCKET" SOCKET] sizes_small [of SOCKET] by (simp add: sock_fits_def)
  moreover have "length (dg_bytes SOCKET (ex_purchase SOCKET)) \<le> sum_list [10, 0, 150, 8]"
    by (simp add: ex_purchase_def layout)
  ultimately show ?thesis
    using socket_pieces [OF ex_sock_idle, of "ex_purchase SOCKET" "[10, 0, 150, 8]" CLIENT]
    by (simp add: ex_sock_session_def)
qed

lemma kept_prefix:
  assumes "HDR SOCKET \<le> k" "k < length (dg_bytes SOCKET d)" "dg_sender d = 0"
  shows "kept_block SOCKET (take k (dg_bytes SOCKET d)) =
    Ret (Some (d\<lparr>dg_size := of_nat k, dg_raw := take (k - HDR SOCKET) (dg_raw d)\<rparr>))"
proof -
  let ?d = "d\<lparr>dg_size := of_nat k, dg_raw := take (k - HDR SOCKET) (dg_raw d)\<rparr>"
  have "le8 (of_nat k) @ drop 8 (take k (dg_bytes SOCKET d)) = dg_bytes SOCKET ?d"
    using assms(1) by (simp add: dg_bytes_def layout drop_take numeral_eq_Suc)
  moreover have "length (dg_bytes SOCKET ?d) = k" using assms(1,2) by simp
  moreover have "dg_of_bytes SOCKET (dg_bytes SOCKET ?d) = Some ?d" using assms(3) by (intro dg_of_bytes_bytes) simp
  ultimately show ?thesis
    using assms(1,2) by (simp add: kept_block_def Let_def dg_block_def layout min_def)
qed

text \<open>
  C37: when only the first bytes of a message have arrived, the receiver takes them for all of it: it
  returns a datagram of that size with the sender's opcode, and the rest of the message is still on its
  way in the stream.
\<close>

theorem socket_short_read:
  assumes "sock_idle session s" "sock_fits d" "HDR SOCKET \<le> k" "k < length (dg_bytes SOCKET d)"
  shows "\<exists>s1 s2. run_proc (sock_ipc_send r session d) s = (Done 0, s1) \<and>
    run_proc (sock_ipc_receive (other_role r) session) (network r (nat (so_otherfd session)) [k] s1) =
      (Done (Some (d\<lparr>dg_size := of_nat k, dg_raw := take (k - HDR SOCKET) (dg_raw d)\<rparr>)), s2) \<and>
    st_flying (up_of r (conns s2 (nat (so_otherfd session)))) = drop k (dg_bytes SOCKET d)"
proof -
  let ?i = "nat (so_otherfd session)" let ?c = "conns s ?i"
  have i: "0 < so_otherfd session" "up_of r ?c = new_stream" "\<not> c_reset ?c"
    using assms(1) by (simp_all add: sock_idle_def)
  note len = sock_fits_length [OF assms(2)]
  have ne: "take k (dg_bytes SOCKET d) \<noteq> []" using assms(3) len by (simp add: layout)
  have "dg_sender d = 0" using assms(2) by (simp add: sock_fits_def dg_wf_def)
  note kept = kept_prefix [OF assms(3,4) this]
  have whole: "take DATAGRAM_MAXSIZE (take k (dg_bytes SOCKET d)) = take k (dg_bytes SOCKET d)"
    using len assms(4) by (simp add: layout del: length_dg_bytes)
  show ?thesis
    unfolding sock_send_one [OF assms(1,2)]
    using len i(1,3) ne
    by (simp add: network_stream sock_ipc_receive_def sock_recv_def Let_def kept whole del: length_dg_bytes take_take)
qed

theorem socket_short_read_witness:
  "\<exists>s1 s2 a. run_proc (sock_ipc_send SERVER ex_sock_session (ex_purchase SOCKET)) ex_sock = (Done 0, s1) \<and>
    run_proc (sock_ipc_receive CLIENT ex_sock_session) (network SERVER 1 [100] s1) = (Done (Some a), s2) \<and>
    dg_size a = 100 \<and> length (dg_raw a) = 84 \<and>
    length (st_flying (up_of SERVER (conns s2 1))) = 68"
proof -
  have "sock_fits (ex_purchase SOCKET)"
    using ex_requests [of "ex_purchase SOCKET" SOCKET] sizes_small [of SOCKET] by (simp add: sock_fits_def)
  moreover have "HDR SOCKET \<le> 100" "100 < length (dg_bytes SOCKET (ex_purchase SOCKET))"
    by (simp_all add: ex_purchase_def layout)
  ultimately show ?thesis
    using socket_short_read [OF ex_sock_idle, of "ex_purchase SOCKET" 100 SERVER]
    by (fastforce simp: ex_sock_session_def ex_purchase_def layout)
qed

section \<open>Old bytes and lost signals of the file transport\<close>

text \<open>
  C34: over files a receiver that waits for the signal gets the datagram's members as they were sent,
  but the block is as long as the file: when an earlier datagram was longer, its last bytes are
  still there and count in the \<open>size\<close> member; only when the file was no longer than the datagram is
  it received exactly.
\<close>

theorem files_stale_tail:
  fixes s :: files_state
  assumes "files_linked snd_s rcv_s i s" "files_fits d" "waiting s (fi_otherpid snd_s)"
  shows "\<exists>s1 s2 a. run_proc (files_ipc_send snd_s d) s = (Done 0, s1) \<and>
    run_proc (woken_receive (fi_otherpid snd_s) rcv_s) s1 = (Done (Some a), s2) \<and>
    dg_opcode a = dg_opcode d \<and> dg_data a = dg_data d \<and>
    take (length (dg_raw d)) (dg_raw a) = dg_raw d \<and>
    unat (dg_size a) = max (unat (dg_size d)) (min DATAGRAM_MAXSIZE (length (file_bytes s i))) \<and>
    (length (file_bytes s i) \<le> unat (dg_size d) \<longrightarrow> a = d) \<and>
    files_linked snd_s rcv_s i s2"
proof -
  let ?b = "file_bytes s i" let ?n = "unat (dg_size d)"
  let ?t = "take (DATAGRAM_MAXSIZE - ?n) (drop ?n ?b)"
  have n: "?n \<le> 4096" using files_fits_length [OF assms(2)] by simp
  have small: "?n + length ?t \<le> 4096" using n by (simp add: layout)
  have "n + min (l - n) (4096 - n) = max n (min 4096 l)" if "n \<le> 4096" for n l :: nat
    using that by arith
  then have t: "?n + length ?t = max ?n (min DATAGRAM_MAXSIZE (length ?b))" using n by (simp add: layout)
  have "unat (dg_size (files_seen ?b d)) = unat (of_nat (?n + length ?t) :: 64 word)"
    by (rule arg_cong [of _ _ unat]) (simp add: files_seen_def Let_def)
  also have "\<dots> = ?n + length ?t" by (rule unat_of_nat_small) (use small in simp)
  finally have "unat (dg_size (files_seen ?b d)) = max ?n (min DATAGRAM_MAXSIZE (length ?b))"
    unfolding t .
  moreover have "files_seen ?b d = d" if "length ?b \<le> ?n"
    using that by (simp add: files_seen_def)
  ultimately show ?thesis
    using files_delivery [OF assms] by (fastforce simp: files_seen_def Let_def)
qed

definition ex_files :: "bytes \<Rightarrow> (int \<Rightarrow> bool) \<Rightarrow> files_state" where
  "ex_files old waits = \<lparr>sem_ids = (\<lambda>_. None), sem_sets = (\<lambda>_. None), sem_adj = (\<lambda>_ _ _. 0), sem_next = 0,
     sem_room = True, file_names = [''f'' \<mapsto> 0], file_bytes = (\<lambda>_. old), file_next = 1, file_room = True,
     descs = [0 \<mapsto> (0, 0), 1 \<mapsto> (0, 0)], desc_refs = (\<lambda>_. 1), desc_next = 2, waiting = waits,
     woken = (\<lambda>_. False)\<rparr>"

definition ex_files_session :: "int \<Rightarrow> files_session" where
  "ex_files_session fd = \<lparr>fi_path = ''f'', fi_serverfd = fd, fi_otherpid = 9, fi_queueid = 4\<rparr>"

lemma ex_files_linked: "files_linked (ex_files_session 0) (ex_files_session 1) 0 (ex_files old w)"
  by (simp add: files_linked_def ex_files_def ex_files_session_def desc_of_def)

lemma ex_files_fits: "files_fits (ex_purchase FILES)"
  using ex_requests [of "ex_purchase FILES" FILES] sizes_small [of FILES] by (simp add: files_fits_def)

theorem files_stale_tail_witness:
  "\<exists>s1 s2 a. run_proc (files_ipc_send (ex_files_session 0) (ex_purchase FILES))
       (ex_files (replicate 1000 CHR ''x'') (\<lambda>_. True)) = (Done 0, s1) \<and>
    run_proc (woken_receive 9 (ex_files_session 1)) s1 = (Done (Some a), s2) \<and>
    dg_data a = 2 \<and> unat (dg_size a) = 1000"
proof -
  have d: "unat (dg_size (ex_purchase FILES)) = 168" "dg_data (ex_purchase FILES) = 2"
    by (simp_all add: ex_purchase_def layout)
  have "waiting (ex_files (replicate 1000 CHR ''x'') (\<lambda>_. True)) (fi_otherpid (ex_files_session 0))"
    "fi_otherpid (ex_files_session 0) = 9" "file_bytes (ex_files (replicate 1000 CHR ''x'') (\<lambda>_. True)) 0 = replicate 1000 CHR ''x''"
    by (simp_all add: ex_files_def ex_files_session_def)
  with files_stale_tail [OF ex_files_linked ex_files_fits this(1)] d show ?thesis
    by (fastforce simp: layout)
qed

text \<open>
  C35: a datagram sent over files before the receiver waits for it is lost: the send succeeds, the
  signal is spent, and the receiver then waits for ever.
\<close>

theorem files_early_signal_lost:
  fixes s :: files_state
  assumes "files_linked snd_s rcv_s i s" "files_fits d" "\<not> waiting s (fi_otherpid snd_s)"
  shows "\<exists>s1. run_proc (files_ipc_send snd_s d) s = (Done 0, s1) \<and>
    file_bytes s1 i = dg_bytes FILES d @ drop (unat (dg_size d)) (file_bytes s i) \<and>
    fst (run_proc (files_ipc_receive (fi_otherpid snd_s) rcv_s) s1) = Blocked"
proof -
  obtain s1 where s1: "run_proc (files_ipc_send snd_s d) s = (Done 0, s1)"
      "fst (run_proc (files_ipc_receive (fi_otherpid snd_s) rcv_s) s1) = Blocked"
    using files_signal_lost [OF assms] by blast
  have small: "\<not> of_nat DATAGRAM_MAXSIZE < dg_size d" using assms(2) by (simp add: files_fits_def not_less)
  have "file_bytes s1 i = dg_bytes FILES d @ drop (unat (dg_size d)) (file_bytes s i)"
    using s1(1) small files_fits_length [OF assms(2)] assms(1)
    by (auto simp: files_ipc_send_def pseq_def upd_def rewind_def desc_of_def file_write_def overwrite_def
        kill_usr1_def sigusr_handler_def files_linked_def simp del: length_dg_bytes split: if_splits)
  with s1 show ?thesis by blast
qed

theorem files_early_signal_lost_witness:
  "\<exists>s1. run_proc (files_ipc_send (ex_files_session 0) (ex_purchase FILES)) (ex_files [] (\<lambda>_. False)) =
      (Done 0, s1) \<and>
    fst (run_proc (files_ipc_receive 9 (ex_files_session 1)) s1) = Blocked"
proof -
  have "\<not> waiting (ex_files [] (\<lambda>_. False)) (fi_otherpid (ex_files_session 0))"
    "fi_otherpid (ex_files_session 0) = 9" by (simp_all add: ex_files_def ex_files_session_def)
  with files_early_signal_lost [OF ex_files_linked ex_files_fits this(1)] show ?thesis by auto
qed

end
