(* ===== verification/Sharing.thy ===== *)
theory Sharing
  imports Localclient Transports
begin

text \<open>
  Properties of the two devices that keep processes apart: the queue semaphore the clients of a
  transport take while they connect, and the file mutex of the local clients.
\<close>

section \<open>The queue semaphore\<close>

text \<open>
  What \<open>ipc_connect\<close> does with the queue semaphore, whatever happens between; and the life of one
  client after another, each of which connects and ends.
\<close>

definition queue_visit :: "16 word \<Rightarrow> nat \<Rightarrow> int \<Rightarrow> ('z sem_state_scheme, unit) proc" where
  "queue_visit flg pid queueid = pseq (sem_down pid queueid SEM_QUEUE) (sem_up flg pid queueid SEM_QUEUE)"

primrec clients_gone :: "16 word \<Rightarrow> int \<Rightarrow> nat list \<Rightarrow> 'z sem_state_scheme \<Rightarrow> 'z sem_state_scheme" where
  "clients_gone flg queueid [] s = s"
| "clients_gone flg queueid (pid # pids) s =
     clients_gone flg queueid pids (sem_exit pid (snd (run_proc (queue_visit flg pid queueid) s)))"

text \<open>A semaphore with the value \<open>v\<close> and nothing to undo.\<close>

definition queue_at :: "int \<Rightarrow> nat \<Rightarrow> 'z sem_state_scheme \<Rightarrow> bool" where
  "queue_at q v s \<longleftrightarrow> sem_val s q SEM_QUEUE = Some v \<and> (\<forall>p. sem_adj s p q SEM_QUEUE = 0)"

lemma visit_and_exit:
  assumes "queue_at q v s" "0 < v" "v < 32767"
  shows "run_proc (queue_visit flg p q) s =
      (Done (), adjust (bit flg 12) p q SEM_QUEUE 1 (adjust True p q SEM_QUEUE (-1) s))"
    and "queue_at q (if bit flg 12 then v else v + 1) (sem_exit p (snd (run_proc (queue_visit flg p q) s)))"
proof -
  let ?s1 = "adjust True p q SEM_QUEUE (-1) s" let ?s2 = "adjust (bit flg 12) p q SEM_QUEUE 1 ?s1"
  have v: "sem_val s q SEM_QUEUE = Some v" and z: "\<And>p. sem_adj s p q SEM_QUEUE = 0"
    using assms(1) by (simp_all add: queue_at_def)
  have v1: "sem_val ?s1 q SEM_QUEUE = Some (v - 1)"
    using sem_val_adjust [OF v] assms(2) by (simp add: nat_diff_distrib)
  have v2: "sem_val ?s2 q SEM_QUEUE = Some v" using sem_val_adjust [OF v1] assms(2) by simp
  show r: "run_proc (queue_visit flg p q) s = (Done (), ?s2)"
    using run_sem_down [OF v, of p] run_sem_up [OF v1, of flg p] assms(2,3)
    by (simp add: queue_visit_def pseq_def run_proc_bind)
  have adj: "sem_adj ?s2 p' q SEM_QUEUE = (if p' = p \<and> \<not> bit flg 12 then 1 else 0)" for p'
    using z by (simp add: sem_adj_adjust)
  have "sem_val (sem_exit p ?s2) q SEM_QUEUE = Some (if bit flg 12 then v else v + 1)"
    unfolding sem_val_exit v2 using adj [of p] by (simp add: nat_add_distrib)
  moreover have "sem_adj (sem_exit p ?s2) p' q SEM_QUEUE = 0" for p'
    using adj [of p'] by (simp add: sem_exit_def)
  ultimately show "queue_at q (if bit flg 12 then v else v + 1) (sem_exit p (snd (run_proc (queue_visit flg p q) s)))"
    unfolding r by (simp add: queue_at_def)
qed

lemma clients_gone_at:
  "queue_at q v s \<Longrightarrow> 0 < v \<Longrightarrow> v + length ps < 32767 \<Longrightarrow>
   queue_at q (if bit flg 12 then v else v + length ps) (clients_gone flg q ps s)"
proof (induction ps arbitrary: v s)
  case (Cons p ps)
  let ?w = "if bit flg 12 then v else v + 1"
  have "queue_at q ?w (sem_exit p (snd (run_proc (queue_visit flg p q) s)))"
    using visit_and_exit(2) [OF Cons.prems(1,2)] Cons.prems(3) by simp
  from Cons.IH [OF this] Cons.prems(2,3) show ?case by (auto split: if_splits)
qed simp

text \<open>
  C30: the queue semaphore starts at 1.  When the flags \<open>sem_up\<close> leaves uninitialised happen to hold
  \<open>SEM_UNDO\<close>, it is 1 again after any number of clients; when they do not, every client that ends
  adds one to it, so after the first one two clients pass it at the same time.
\<close>

theorem queue_semaphore_grows:
  fixes s :: sem_state
  assumes "queue_at q 1 s" "length ps < 32766"
  shows "queue_at q (if bit flg 12 then 1 else 1 + length ps) (clients_gone flg q ps s) \<and>
    (ps \<noteq> [] \<and> \<not> bit flg 12 \<longrightarrow>
      fst (run_proc (pseq (sem_down a q SEM_QUEUE) (sem_down b q SEM_QUEUE)) (clients_gone flg q ps s)) = Done ())"
proof -
  have at: "queue_at q (if bit flg 12 then 1 else 1 + length ps) (clients_gone flg q ps s)"
    using clients_gone_at [OF assms(1)] assms(2) by simp
  moreover have "fst (run_proc (pseq (sem_down a q SEM_QUEUE) (sem_down b q SEM_QUEUE)) (clients_gone flg q ps s)) = Done ()"
    if "ps \<noteq> [] \<and> \<not> bit flg 12"
  proof -
    let ?s = "clients_gone flg q ps s"
    have v: "sem_val ?s q SEM_QUEUE = Some (1 + length ps)" "0 < length ps"
      using at that by (simp_all add: queue_at_def)
    then have "sem_val (adjust True a q SEM_QUEUE (-1) ?s) q SEM_QUEUE = Some (length ps)"
      using sem_val_adjust [OF v(1)] by (simp add: nat_diff_distrib nat_add_distrib)
    with v show ?thesis
      using run_sem_down [of ?s q SEM_QUEUE "1 + length ps" a] assms(2)
        run_sem_down [of "adjust True a q SEM_QUEUE (-1) ?s" q SEM_QUEUE "length ps" b]
      by (simp add: pseq_def run_proc_bind)
  qed
  ultimately show ?thesis by blast
qed

definition ex_queue :: sem_state where
  "ex_queue = \<lparr>sem_ids = (\<lambda>_. None), sem_sets = [4 \<mapsto> [1, 0]], sem_adj = (\<lambda>_ _ _. 0), sem_next = 5,
     sem_room = True\<rparr>"

theorem queue_semaphore_grows_witness:
  "queue_at 4 4 (clients_gone 0 4 [21, 22, 23] ex_queue) \<and> queue_at 4 1 (clients_gone 0x1000 4 [21, 22, 23] ex_queue) \<and>
   fst (run_proc (pseq (sem_down 31 4 SEM_QUEUE) (sem_down 32 4 SEM_QUEUE)) (clients_gone 0 4 [21, 22, 23] ex_queue)) =
     Done ()"
proof -
  have "queue_at 4 1 ex_queue" by (simp add: queue_at_def ex_queue_def sem_val_def sem_numbers)
  moreover have "length [21, 22, 23 :: nat] < 32766" "1 + length [21, 22, 23 :: nat] = 4" "[21, 22, 23 :: nat] \<noteq> []"
    "bit (0x1000 :: 16 word) 12" "\<not> bit (0 :: 16 word) 12" by simp_all
  ultimately show ?thesis
    using queue_semaphore_grows [of 4 ex_queue "[21, 22, 23]" 0 31 32]
      queue_semaphore_grows [of 4 ex_queue "[21, 22, 23]" "0x1000" 31 32]
    by presburger
qed

section \<open>The file mutex\<close>

text \<open>
  C14: whatever the local clients do, and however their calls interleave, no two of them are inside
  the mutex at the same time, when all of them may open its file.
\<close>

theorem mutex_excludes:
  assumes "(mutex_step mutex)\<^sup>*\<^sup>* (mutex_start denied) (s, at)"
    and "\<And>p. \<not> denied p (fm_path mutex)" "at p = Inside m" "at q = Inside n"
  shows "p = q"
  using mutex_inv_reach [OF assms(1) mutex_inv_start] assms(2) mutex_inv_one [of mutex s at p m q n] assms(3,4)
  by blast

definition ex_mutex :: fmutex where
  "ex_mutex = \<lparr>fm_path = LOCALCLIENT_MUTEX_PATH, fm_fd = -2\<rparr>"

lemma enter_runs:
  "\<not> lock_denied s p (fm_path mutex) \<Longrightarrow> lock_open p (fm_path mutex) s = (fd, s1) \<Longrightarrow>
   lock_wait p fd s1 = Some (rc, s2) \<Longrightarrow> at p = Outside \<Longrightarrow>
   (mutex_step mutex)\<^sup>*\<^sup>* (s, at) (s2, at(p := Inside (mutex\<lparr>fm_fd := fd\<rparr>)))"
proof -
  assume a: "lock_open p (fm_path mutex) s = (fd, s1)" "lock_wait p fd s1 = Some (rc, s2)" "at p = Outside"
  let ?q = "pbind (sys (lock_wait p fd)) (\<lambda>code. Ret (mutex\<lparr>fm_fd := fd\<rparr>))"
  have "mutex_step mutex (s, at) (s, at(p := Entering (fmutex_enter p mutex)))"
    using a(3) by (rule calls_enter)
  moreover have "mutex_step mutex (s, at(p := Entering (fmutex_enter p mutex))) (s1, at(p := Entering ?q))"
    using in_enter [of "at(p := Entering (fmutex_enter p mutex))" p] a(1) by (simp add: fmutex_enter_def)
  moreover have "mutex_step mutex (s1, at(p := Entering ?q)) (s2, at(p := Entering (Ret (mutex\<lparr>fm_fd := fd\<rparr>))))"
    using in_enter [of "at(p := Entering ?q)" p] a(2) by simp
  moreover have "mutex_step mutex (s2, at(p := Entering (Ret (mutex\<lparr>fm_fd := fd\<rparr>))))
      (s2, at(p := Inside (mutex\<lparr>fm_fd := fd\<rparr>)))"
    using entered [of "at(p := Entering (Ret (mutex\<lparr>fm_fd := fd\<rparr>)))" p] by simp
  ultimately show ?thesis by (meson converse_rtranclp_into_rtranclp r_into_rtranclp)
qed

theorem mutex_excludes_witness:
  "\<exists>s at. (mutex_step ex_mutex)\<^sup>*\<^sup>* (mutex_start (\<lambda>_ _. False)) (s, at) \<and>
    at 3 = Inside (ex_mutex\<lparr>fm_fd := 0\<rparr>) \<and> (\<forall>q n. at q = Inside n \<longrightarrow> 3 = q)"
proof -
  let ?s1 = "(no_lock (\<lambda>_ _. False))\<lparr>lock_files := [LOCALCLIENT_MUTEX_PATH \<mapsto> 0], lock_next := 1\<rparr>"
  let ?s2 = "?s1\<lparr>lock_holder := [0 \<mapsto> 3]\<rparr>" let ?at = "(\<lambda>_. Outside)(3 := Inside (ex_mutex\<lparr>fm_fd := 0\<rparr>))"
  have reach: "(mutex_step ex_mutex)\<^sup>*\<^sup>* (mutex_start (\<lambda>_ _. False)) (?s2, ?at)"
    unfolding mutex_start_def
    by (rule enter_runs [where ?s1.0 = ?s1 and rc = 0])
       (simp_all add: no_lock_def lock_open_def lock_wait_def ex_mutex_def)
  have me: "?at 3 = Inside (ex_mutex\<lparr>fm_fd := 0\<rparr>)" by simp
  have "3 = q" if "?at q = Inside n" for q :: nat and n
    by (rule mutex_excludes [OF reach _ me that]) simp
  with reach me show ?thesis by blast
qed

text \<open>
  C33: a local client's request waits while another client holds the mutex and then is the direct
  execution on the database, with the locks as they were; but a client that may not open the file
  of the mutex does not wait for anybody.
\<close>

theorem local_request:
  fixes s :: lock_state
  assumes "execute_datagram b hp ops d h = Some (Val ans, h')" "lock_files s (fm_path mutex) = Some i"
  shows "(\<not> lock_denied s p (fm_path mutex) \<and> lock_holder s i = None \<longrightarrow>
      run_proc (guarded p b hp ops mutex delay d) (s, h) = (Done (mutex\<lparr>fm_fd := int i\<rparr>, ans), (s, h'))) \<and>
    (\<not> lock_denied s p (fm_path mutex) \<and> q \<noteq> p \<and> lock_holder s i = Some q \<longrightarrow>
      run_proc (guarded p b hp ops mutex delay d) (s, h) = (Blocked, (s, h))) \<and>
    (lock_denied s p (fm_path mutex) \<longrightarrow>
      run_proc (guarded p b hp ops mutex delay d) (s, h) = (Done (mutex\<lparr>fm_fd := -1\<rparr>, ans), (s, h')))"
proof -
  have "run_proc (guarded p b hp ops mutex delay d) (s, h) = (Done (mutex\<lparr>fm_fd := -1\<rparr>, ans), (s, h'))"
    if "lock_denied s p (fm_path mutex)"
    using that assms(1)
    by (simp add: guarded_def run_proc_bind run_on_ipc pseq_def fmutex_enter_def fmutex_leave_def
        lock_open_def lock_wait_def lock_drop_def on_db_def of_cres_def sleep_def upd_def sys_def)
  then show ?thesis
    using guarded_runs [OF _ assms(2) _ assms(1), of p delay] guarded_waits [OF _ assms(2), of p q b hp ops delay d h]
    by blast
qed

theorem local_request_witness:
  "\<exists>ans h'. run_proc (guarded 3 LOCAL ex_heap (sqlite_ops LOCAL ex_junk ref_api) ex_mutex 2 (ex_purchase LOCAL))
      ((no_lock (\<lambda>_ _. False))\<lparr>lock_files := [LOCALCLIENT_MUTEX_PATH \<mapsto> 0], lock_next := 1\<rparr>, ex_state) =
    (Done (ex_mutex\<lparr>fm_fd := 0\<rparr>, ans),
      ((no_lock (\<lambda>_ _. False))\<lparr>lock_files := [LOCALCLIENT_MUTEX_PATH \<mapsto> 0], lock_next := 1\<rparr>, h')) \<and>
    ans \<noteq> None"
proof -
  obtain a h' where ex: "execute_datagram LOCAL ex_heap (sqlite_ops LOCAL ex_junk ref_api) (ex_purchase LOCAL) ex_state =
      Some (Val (Some a), h')"
    using ex_direct [of LOCAL] by (auto simp only: direct_Cons build.distinct simp_thms)
  let ?s = "(no_lock (\<lambda>_ _. False))\<lparr>lock_files := [LOCALCLIENT_MUTEX_PATH \<mapsto> 0], lock_next := 1\<rparr>"
  have f: "lock_files ?s (fm_path ex_mutex) = Some 0" "\<not> lock_denied ?s 3 (fm_path ex_mutex)" "lock_holder ?s 0 = None"
    by (simp_all add: no_lock_def ex_mutex_def)
  from local_request [OF ex f(1), of 3 2] f(2,3) show ?thesis by fastforce
qed

end
