(* ===== verification/Progress.thy ===== *)
theory Progress
  imports Sharing
begin

text \<open>
  The file mutex never gets stuck: from every configuration the local clients can reach, any one of
  them can still get inside.  The invariant of \<open>Filemutex\<close> says that who is inside has the lock; the
  one added here says where a process with the lock can be.
\<close>

section \<open>Where the holder is\<close>

primrec place_holds :: "nat \<Rightarrow> nat \<Rightarrow> place \<Rightarrow> bool" where
  "place_holds p i Outside = False"
| "place_holds p i (Entering q) = (\<exists>m. fm_fd m = int i \<and> q = Ret m)"
| "place_holds p i (Inside m) = (fm_fd m = int i)"
| "place_holds p i (Leaving q) =
     (q = pseq (upd (lock_drop p (int i))) (upd (lock_drop p (int i))))"

definition holder_inv :: "fmutex \<Rightarrow> lock_state \<times> (nat \<Rightarrow> place) \<Rightarrow> bool" where
  "holder_inv mutex = (\<lambda>(s, at). \<forall>i q. lock_holder s i = Some q \<longrightarrow>
     lock_files s (fm_path mutex) = Some i \<and> place_holds q i (at q))"

lemma holder_invD:
  "holder_inv mutex (s, at) \<Longrightarrow> lock_holder s i = Some q \<Longrightarrow>
   lock_files s (fm_path mutex) = Some i \<and> place_holds q i (at q)"
  by (simp add: holder_inv_def)

text \<open>A step of \<open>p\<close>: the locks of the others stay, and \<open>p\<close> has a lock only where it should.\<close>

lemma holder_inv_upd:
  assumes "holder_inv mutex (s, at)"
    and "\<And>i q. lock_holder s' i = Some q \<Longrightarrow> q \<noteq> p \<Longrightarrow> lock_holder s i = Some q"
    and "\<And>i. lock_files s (fm_path mutex) = Some i \<Longrightarrow> lock_files s' (fm_path mutex) = Some i"
    and "\<And>i. lock_holder s' i = Some p \<Longrightarrow> lock_files s' (fm_path mutex) = Some i \<and> place_holds p i pl"
  shows "holder_inv mutex (s', at(p := pl))"
  unfolding holder_inv_def prod.case
proof (intro allI impI)
  fix i q assume h: "lock_holder s' i = Some q"
  show "lock_files s' (fm_path mutex) = Some i \<and> place_holds q i ((at(p := pl)) q)"
  proof (cases "q = p")
    case True
    then show ?thesis using assms(4) h by simp
  next
    case False
    then show ?thesis using holder_invD [OF assms(1) assms(2) [OF h False]] assms(3) by simp
  qed
qed

lemma lock_drop_holder: "lock_holder (lock_drop p fd s) i = Some q \<Longrightarrow> lock_holder s i = Some q"
  by (auto simp: lock_drop_def split: if_splits)

lemma lock_drop_free: "0 \<le> fd \<Longrightarrow> lock_holder (lock_drop p fd s) (nat fd) \<noteq> Some p"
  by (simp add: lock_drop_def)

lemma holder_inv_step:
  assumes "mutex_step mutex c c'" "mutex_inv mutex c" "holder_inv mutex c"
  shows "holder_inv mutex c'"
  using assms
proof (induction rule: mutex_step.induct)
  case (calls_enter at p s)
  show ?case
    by (rule holder_inv_upd [OF calls_enter(3)]) (use holder_invD [OF calls_enter(3), of _ p] calls_enter(1) in auto)
next
  case (entered at p m s)
  show ?case
    by (rule holder_inv_upd [OF entered(3)]) (use holder_invD [OF entered(3), of _ p] entered(1) in auto)
next
  case (calls_leave at p m s)
  show ?case
    by (rule holder_inv_upd [OF calls_leave(3)])
       (use holder_invD [OF calls_leave(3), of _ p] calls_leave(1) in \<open>auto simp: fmutex_leave_def\<close>)
next
  case (left at p u s)
  show ?case
    by (rule holder_inv_upd [OF left(3)])
       (use holder_invD [OF left(3), of _ p] left(1) in \<open>auto simp: pseq_def upd_def sys_def\<close>)
next
  case (in_enter at p f s s' q)
  have none: "lock_holder s i \<noteq> Some p" for i
    using holder_invD [OF in_enter(4), of i p] in_enter(1) by auto
  have ok: "place_ok mutex s p (Entering (Act f))" using mutex_inv_at(1) [OF in_enter(3), of p] in_enter(1) by metis
  consider "Act f = fmutex_enter p mutex"
    | fd where "has_file mutex s fd" "Act f = pbind (sys (lock_wait p fd)) (\<lambda>code. Ret (mutex\<lparr>fm_fd := fd\<rparr>))"
    using ok by auto
  then show ?case
  proof cases
    case 1
    then obtain fd where "lock_open p (fm_path mutex) s = (fd, s')"
      using in_enter(2) by (auto simp: fmutex_enter_def split: prod.splits)
    then have "lock_holder s' = lock_holder s"
      "\<And>i. lock_files s (fm_path mutex) = Some i \<Longrightarrow> lock_files s' (fm_path mutex) = Some i"
      by (auto simp: lock_open_def split: if_splits option.splits)
    then show ?thesis by (intro holder_inv_upd [OF in_enter(4)]) (use none in auto)
  next
    case 2
    then obtain rc where w: "lock_wait p fd s = Some (rc, s')" and q: "q = Ret (mutex\<lparr>fm_fd := fd\<rparr>)"
      using in_enter(2) by auto
    have "lock_files s' = lock_files s" "lock_holder s' = (lock_holder s)(nat fd := Some p)"
      using w 2(1) none by (auto simp: lock_wait_def has_file_def split: option.splits if_splits)
    then show ?thesis
      by (intro holder_inv_upd [OF in_enter(4)]) (use none 2(1) q in \<open>auto simp: has_file_def split: if_splits\<close>)
  qed
next
  case (in_leave at p g s s' r)
  have "place_ok mutex s p (Leaving (Act g))" using mutex_inv_at(1) [OF in_leave(3), of p] in_leave(1) by metis
  then obtain fd where fd: "has_file mutex s fd"
    and "Act g = pseq (upd (lock_drop p fd)) (upd (lock_drop p fd)) \<or> Act g = upd (lock_drop p fd)" by auto
  then have s': "s' = lock_drop p fd s" using in_leave(2) by (auto simp: pseq_def upd_def sys_def)
  have own: "i = nat fd" if "lock_holder s i = Some p" for i
    using holder_invD [OF in_leave(4) that] fd by (simp add: has_file_def)
  have none: "lock_holder s' i \<noteq> Some p" for i
    using own lock_drop_holder [of p fd s i p] lock_drop_free [of fd p s] fd
    unfolding s' has_file_def by blast
  show ?case
  proof (rule holder_inv_upd [OF in_leave(4)])
    show "lock_holder s i = Some q" if "lock_holder s' i = Some q" for i q
      using lock_drop_holder that unfolding s' by blast
    show "lock_files s' (fm_path mutex) = Some i" if "lock_files s (fm_path mutex) = Some i" for i
      using that by (simp add: s' lock_drop_def)
  qed (use none in blast)
qed

lemma both_inv_reach:
  assumes "(mutex_step mutex)\<^sup>*\<^sup>* (mutex_start denied) c" "\<And>p. \<not> denied p (fm_path mutex)"
  shows "mutex_inv mutex c \<and> holder_inv mutex c"
  using assms(1)
proof (induction rule: rtranclp_induct)
  case base
  show ?case using mutex_inv_start [of denied mutex] assms(2)
    by (simp add: holder_inv_def mutex_start_def no_lock_def)
next
  case (step c c')
  then show ?case using mutex_inv_step holder_inv_step by blast
qed

section \<open>Getting out and getting in\<close>

text \<open>The holder can drop the lock, and then nobody has it.\<close>

lemma leaving_releases:
  assumes "at q = Leaving (pseq (upd (lock_drop q (int i))) (upd (lock_drop q (int i))))"
  shows "mutex_step mutex (s, at) (lock_drop q (int i) s, at(q := Leaving (upd (lock_drop q (int i)))))"
  using in_leave [of at q] assms by (simp add: pseq_def upd_def sys_def)

lemma inside_releases:
  assumes "at q = Inside m" "fm_fd m = int i"
  shows "\<exists>at'. (mutex_step mutex)\<^sup>*\<^sup>* (s, at) (lock_drop q (int i) s, at')"
proof -
  let ?at = "at(q := Leaving (fmutex_leave q m))"
  have "mutex_step mutex (s, at) (s, ?at)" using assms(1) by (rule calls_leave)
  moreover have "?at q = Leaving (pseq (upd (lock_drop q (int i))) (upd (lock_drop q (int i))))"
    using assms(2) by (simp add: fmutex_leave_def)
  note leaving_releases [where at = ?at, OF this]
  ultimately show ?thesis by (meson converse_rtranclp_into_rtranclp r_into_rtranclp)
qed

lemma holder_releases:
  assumes "holder_inv mutex (s, at)" "lock_holder s i = Some q"
  shows "\<exists>at'. (mutex_step mutex)\<^sup>*\<^sup>* (s, at) (lock_drop q (int i) s, at')"
proof (cases "at q")
  case Outside
  then show ?thesis using holder_invD [OF assms] by simp
next
  case (Entering x)
  then obtain m where m: "fm_fd m = int i" "at q = Entering (Ret m)" using holder_invD [OF assms] by auto
  have "mutex_step mutex (s, at) (s, at(q := Inside m))" using m(2) by (rule entered)
  moreover have "\<exists>at'. (mutex_step mutex)\<^sup>*\<^sup>* (s, at(q := Inside m)) (lock_drop q (int i) s, at')"
    by (rule inside_releases [OF _ m(1)]) simp
  ultimately show ?thesis by (meson converse_rtranclp_into_rtranclp)
next
  case (Inside m)
  then show ?thesis using inside_releases holder_invD [OF assms] by simp
next
  case (Leaving x)
  then have "at q = Leaving (pseq (upd (lock_drop q (int i))) (upd (lock_drop q (int i))))"
    using holder_invD [OF assms] by simp
  from leaving_releases [where at = at and q = q and i = i, OF this] show ?thesis by blast
qed

definition unheld :: "lock_state \<Rightarrow> bool" where
  "unheld s \<longleftrightarrow> (\<forall>i. lock_holder s i = None)"

lemma release_reach:
  assumes "holder_inv mutex (s, at)"
  shows "\<exists>s' at'. (mutex_step mutex)\<^sup>*\<^sup>* (s, at) (s', at') \<and> unheld s'"
proof (cases "unheld s")
  case True
  then show ?thesis by blast
next
  case False
  then obtain i q where h: "lock_holder s i = Some q" by (auto simp: unheld_def)
  have "j = i" if "lock_holder s j = Some r" for j r
    using holder_invD [OF assms h] holder_invD [OF assms that] by simp
  moreover have "lock_holder (lock_drop q (int i) s) i = None" using h by (simp add: lock_drop_def)
  ultimately have "unheld (lock_drop q (int i) s)"
    unfolding unheld_def using lock_drop_holder by (metis not_None_eq)
  with holder_releases [OF assms h] show ?thesis by blast
qed

text \<open>When nobody has the lock, a process gets in from wherever it is.\<close>

lemma wait_enters:
  assumes "unheld s" "0 \<le> fd"
    and "at p = Entering (pbind (sys (lock_wait p fd)) (\<lambda>code. Ret (mutex\<lparr>fm_fd := fd\<rparr>)))"
  shows "\<exists>s' at' m. (mutex_step mutex)\<^sup>*\<^sup>* (s, at) (s', at') \<and> at' p = Inside m"
proof -
  let ?m = "mutex\<lparr>fm_fd := fd\<rparr>" let ?s = "s\<lparr>lock_holder := (lock_holder s)(nat fd := Some p)\<rparr>"
  have "lock_wait p fd s = Some (0, ?s)" using assms(1,2) by (simp add: lock_wait_def unheld_def)
  then have "mutex_step mutex (s, at) (?s, at(p := Entering (Ret ?m)))"
    using in_enter [of at p] assms(3) by simp
  moreover have "mutex_step mutex (?s, at(p := Entering (Ret ?m))) (?s, at(p := Inside ?m))"
    using entered [of "at(p := Entering (Ret ?m))" p ?m mutex ?s] by simp
  ultimately have "(mutex_step mutex)\<^sup>*\<^sup>* (s, at) (?s, at(p := Inside ?m))" by (meson converse_rtranclp_into_rtranclp r_into_rtranclp)
  then show ?thesis by (metis fun_upd_same)
qed

lemma fresh_enters:
  assumes "unheld s" "\<not> lock_denied s p (fm_path mutex)" "at p = Entering (fmutex_enter p mutex)"
  shows "\<exists>s' at' m. (mutex_step mutex)\<^sup>*\<^sup>* (s, at) (s', at') \<and> at' p = Inside m"
proof -
  obtain fd s1 where o: "lock_open p (fm_path mutex) s = (fd, s1)" by force
  let ?q = "pbind (sys (lock_wait p fd)) (\<lambda>code. Ret (mutex\<lparr>fm_fd := fd\<rparr>))"
  have "mutex_step mutex (s, at) (s1, at(p := Entering ?q))"
    using in_enter [of at p] assms(3) o by (simp add: fmutex_enter_def)
  moreover have "unheld s1" "0 \<le> fd"
    using o assms(1,2) by (auto simp: lock_open_def unheld_def split: option.splits)
  then have "\<exists>s' at' m. (mutex_step mutex)\<^sup>*\<^sup>* (s1, at(p := Entering ?q)) (s', at') \<and> at' p = Inside m"
    by (rule wait_enters) simp
  ultimately show ?thesis by (meson converse_rtranclp_into_rtranclp)
qed

lemma outside_enters:
  assumes "unheld s" "\<not> lock_denied s p (fm_path mutex)" "at p = Outside"
  shows "\<exists>s' at' m. (mutex_step mutex)\<^sup>*\<^sup>* (s, at) (s', at') \<and> at' p = Inside m"
proof -
  have "mutex_step mutex (s, at) (s, at(p := Entering (fmutex_enter p mutex)))"
    using assms(3) by (rule calls_enter)
  moreover have "\<exists>s' at' m. (mutex_step mutex)\<^sup>*\<^sup>* (s, at(p := Entering (fmutex_enter p mutex))) (s', at') \<and> at' p = Inside m"
    by (rule fresh_enters [OF assms(1,2)]) simp
  ultimately show ?thesis by (meson converse_rtranclp_into_rtranclp)
qed

lemma leaving_leaves:
  assumes "at p = Leaving (Ret ())" "unheld s" "\<not> lock_denied s p (fm_path mutex)"
  shows "\<exists>s' at' m. (mutex_step mutex)\<^sup>*\<^sup>* (s, at) (s', at') \<and> at' p = Inside m"
proof -
  have "mutex_step mutex (s, at) (s, at(p := Outside))" using assms(1) by (rule left)
  moreover have "\<exists>s' at' m. (mutex_step mutex)\<^sup>*\<^sup>* (s, at(p := Outside)) (s', at') \<and> at' p = Inside m"
    by (rule outside_enters [OF assms(2,3)]) simp
  ultimately show ?thesis by (meson converse_rtranclp_into_rtranclp)
qed

lemma drop_unheld: "unheld s \<Longrightarrow> lock_drop p fd s = s"
  by (simp add: unheld_def lock_drop_def)

lemma leaving_enters:
  assumes "at p = Leaving (upd (lock_drop p fd))" "unheld s" "\<not> lock_denied s p (fm_path mutex)"
  shows "\<exists>s' at' m. (mutex_step mutex)\<^sup>*\<^sup>* (s, at) (s', at') \<and> at' p = Inside m"
proof -
  have "mutex_step mutex (s, at) (s, at(p := Leaving (Ret ())))"
    using in_leave [of at p] assms(1) drop_unheld [OF assms(2)] by (simp add: upd_def sys_def)
  moreover have "\<exists>s' at' m. (mutex_step mutex)\<^sup>*\<^sup>* (s, at(p := Leaving (Ret ()))) (s', at') \<and> at' p = Inside m"
    by (rule leaving_leaves [OF _ assms(2,3)]) simp
  ultimately show ?thesis by (meson converse_rtranclp_into_rtranclp)
qed

lemma unheld_enters:
  assumes inv: "mutex_inv mutex (s, at)" and u: "unheld s"
  shows "\<exists>s' at' m. (mutex_step mutex)\<^sup>*\<^sup>* (s, at) (s', at') \<and> at' p = Inside m"
proof (cases "at p")
  case Outside
  then show ?thesis using outside_enters [OF u mutex_inv_at(2) [OF inv]] by blast
next
  case (Entering x)
  from mutex_inv_at(1) [OF inv, of p, unfolded Entering place_ok.simps] show ?thesis
  proof (elim disjE exE conjE)
    assume "x = fmutex_enter p mutex"
    then show ?thesis using fresh_enters [OF u mutex_inv_at(2) [OF inv]] Entering by blast
  next
    fix fd assume "has_file mutex s fd" "x = pbind (sys (lock_wait p fd)) (\<lambda>code. Ret (mutex\<lparr>fm_fd := fd\<rparr>))"
    then show ?thesis using wait_enters [OF u] Entering by (auto simp: has_file_def)
  next
    fix m assume "has_lock mutex s p (fm_fd m)"
    then show ?thesis using u by (simp add: has_lock_def unheld_def)
  qed
next
  case (Inside m)
  then show ?thesis by blast
next
  case (Leaving x)
  obtain fd where "x = pseq (upd (lock_drop p fd)) (upd (lock_drop p fd)) \<or> x = upd (lock_drop p fd) \<or> x = Ret ()"
    using mutex_inv_at(1) [OF inv, of p] Leaving by auto
  then show ?thesis
  proof (elim disjE)
    let ?x = "Leaving (upd (lock_drop p fd))"
    assume "x = pseq (upd (lock_drop p fd)) (upd (lock_drop p fd))"
    then have "mutex_step mutex (s, at) (s, at(p := ?x))"
      using in_leave [of at p] Leaving drop_unheld [OF u] by (simp add: pseq_def upd_def sys_def)
    moreover have "\<exists>s' at' m. (mutex_step mutex)\<^sup>*\<^sup>* (s, at(p := ?x)) (s', at') \<and> at' p = Inside m"
      by (rule leaving_enters [OF _ u mutex_inv_at(2) [OF inv]]) simp
    ultimately show ?thesis by (meson converse_rtranclp_into_rtranclp)
  next
    assume "x = upd (lock_drop p fd)"
    then show ?thesis using leaving_enters [OF _ u mutex_inv_at(2) [OF inv]] Leaving by blast
  next
    assume "x = Ret ()"
    then show ?thesis using leaving_leaves [OF _ u mutex_inv_at(2) [OF inv]] Leaving by blast
  qed
qed

text \<open>
  C15: the mutex can always be entered: whatever the local clients have done so far, and wherever
  each of them is, any one of them can still get inside by a run of their own calls.  No
  interleaving leaves the lock with a process that cannot drop it.
\<close>

theorem mutex_enterable:
  assumes reach: "(mutex_step mutex)\<^sup>*\<^sup>* (mutex_start denied) c" and ok: "\<And>q. \<not> denied q (fm_path mutex)"
  shows "\<exists>s at m. (mutex_step mutex)\<^sup>*\<^sup>* c (s, at) \<and> at p = Inside m"
proof -
  obtain s at where c: "c = (s, at)" by (cases c) auto
  obtain s1 at1 where r: "(mutex_step mutex)\<^sup>*\<^sup>* c (s1, at1)" "unheld s1"
    using release_reach [of mutex s at] both_inv_reach [OF reach ok] unfolding c by blast
  have "mutex_inv mutex (s1, at1)"
    using mutex_inv_reach [OF r(1)] both_inv_reach [OF reach ok] by blast
  from unheld_enters [OF this r(2), of p] r(1) show ?thesis by (meson rtranclp_trans)
qed

theorem mutex_enterable_witness:
  "\<exists>s at m s' at' m'. (mutex_step ex_mutex)\<^sup>*\<^sup>* (mutex_start (\<lambda>_ _. False)) (s, at) \<and> at 3 = Inside m \<and>
     (mutex_step ex_mutex)\<^sup>*\<^sup>* (s, at) (s', at') \<and> at' 5 = Inside m'"
proof -
  have d: "\<And>q. \<not> (\<lambda>_ _. False) (q :: nat) (fm_path ex_mutex)" by simp
  obtain s at m where i: "(mutex_step ex_mutex)\<^sup>*\<^sup>* (mutex_start (\<lambda>_ _. False)) (s, at)" "at 3 = Inside m"
    using mutex_enterable [OF rtranclp.rtrancl_refl d, where p = 3] by blast
  from mutex_enterable [OF i(1) d, where p = 5] i show ?thesis by blast
qed

end
