(* ===== verification/Locked.thy ===== *)
theory Locked
  imports Booking
begin

text \<open>
  The database file while another process holds a lock on it, as happens when two server processes
  (one per client) work on the same file.  The program registers no busy handler, so
  \<open>server/sqlite3/sqlite3.h\<close> promises \<open>SQLITE_BUSY\<close> at once for an access to a table that is
  locked; \<open>database.c\<close> treats that code like any other failure.
\<close>

text \<open>The statements that write to a table; \<open>BEGIN\<close> and \<open>END\<close> alone do not.\<close>

fun table_writes :: "stmt \<Rightarrow> bool" where
  "table_writes Create_ticket = True"
| "table_writes Create_flight = True"
| "table_writes Begin_transaction = False"
| "table_writes End_transaction = False"
| "table_writes (Insert_flight dep og dest) = True"
| "table_writes (Insert_ticket f) = True"
| "table_writes (Delete_ticket r) = True"

text \<open>
  No busy callback is registered: a write to a locked table is refused immediately, where it could be
  executed otherwise (a table that is missing is another error).  The lock is the other process's, so no
  call of this connection ends it: \<open>locked\<close> speaks of a lock that is held over all the calls of one
  operation.
\<close>

definition lock_spec :: "('h, 'q) sqlite \<Rightarrow> ('h, 'q) reading \<Rightarrow> ('h \<Rightarrow> bool) \<Rightarrow> bool" where
  "lock_spec api rd locked \<longleftrightarrow>
     (\<forall>ss h. locked h \<longrightarrow> program_script ss \<longrightarrow> table_writes (hd ss) \<longrightarrow> script_exec ss (view rd h) \<noteq> None \<longrightarrow>
        fst (api_exec api (script_text ss) h) = SQLITE_BUSY) \<and>
     (\<forall>sql h. locked h \<longrightarrow> locked (snd (api_exec api sql h))) \<and>
     (\<forall>sql h. locked h \<longrightarrow> locked (snd (snd (api_prepare_v2 api sql h)))) \<and>
     (\<forall>q h. locked h \<longrightarrow> locked (snd (snd (api_step api q h)))) \<and>
     (\<forall>q h. locked h \<longrightarrow> locked (snd (api_finalize api q h))) \<and>
     (\<forall>h. locked h \<longrightarrow> locked (api_close api h)) \<and>
     (\<forall>msg h. locked h \<longrightarrow> locked (api_free api msg h)) \<and>
     (\<forall>msg h. locked h \<longrightarrow> locked (api_printf api msg h))"

lemma lock_fails:
  assumes "sqlite_ok api rd" "lock_spec api rd locked" "locked h" "table_writes st"
    and e: "api_exec api (stmt_text st) h = (rc, h')"
  shows "rc \<noteq> SQLITE_OK"
proof
  assume rc: "rc = SQLITE_OK"
  then have "script_exec [st] (view rd h) \<noteq> None" using exec_cases(1) [OF assms(1) e] by simp
  then have "rc = SQLITE_BUSY"
    using assms(2) [unfolded lock_spec_def, THEN conjunct1, rule_format, of h "[st]"] assms(3,4) e by simp
  with rc show False by (simp add: result_codes)
qed

lemma locked_keeps:
  assumes "lock_spec api rd locked" "locked h"
  shows "locked (snd (api_exec api sql h))" "locked (snd (snd (api_prepare_v2 api sql h)))"
    "locked (snd (snd (api_step api q h)))" "locked (snd (api_finalize api q h))"
    "locked (api_close api h)" "locked (db_report api what msg h)"
  using assms by (simp_all add: lock_spec_def db_report_def)

lemma locked_sbind:
  assumes "locked (snd m)" "\<And>x h. locked h \<Longrightarrow> locked (snd (f x h))"
  shows "locked (snd (sbind m f))"
  using assms by (cases m; cases "fst m") auto

lemma locked_prepare:
  assumes "lock_spec api rd locked" "locked h"
  shows "locked (snd (DB_PREPARE_STATEMENT api sql h))"
proof -
  obtain rc q h1 where "api_prepare_v2 api sql h = (rc, q, h1)" by (metis prod.collapse)
  then show ?thesis
    using locked_keeps(2) [where sql = sql, OF assms] locked_keeps(5,6) [OF assms(1)]
    by (simp add: DB_PREPARE_STATEMENT_eq)
qed

lemma locked_finalize:
  assumes "lock_spec api rd locked" "locked h"
  shows "locked (snd (DB_FINALIZE_STATEMENT api q h))"
proof -
  obtain rc h1 where "api_finalize api q h = (rc, h1)" by force
  then show ?thesis
    using locked_keeps(4) [where q = q, OF assms] locked_keeps(5,6) [OF assms(1)]
    by (simp add: DB_FINALIZE_STATEMENT_eq)
qed

lemma locked_expect:
  "lock_spec api rd locked \<Longrightarrow> locked h \<Longrightarrow> locked (snd (SQLITE_STATEMENT_EXPECT api rc e h))"
  using locked_keeps(5,6) [of api rd locked] by (simp add: SQLITE_STATEMENT_EXPECT_eq)

lemma locked_flight_exists:
  assumes lock: "lock_spec api rd locked" and l: "locked h"
  shows "locked (snd (db_flight_exists api fid h))"
proof -
  have *: "locked (snd (sbind (DB_FINALIZE_STATEMENT api q h) (\<lambda>_ h. (Val x, h))))"
    if "locked h" for q h and x :: bool
    by (rule locked_sbind [where locked = locked, OF locked_finalize [OF lock that]]) simp
  have second: "locked (snd (case api_step api q h of (rc, q, h) \<Rightarrow>
      sbind (SQLITE_STATEMENT_EXPECT api rc SQLITE_DONE h) (\<lambda>_ h.
      sbind (DB_FINALIZE_STATEMENT api q h) (\<lambda>_ h. (Val x, h)))))"
    if "locked h" for q h and x :: bool
  proof -
    obtain rc q' h1 where s: "api_step api q h = (rc, q', h1)" by (metis prod.collapse)
    then have "locked h1" using locked_keeps(3) [where q = q, OF lock that] by simp
    then show ?thesis
      unfolding s prod.case by (rule locked_sbind [where locked = locked, OF locked_expect [OF lock] *])
  qed
  have first: "locked (snd (case api_step api q h of (rc, q, h) \<Rightarrow>
      sbind (SQLITE_STATEMENT_EXPECT api rc SQLITE_ROW h) (\<lambda>_ h.
        let rowcount = api_column_int api q 0 in
        case api_step api q h of (rc, q, h) \<Rightarrow>
        sbind (SQLITE_STATEMENT_EXPECT api rc SQLITE_DONE h) (\<lambda>_ h.
        sbind (DB_FINALIZE_STATEMENT api q h) (\<lambda>_ h. (Val (rowcount = 1), h))))))"
    if "locked h" for q h
  proof -
    obtain rc q' h1 where s: "api_step api q h = (rc, q', h1)" by (metis prod.collapse)
    then have "locked h1" using locked_keeps(3) [where q = q, OF lock that] by simp
    then show ?thesis
      unfolding s prod.case Let_def by (rule locked_sbind [where locked = locked, OF locked_expect [OF lock] second])
  qed
  show ?thesis
    unfolding db_flight_exists_def query_count sbind.simps
    by (rule locked_sbind [where locked = locked, OF locked_prepare [OF lock l] first])
qed

text \<open>A statement that writes ends the process while the lock is held.\<close>

lemma DB_EXEC_locked:
  assumes "sqlite_ok api rd" "lock_spec api rd locked" "locked h" "table_writes st"
  shows "\<exists>h'. DB_EXEC api (stmt_text st) h = (Exit 1, h') \<and> view rd h' = rollback (view rd h)"
proof -
  obtain rc h1 where e: "api_exec api (stmt_text st) h = (rc, h1)" by force
  have rc: "rc \<noteq> SQLITE_OK" by (rule lock_fails [OF assms e])
  show ?thesis
    unfolding DB_EXEC_eq e prod.case
    using exec_cases(2) [OF assms(1) e rc] rc
    by (auto simp: quiet_views [OF assms(1)] close_view [OF assms(1)] unharmed_rollback)
qed

text \<open>
  C17: while another process holds the lock on the database, nothing is sold, cancelled or added: a
  purchase finds that the flight does not exist or ends the server process with \<open>exit(1)\<close>, a
  cancellation and a new flight end it, and the committed tables stay what they were.  The lock is
  not waited for: one busy moment costs the client its server.
\<close>

theorem writes_exit_while_locked:
  assumes ok: "sqlite_ok api rd" and lock: "lock_spec api rd locked" and l: "locked h"
    and wf: "view_wf (view rd h)" and out: "pending (view rd h) = None"
  shows "(\<exists>r h'. db_purchase api fid h = (r, h') \<and>
      (r = Exit 1 \<or> (r = Val (-1) \<and> sint fid \<notin> flight_ids (committed (view rd h)))) \<and>
      committed (view rd h') = committed (view rd h)) \<and>
    (\<exists>h'. db_cancel api rid h = (Exit 1, h') \<and> view rd h' = view rd h) \<and>
    (\<exists>h'. db_add_flight api dep og dest h = (Exit 1, h') \<and> view rd h' = view rd h)"
proof (intro conjI)
  have same: "rollback (view rd h) = view rd h" using out by (simp add: rollback_def)
  show "\<exists>h'. db_cancel api rid h = (Exit 1, h') \<and> view rd h' = view rd h"
    using DB_EXEC_locked [OF ok lock l, of "Delete_ticket (sint rid)"] same
    by (auto simp: db_cancel_def remove_ticket_def csimps)
  show "\<exists>h'. db_add_flight api dep og dest h = (Exit 1, h') \<and> view rd h' = view rd h"
    using DB_EXEC_locked [OF ok lock l, of "Insert_flight (sint dep) (sint og) (sint dest)"] same
    by (auto simp: db_add_flight_def csimps)
  let ?h1 = "snd (api_exec api (stmt_text Begin_transaction) h)"
  note b = begin_keeps [OF ok out]
  have twf: "tables_wf (current (view rd ?h1))"
    using begin_wf [OF ok wf] by (simp add: view_wf_def)
  obtain e h2 where e: "db_flight_exists api fid ?h1 = (e, h2)" by force
  have l2: "locked h2"
    using locked_flight_exists [OF lock locked_keeps(1) [OF lock l], of fid] e by (metis snd_conv)
  show "\<exists>r h'. db_purchase api fid h = (r, h') \<and>
      (r = Exit 1 \<or> (r = Val (-1) \<and> sint fid \<notin> flight_ids (committed (view rd h)))) \<and>
      committed (view rd h') = committed (view rd h)"
    using db_flight_exists_outcome [OF ok twf e] e b
      DB_EXEC_locked [OF ok lock l2, of "Insert_ticket (sint fid)"]
    by (auto simp: db_purchase_def add_ticket_def csimps)
qed

text \<open>The engine of \<open>SqliteRef\<close> with the lock held by somebody else all the time.\<close>

definition locked_api :: "(ref_state, ref_stmt) sqlite" where
  "locked_api = ref_api\<lparr>api_exec := \<lambda>sql h.
     (case read_script sql of
        Some ss \<Rightarrow> if table_writes (hd ss) then (SQLITE_BUSY, h) else api_exec ref_api sql h
      | None \<Rightarrow> api_exec ref_api sql h)\<rparr>"

lemma locked_sqlite_ok: "sqlite_ok locked_api ref_reading"
proof -
  have "exec_spec ref_api ref_reading" using ref_sqlite_ok by (simp add: sqlite_ok_def)
  then have "exec_spec locked_api ref_reading"
    unfolding locked_api_def
    by (rule exec_spec_failing)
      (auto simp: unharmed_def primary_code_def result_codes split: if_splits option.splits)
  then show ?thesis
    unfolding locked_api_def
    by (rule sqlite_ok_exec [OF ref_sqlite_ok]) (simp add: ref_exec_console split: option.split)
qed

theorem writes_exit_while_locked_witness:
  "\<exists>h1 h2. fst (db_purchase locked_api 2 ex_state) = Exit 1 \<and>
     db_cancel locked_api 1 ex_state = (Exit 1, h1) \<and> ref_view h1 = ref_view ex_state \<and>
     db_add_flight locked_api 100 1 2 ex_state = (Exit 1, h2) \<and> ref_view h2 = ref_view ex_state"
proof -
  have "lock_spec locked_api ref_reading (\<lambda>_. True)"
    by (simp add: lock_spec_def locked_api_def read_script_text)
  moreover have "sint (2 :: i32) \<in> flight_ids (committed (view ref_reading ex_state))"
    using ex_flight_ids by (simp add: ex_state_def)
  moreover have "pending (view ref_reading ex_state) = None" by (simp add: ex_state_def)
  ultimately show ?thesis
    using writes_exit_while_locked
      [OF locked_sqlite_ok, of "\<lambda>_. True" ex_state 2 1 100 1 2] ex_state_wf by auto
qed

end
