(* ===== verification/Reports.thy ===== *)
theory Reports
  imports Locked Answers
begin

text \<open>
  What the server prints while it works on a request: nothing, unless the library fails, and then
  one line of \<open>server/db/database.c\<close> before \<open>exit(1)\<close>.
\<close>

section \<open>Error messages\<close>

text \<open>
  A call of the library that failed: the words \<open>database.c\<close> has for it, the code it returned, the text the
  library gives for it and the state it left.  The text is what \<open>sqlite3_errmsg\<close> gives in that state, and
  for \<open>sqlite3_exec\<close> what the call wrote to its fifth argument.  A step that is neither a row nor the last
  is a failure.
\<close>

inductive failed :: "('h, 'q) sqlite \<Rightarrow> string \<Rightarrow> int \<Rightarrow> string \<Rightarrow> 'h \<Rightarrow> bool" for api where
  failed_prepare: "api_prepare_v2 api sql h = (rc, q, h') \<Longrightarrow> rc \<noteq> SQLITE_OK \<Longrightarrow>
    failed api ''Couldn't prepare database: '' rc (api_errmsg api h') h'"
| failed_step: "api_step api q h = (rc, q', h') \<Longrightarrow> rc \<noteq> SQLITE_ROW \<Longrightarrow> rc \<noteq> SQLITE_DONE \<Longrightarrow>
    failed api ''Couldn't step through statement: '' rc (api_errmsg api h') h'"
| failed_finalize: "api_finalize api q h = (rc, h') \<Longrightarrow> rc \<noteq> SQLITE_OK \<Longrightarrow>
    failed api ''Couldn't finalize statement: '' rc (api_errmsg api h') h'"
| failed_exec: "api_exec api sql h = (rc, h') \<Longrightarrow> rc \<noteq> SQLITE_OK \<Longrightarrow>
    failed api ''SQL error: '' rc (api_exec_err api sql h) h'"

text \<open>
  \<open>describes rc msg\<close>: \<open>msg\<close> is the English text that describes the result code \<open>rc\<close>.  The text of a
  failed call is one of these; the exception is \<open>SQLITE_MISUSE\<close>, for which there may be none.
\<close>

definition errmsg_spec :: "('h, 'q) sqlite \<Rightarrow> (int \<Rightarrow> string \<Rightarrow> bool) \<Rightarrow> bool" where
  "errmsg_spec api describes \<longleftrightarrow>
     (\<forall>what rc msg h. failed api what rc msg h \<longrightarrow> primary_code rc \<noteq> code_number R_MISUSE \<longrightarrow> describes rc msg)"

section \<open>What is printed\<close>

text \<open>
  From a state in which \<open>old\<close> is printed: an exit follows a call that failed when nothing more was printed,
  and between the two there are the line for that call, the return of the text's memory where the call
  allocated it, and the close of the database; another result has printed nothing.
\<close>

definition last_words :: "('h, 'q) sqlite \<Rightarrow> string \<Rightarrow> string \<Rightarrow> 'h \<Rightarrow> 'h set" where
  "last_words api what msg h =
     {api_close api (db_report api what msg h), api_close api (api_free api msg (db_report api what msg h))}"

definition reported :: "('h, 'q) sqlite \<Rightarrow> ('h, 'q) reading \<Rightarrow> string \<Rightarrow> 'a cres \<times> 'h \<Rightarrow> bool" where
  "reported api rd old m \<longleftrightarrow>
     (case fst m of
        Exit n \<Rightarrow> n = 1 \<and>
          (\<exists>what rc msg h. failed api what rc msg h \<and> console rd h = old \<and> snd m \<in> last_words api what msg h)
      | _ \<Rightarrow> console rd (snd m) = old)"

lemma last_words_console:
  "sqlite_ok api rd \<Longrightarrow> h' \<in> last_words api what msg h \<Longrightarrow>
   console rd h' = console rd h @ ''[DATABASE] '' @ what @ msg @ nl"
  by (auto simp: last_words_def db_report_def report_console)

lemma reported_Val [simp]: "reported api rd old (Val x, h) \<longleftrightarrow> console rd h = old"
  by (simp add: reported_def)

lemma reported_Crash [simp]: "reported api rd old (Crash, h) \<longleftrightarrow> console rd h = old"
  by (simp add: reported_def)

lemma reported_deref [simp]:
  "reported api rd old (cbind (deref x) (\<lambda>a. Val (f a)), h) \<longleftrightarrow> console rd h = old"
  by (cases x) simp_all

lemma reported_other: "reported api rd old (Exit n :: 'a cres, h) \<Longrightarrow> reported api rd old (Exit n :: 'b cres, h)"
  by (simp add: reported_def)

lemma reported_sbind:
  "reported api rd old m \<Longrightarrow> (\<And>x h. m = (Val x, h) \<Longrightarrow> console rd h = old \<Longrightarrow> reported api rd old (f x h)) \<Longrightarrow>
   reported api rd old (sbind m f)"
  by (cases m; cases "fst m") (auto simp: reported_def)

lemma reported_exit:
  assumes "failed api what rc msg h" "console rd h = old"
  shows "reported api rd old (Exit 1, api_close api (db_report api what msg h))"
    "reported api rd old (Exit 1, api_close api (api_free api msg (db_report api what msg h)))"
  using assms by (auto simp: reported_def last_words_def)

text \<open>The macros.\<close>

lemma reported_macros:
  assumes ok: "sqlite_ok api rd" and old: "console rd h = old"
  shows "reported api rd old (DB_EXEC api sql h)" "reported api rd old (DB_PREPARE_STATEMENT api sql h)"
    "reported api rd old (DB_FINALIZE_STATEMENT api q h)"
    "(rc \<noteq> e \<Longrightarrow> failed api ''Couldn't step through statement: '' rc (api_errmsg api h) h) \<Longrightarrow>
     reported api rd old (SQLITE_STATEMENT_EXPECT api rc e h)"
  using report_console(5-8) [OF ok] old
  by (auto simp: DB_EXEC_eq DB_PREPARE_STATEMENT_eq DB_FINALIZE_STATEMENT_eq SQLITE_STATEMENT_EXPECT_eq
      intro!: reported_exit failed_exec failed_prepare failed_finalize split: prod.split)

text \<open>The count has one row, so a step there that does not do as expected is a failure.\<close>

lemma count_one_row:
  assumes "query_rows (Count_flight n) v = Some rows" "mset rows = mset (int_rows rd q)"
  obtains row where "int_rows rd q = [row]"
  using assms by (auto split: option.splits)

lemma reported_flight_exists:
  assumes ok: "sqlite_ok api rd" and old: "console rd h = old"
  shows "reported api rd old (db_flight_exists api fid h)"
proof -
  let ?qy = "Count_flight (sint fid)"
  have "reported api rd old (sbind (DB_PREPARE_STATEMENT api (query_text ?qy) h) (\<lambda>statement h.
      case api_step api statement h of (rc, statement, h) \<Rightarrow>
        sbind (SQLITE_STATEMENT_EXPECT api rc SQLITE_ROW h) (\<lambda>_ h.
          case api_step api statement h of (rc, statement', h) \<Rightarrow>
            sbind (SQLITE_STATEMENT_EXPECT api rc SQLITE_DONE h) (\<lambda>_ h.
            sbind (DB_FINALIZE_STATEMENT api statement' h) (\<lambda>_ h.
              (Val (api_column_int api statement 0 = 1), h))))))"
  proof (rule reported_sbind [OF reported_macros(2) [OF ok old]])
    fix q h1
    assume p: "DB_PREPARE_STATEMENT api (query_text ?qy) h = (Val q, h1)" and old1: "console rd h1 = old"
    obtain row where row: "int_rows rd q = [row]"
      using prepare_outcome [OF ok p] count_one_row by auto
    obtain rc1 q1 h2 where s1: "api_step api q h1 = (rc1, q1, h2)" by (metis prod.collapse)
    obtain rc2 q2 h3 where s2: "api_step api q1 h2 = (rc2, q2, h3)" by (metis prod.collapse)
    have old2: "console rd h2 = old" "console rd h3 = old"
      using report_console(7) [OF ok] s1 s2 old1 by metis+
    have e1: "failed api ''Couldn't step through statement: '' rc1 (api_errmsg api h2) h2" if "rc1 \<noteq> SQLITE_ROW"
      using failed_step [OF s1 that] step_cases(2) [OF ok s1] row by auto
    have e2: "failed api ''Couldn't step through statement: '' rc2 (api_errmsg api h3) h3"
      if "rc1 = SQLITE_ROW" "rc2 \<noteq> SQLITE_DONE"
      using failed_step [OF s2 _ that(2)] step_cases(1) [OF ok s1 that(1)] step_cases(1) [OF ok s2] row
      by auto
    show "reported api rd old (case api_step api q h1 of (rc, statement, h) \<Rightarrow>
        sbind (SQLITE_STATEMENT_EXPECT api rc SQLITE_ROW h) (\<lambda>_ h.
          case api_step api statement h of (rc, statement', h) \<Rightarrow>
            sbind (SQLITE_STATEMENT_EXPECT api rc SQLITE_DONE h) (\<lambda>_ h.
            sbind (DB_FINALIZE_STATEMENT api statement' h) (\<lambda>_ h.
              (Val (api_column_int api statement 0 = 1), h)))))"
      unfolding s1 prod.case
    proof (rule reported_sbind [OF reported_macros(4) [OF ok old2(1) e1]])
      fix x h'
      assume "SQLITE_STATEMENT_EXPECT api rc1 SQLITE_ROW h2 = (Val x, h')"
      then have r: "rc1 = SQLITE_ROW" "h' = h2" by (auto simp: SQLITE_STATEMENT_EXPECT_eq split: if_splits)
      show "reported api rd old (case api_step api q1 h' of (rc, statement', h) \<Rightarrow>
            sbind (SQLITE_STATEMENT_EXPECT api rc SQLITE_DONE h) (\<lambda>_ h.
            sbind (DB_FINALIZE_STATEMENT api statement' h) (\<lambda>_ h. (Val (api_column_int api q1 0 = 1), h))))"
        unfolding r(2) s2 prod.case
        by (intro reported_sbind [OF reported_macros(4) [OF ok old2(2) e2 [OF r(1)]]]
            reported_sbind [OF reported_macros(3) [OF ok]]) simp_all
    qed
  qed
  then show ?thesis by (simp add: db_flight_exists_def csimps)
qed

lemma reported_add_ticket:
  "sqlite_ok api rd \<Longrightarrow> console rd h = old \<Longrightarrow> reported api rd old (add_ticket api fid h)"
  by (auto simp: add_ticket_def csimps intro!: reported_sbind reported_macros)

lemma console_exec: "sqlite_ok api rd \<Longrightarrow> console rd (snd (api_exec api sql h)) = console rd h"
  using report_console(5) by (metis prod.collapse)

lemma reported_purchase:
  assumes ok: "sqlite_ok api rd" and old: "console rd h = old"
  shows "reported api rd old (db_purchase api fid h)"
  by (auto simp: db_purchase_def Let_def console_exec [OF ok] old
      intro!: reported_sbind reported_flight_exists [OF ok] reported_add_ticket [OF ok])

lemma reported_cancel:
  "sqlite_ok api rd \<Longrightarrow> console rd h = old \<Longrightarrow> reported api rd old (db_cancel api rid h)"
  by (auto simp: db_cancel_def remove_ticket_def csimps intro!: reported_sbind reported_macros)

lemma reported_add_flight:
  "sqlite_ok api rd \<Longrightarrow> console rd h = old \<Longrightarrow>
   reported api rd old (db_add_flight api dep og dest h)"
  by (auto simp: db_add_flight_def csimps intro!: reported_sbind reported_macros)

text \<open>The loop prints nothing, however long it runs, and stops at the last row or at a failure.\<close>

definition quiet_stop ::
    "('h, 'q) sqlite \<Rightarrow> ('h, 'q) reading \<Rightarrow> string \<Rightarrow> (int \<times> nat \<times> datagram \<times> 'q) cres \<times> 'h \<Rightarrow> bool" where
  "quiet_stop api rd old res \<longleftrightarrow>
     console rd (snd res) = old \<and>
     (case fst res of
        Val (rc, _) \<Rightarrow> rc \<noteq> SQLITE_DONE \<longrightarrow>
          failed api ''Couldn't step through statement: '' rc (api_errmsg api (snd res)) (snd res)
      | Exit k \<Rightarrow> False
      | Crash \<Rightarrow> True)"

lemma consult_loop_quiet:
  fixes api :: "('h, 'q) sqlite"
  assumes run: "consult_loop api stk n dg q h = Some res" and ok: "sqlite_ok api rd"
  shows "quiet_stop api rd (console rd h) res"
proof -
  have "sqlite_ok api rd \<longrightarrow> quiet_stop api rd (console rd h) res"
  proof (rule consult_loop.raw_induct [OF _ run, where P = "\<lambda>api stk n dg q h res. sqlite_ok api rd \<longrightarrow>
        quiet_stop api rd (console rd h) res"], intro impI)
    fix loop :: "('h, 'q) sqlite \<Rightarrow> (nat \<Rightarrow> char) \<Rightarrow> nat \<Rightarrow> datagram \<Rightarrow> 'q \<Rightarrow> 'h \<Rightarrow>
        ((int \<times> nat \<times> datagram \<times> 'q) cres \<times> 'h) option"
    fix api :: "('h, 'q) sqlite" and stk n dg q h res
    assume IH: "\<And>api stk n dg q h res. loop api stk n dg q h = Some res \<Longrightarrow> sqlite_ok api rd \<longrightarrow>
          quiet_stop api rd (console rd h) res"
      and step: "(case api_step api q h of (rc, q, h) \<Rightarrow>
          if rc = SQLITE_ROW
          then (case put_result n (row_entry api stk q) dg of
                  None \<Rightarrow> Some (Crash, h) | Some dg \<Rightarrow> loop api stk (Suc n) dg q h)
          else Some (Val (rc, n, dg, q), h)) = Some res"
      and ok: "sqlite_ok api rd"
    obtain rc q1 h1 where s: "api_step api q h = (rc, q1, h1)" by (metis prod.collapse)
    show "quiet_stop api rd (console rd h) res"
      using step IH [THEN mp, OF _ ok] report_console(7) [OF ok s] failed_step [OF s]
      by (auto simp: s quiet_stop_def split: if_splits option.splits)
  qed
  with ok show ?thesis by blast
qed

lemma reported_consult:
  assumes ok: "sqlite_ok api rd" and run: "db_consult_flights b jk api og dest h = Some m"
  shows "reported api rd (console rd h) m"
proof -
  let ?p = "sbind (consult_query og dest h) (\<lambda>query h. DB_PREPARE_STATEMENT api query h)"
  obtain r h1 where p: "?p = (r, h1)" by force
  have rep: "reported api rd (console rd h) (r, h1)"
    unfolding p [symmetric] by (auto simp: csimps intro!: reported_macros [OF ok])
  show ?thesis
  proof (cases r)
    case (Val q)
    obtain res h2 where loop: "consult_loop api (stack jk) 0
        (malloc_dg b (heap jk) DATAGRAM_MAXSIZE) q h1 = Some (res, h2)"
      using run p Val by (auto simp: db_consult_flights_eq Let_def split: option.splits)
    have stop: "quiet_stop api rd (console rd h) (res, h2)"
      using consult_loop_quiet [OF loop ok] rep Val by simp
    then have "reported api rd (console rd h) (res, h2)"
      by (cases res) (auto simp: quiet_stop_def)
    then show ?thesis
      using run p Val loop stop
      by (auto simp: db_consult_flights_eq Let_def quiet_stop_def
          intro!: reported_sbind reported_exit reported_macros [OF ok])
  qed (use run p rep in \<open>auto simp: db_consult_flights_eq intro: reported_other\<close>)
qed

lemma reported_switch:
  assumes ok: "sqlite_ok api rd" and run: "execute_switch b hp (sqlite_ops b jk api) d h = Some m"
  shows "reported api rd (console rd h) m"
  using run
  by (auto simp: execute_switch_def sqlite_ops_def Let_def split: if_splits option.splits
      intro!: reported_sbind reported_consult [OF ok] reported_purchase [OF ok] reported_cancel [OF ok]
        reported_add_flight [OF ok])

lemma reported_execute:
  assumes ok: "sqlite_ok api rd" and run: "execute_datagram b hp (sqlite_ops b jk api) d h = Some m"
  shows "reported api rd (console rd h) m"
proof -
  obtain m' where m': "execute_switch b hp (sqlite_ops b jk api) d h = Some m'"
    and m: "m = sbind m' (\<lambda>ans h. (Val (map_option (copy_sender b d) ans), h))"
    using run by (auto simp: execute_datagram_def)
  show ?thesis unfolding m by (rule reported_sbind [OF reported_switch [OF ok m']]) simp
qed

lemma execute_quiet:
  "sqlite_ok api rd \<Longrightarrow> execute_datagram b hp (sqlite_ops b jk api) d h = Some (Val x, h') \<Longrightarrow>
   console rd h' = console rd h"
  using reported_execute [of api rd b hp jk d h "(Val x, h')"] by simp

text \<open>
  C19: the server never ends silently in the database code: while it executes a request it prints
  nothing, and if it exits, a call of the library has failed, the status is 1 and exactly one line has
  been printed, between that call and the close of the database: the words for the kind of the call and
  the library's text for its failure, which describes the code the call returned (unless that is
  \<open>SQLITE_MISUSE\<close>, for which the library promises no text).
\<close>

theorem exits_are_reported:
  assumes "sqlite_ok api rd" "errmsg_spec api describes"
    and "execute_datagram b hp (sqlite_ops b jk api) d h = Some (r, h')"
  shows "(\<forall>n. r = Exit n \<longrightarrow> n = 1 \<and>
      (\<exists>what rc msg h1. failed api what rc msg h1 \<and> console rd h1 = console rd h \<and>
         (primary_code rc \<noteq> code_number R_MISUSE \<longrightarrow> describes rc msg) \<and>
         h' \<in> last_words api what msg h1 \<and>
         console rd h' = console rd h @ ''[DATABASE] '' @ what @ msg @ nl)) \<and>
    ((\<forall>n. r \<noteq> Exit n) \<longrightarrow> console rd h' = console rd h)"
proof (intro conjI allI impI)
  note rep = reported_execute [OF assms(1,3)]
  show "n = 1" if "r = Exit n" for n using rep that by (simp add: reported_def)
  show "\<exists>what rc msg h1. failed api what rc msg h1 \<and> console rd h1 = console rd h \<and>
         (primary_code rc \<noteq> code_number R_MISUSE \<longrightarrow> describes rc msg) \<and> h' \<in> last_words api what msg h1 \<and>
         console rd h' = console rd h @ ''[DATABASE] '' @ what @ msg @ nl" if e: "r = Exit n" for n
  proof -
    obtain what rc msg h1 where f: "failed api what rc msg h1" "console rd h1 = console rd h"
        "h' \<in> last_words api what msg h1"
      using rep e by (auto simp: reported_def)
    with assms(2) last_words_console [OF assms(1) f(3)] show ?thesis unfolding errmsg_spec_def by metis
  qed
  show "console rd h' = console rd h" if "\<forall>n. r \<noteq> Exit n"
    using rep that by (cases r) simp_all
qed

text \<open>A cancellation while somebody else has the lock; the text of the engine is \<open>error\<close>, whatever fails.\<close>

lemma locked_errmsg: "errmsg_spec locked_api (\<lambda>rc msg. msg = ''error'')"
  by (auto simp: errmsg_spec_def locked_api_def ref_api_def elim!: failed.cases)

lemma locked_exec_only: "failed locked_api what rc msg h \<Longrightarrow> msg = ''error''"
  by (auto simp: locked_api_def ref_api_def elim!: failed.cases)

theorem exits_are_reported_witness:
  "\<exists>h' what. execute_datagram SHMEM (heap ex_junk) (sqlite_ops SHMEM ex_junk locked_api)
      (a_cancel SHMEM (heap ex_junk)) ex_state = Some (Exit 1, h') \<and>
    ref_console h' = ''[DATABASE] '' @ what @ ''error'' @ nl"
proof -
  have "lock_spec locked_api ref_reading (\<lambda>_. True)"
    by (simp add: lock_spec_def locked_api_def read_script_text)
  from DB_EXEC_locked [OF locked_sqlite_ok this, of "Delete_ticket 1" ex_state]
  obtain h' where "DB_EXEC locked_api (stmt_text (Delete_ticket 1)) ex_state = (Exit 1, h')" by auto
  then have run: "execute_datagram SHMEM (heap ex_junk) (sqlite_ops SHMEM ex_junk locked_api)
      (a_cancel SHMEM (heap ex_junk)) ex_state = Some (Exit 1, h')"
    by (simp add: execute_datagram_def execute_switch_def a_cancel_def sqlite_ops_def Let_def
        db_cancel_def remove_ticket_def csimps)
  have "ref_console ex_state = []" by (simp add: ex_state_def)
  with exits_are_reported [OF locked_sqlite_ok locked_errmsg run] run locked_exec_only show ?thesis
    by fastforce
qed

end
