(* ===== verification/Filesig.thy ===== *)
theory Filesig
  imports Files
begin

text \<open>
  \<open>ipc/filesig.c\<close>: an abandoned draft of the transport over files, which no Makefile names.  It keeps
  \<open>FILE\<close> pointers in the session and hands them to \<open>lseek\<close>, \<open>write\<close> and \<open>read\<close>, which take
  descriptors: the call gets the low 32 bits of the address.  Its signal handler, unlike that of
  \<open>ipc/files.c\<close>, leaves a mark (\<open>waiting = 0\<close>), so that a signal that comes early is not lost.
  Modelled is everything but \<open>ipc_receive\<close>, which no compiler accepts (it casts a pointer to a
  structure).
\<close>

section \<open>State\<close>

text \<open>
  To the files and signals of \<open>Files\<close> this adds the open streams, the global \<open>waiting\<close> and the
  handler of SIGUSR1 of each process, the processes a signal ended, and the processes that a
  \<open>kill\<close> with a number that is not positive reaches.
\<close>

record filesig_state = files_state +
  streams :: "i64 \<Rightarrow> int option"         \<comment> \<open>address of the \<open>FILE\<close> to its description\<close>
  flag_waiting :: "int \<Rightarrow> bool"
  handled :: "int \<Rightarrow> bool"
  ended :: "int \<Rightarrow> bool"
  kill_group :: "int \<Rightarrow> int set"

record filesig_session =
  server_file :: i64
  requests_file :: i64

definition get_file_name :: "i32 \<Rightarrow> string cres" where
  "get_file_name pid =
     cbind (deref (sprintf 16 ''%d%s'' [AInt pid, AStr ''.txt''])) (\<lambda>aux.
     cbind (deref (sprintf 32 ''./files/'' [])) (\<lambda>dir.
       if length dir + length aux < 32 then Val (dir @ aux) else Crash))"

definition filesig_ipc_newsession :: "filesig_session \<Rightarrow> filesig_session" where
  "filesig_ipc_newsession junk = junk"

section \<open>Streams\<close>

text \<open>\<open>fopen (path, "w")\<close> creates the file or empties it; \<open>ptr\<close> is the block the library allocates.\<close>

definition fopen_w :: "i64 \<Rightarrow> string \<Rightarrow> 'z filesig_state_scheme \<Rightarrow> i64 \<times> 'z filesig_state_scheme" where
  "fopen_w ptr path s =
     (case open_rdwr path True s of (fd, s) \<Rightarrow>
        if fd = -1 then (0, s)
        else
          (ptr, s\<lparr>file_bytes :=
                   (case file_names s path of
                      None \<Rightarrow> file_bytes s | Some i \<Rightarrow> (file_bytes s)(i := [])),
                 streams := (streams s)(ptr := Some fd)\<rparr>))"

definition stream_close :: "i64 \<Rightarrow> ('z filesig_state_scheme, unit) proc" where
  "stream_close ptr = access (\<lambda>s.
     map_option (\<lambda>fd. ((), files_close fd (s\<lparr>streams := (streams s)(ptr := None)\<rparr>))) (streams s ptr))"

text \<open>A pointer where an \<open>int\<close> is expected.\<close>

definition ptr_int :: "i64 \<Rightarrow> int" where
  "ptr_int p = sint (ucast p :: i32)"

definition lseek_set :: "int \<Rightarrow> nat \<Rightarrow> 'z files_state_scheme \<Rightarrow> 'z files_state_scheme" where
  "lseek_set fd n s =
     (case desc_of fd s of
        None \<Rightarrow> s
      | Some (i, off) \<Rightarrow> s\<lparr>descs := (descs s)(nat fd := Some (i, n))\<rparr>)"

section \<open>Signals\<close>

definition request_received :: "int \<Rightarrow> 'z filesig_state_scheme \<Rightarrow> 'z filesig_state_scheme" where
  "request_received pid s = s\<lparr>flag_waiting := (flag_waiting s)(pid := False)\<rparr>"

definition signal_handler :: "int \<Rightarrow> 'z filesig_state_scheme \<Rightarrow> 'z filesig_state_scheme" where
  "signal_handler pid s = s\<lparr>handled := (handled s)(pid := True)\<rparr>"

text \<open>SIGUSR1 for one process: the handler runs and a \<open>pause\<close> ends; without handler the process does.\<close>

definition usr1_arrives :: "int \<Rightarrow> 'z filesig_state_scheme \<Rightarrow> 'z filesig_state_scheme" where
  "usr1_arrives pid s =
     (if handled s pid then
        (let s = request_received pid s
         in if waiting s pid then s\<lparr>woken := (woken s)(pid := True)\<rparr> else s)
      else s\<lparr>ended := (ended s)(pid := True)\<rparr>)"

definition kill_usr1_any :: "int \<Rightarrow> int list \<Rightarrow> 'z filesig_state_scheme \<Rightarrow> 'z filesig_state_scheme" where
  "kill_usr1_any pid alive s =
     fold usr1_arrives (filter (\<lambda>p. if 0 < pid then p = pid else p \<in> kill_group s pid) alive) s"

text \<open>
  \<open>while (waiting) pause ();\<close>: \<open>pause\<close> is \<open>sigsuspend\<close> with the mask as it is.  The fuel is the number
  of times the condition is looked at; a process that has none left stays where it is.
\<close>

primrec pause_while :: "nat \<Rightarrow> int \<Rightarrow> ('z filesig_state_scheme, unit) proc" where
  "pause_while 0 pid = sys (\<lambda>s. None)"
| "pause_while (Suc n) pid =
     pbind (sys (\<lambda>s. Some (flag_waiting s pid, s))) (\<lambda>w.
       if w then pseq (sigsuspend pid) (pause_while n pid) else Ret ())"

section \<open>The interface\<close>

definition start_waiting :: "int \<Rightarrow> 'z filesig_state_scheme \<Rightarrow> 'z filesig_state_scheme" where
  "start_waiting pid s = s\<lparr>flag_waiting := (flag_waiting s)(pid := True)\<rparr>"

definition put_mark :: "i64 \<Rightarrow> ('z filesig_state_scheme, unit) proc" where
  "put_mark ptr =
     pseq (upd (lseek_set (ptr_int ptr) (1024 * 1024)))
          (upd (\<lambda>s. snd (file_write (ptr_int ptr) [CHR 0x01] s)))"

definition filesig_ipc_listen ::
    "i64 \<Rightarrow> i64 \<Rightarrow> int \<Rightarrow> filesig_session \<Rightarrow> ('z filesig_state_scheme, int \<times> filesig_session) proc" where
  "filesig_ipc_listen ptr1 ptr2 pid session =
     pbind (sys (\<lambda>s. Some (fopen_w ptr1 ''./files/server_file'' s))) (\<lambda>f.
     pbind (sys (\<lambda>s. Some (fopen_w ptr2 ''./files/requests_file'' s))) (\<lambda>g.
     let session = session\<lparr>server_file := f, requests_file := g\<rparr> in
     pseq (put_mark (server_file session))
    (pseq (put_mark (requests_file session))
    (pseq (upd (signal_handler pid))
    (pseq (upd (start_waiting pid))
          (Ret (0, session)))))))"

definition filesig_ipc_accept :: "nat \<Rightarrow> int \<Rightarrow> filesig_session \<Rightarrow> ('z filesig_state_scheme, unit) proc" where
  "filesig_ipc_accept fuel pid session =
     pseq (pause_while fuel pid)
    (pseq (upd (start_waiting pid))
          (upd (signal_handler pid)))"

definition filesig_ipc_sync :: "filesig_session \<Rightarrow> ('z filesig_state_scheme, unit) proc" where
  "filesig_ipc_sync session = Ret ()"

definition filesig_ipc_waitsync :: "filesig_session \<Rightarrow> ('z filesig_state_scheme, unit) proc" where
  "filesig_ipc_waitsync session = Ret ()"

text \<open>\<open>stk\<close>: the four bytes of the local \<open>server_pid\<close> before the call; \<open>read\<close> replaces the first ones.\<close>

definition filesig_ipc_connect ::
    "bytes \<Rightarrow> int list \<Rightarrow> filesig_session \<Rightarrow> ('z filesig_state_scheme, int) proc" where
  "filesig_ipc_connect stk alive session =
     pbind (sys (\<lambda>s. Some (file_read (ptr_int (server_file session)) 4 s))) (\<lambda>data.
     let bs = (case data of None \<Rightarrow> [] | Some bs \<Rightarrow> bs);
         server_pid = sint (rd4 (bs @ drop (length bs) stk))
     in pseq (upd (kill_usr1_any server_pid alive)) (Ret 0))"

definition filesig_ipc_send :: "filesig_session \<Rightarrow> datagram \<Rightarrow> ('z filesig_state_scheme, int) proc" where
  "filesig_ipc_send session data = Ret 0"

definition filesig_ipc_disconnect :: "filesig_session \<Rightarrow> ('z filesig_state_scheme, unit) proc" where
  "filesig_ipc_disconnect session = Ret ()"

definition filesig_ipc_free :: "filesig_session \<Rightarrow> ('z filesig_state_scheme, unit) proc" where
  "filesig_ipc_free session =
     pseq (stream_close (server_file session))
    (pseq (stream_close (requests_file session))
    (pseq (upd (files_unlink ''./files/server_file''))
          (upd (files_unlink ''./files/requests_file''))))"

definition filesig_ipc_shouldfork :: bool where "filesig_ipc_shouldfork = True"

section \<open>What the draft gets right, and what not\<close>

text \<open>The name of a client's file fits its block for every process number.\<close>

lemma file_name_fits: "get_file_name pid = Val (''./files/'' @ dec (sint pid) @ ''.txt'')"
  using length_dec_i32 [of pid]
  by (simp add: get_file_name_def sprintf_def)

text \<open>
  A signal that comes before the server waits is remembered: \<open>ipc_accept\<close> returns at once.  One look
  at the flag is enough then, and two are when the process is woken from its \<open>pause\<close>, since the
  handler that wakes it has cleared the flag.
\<close>

lemma early_signal_kept:
  assumes "handled s pid" "0 < fuel"
  shows "\<exists>s'. run_proc (filesig_ipc_accept fuel pid session) (usr1_arrives pid s) = (Done (), s') \<and>
    flag_waiting s' pid \<and> handled s' pid"
proof -
  obtain n where "fuel = Suc n" using assms(2) by (cases fuel) auto
  moreover have "\<not> flag_waiting (usr1_arrives pid s) pid"
    using assms(1) by (simp add: usr1_arrives_def request_received_def Let_def)
  ultimately show ?thesis
    by (simp add: filesig_ipc_accept_def pseq_def upd_def sys_def start_waiting_def signal_handler_def)
qed

lemma pause_ends:
  assumes "handled s pid" "waiting s pid" "0 < fuel"
  shows "fst (run_proc (pseq (sys (\<lambda>s. if woken s pid
       then Some ((), s\<lparr>waiting := (waiting s)(pid := False), woken := (woken s)(pid := False)\<rparr>) else None))
     (pause_while fuel pid)) (usr1_arrives pid s)) = Done ()"
proof -
  obtain n where "fuel = Suc n" using assms(3) by (cases fuel) auto
  then show ?thesis
    using assms(1,2) by (simp add: usr1_arrives_def request_received_def Let_def pseq_def)
qed

text \<open>
  The marks never reach the files: the low halves of the two addresses are numbers that name no open
  descriptor, so \<open>lseek\<close> and \<open>write\<close> fail unseen, and \<open>ipc_listen\<close> reports success.  A client then
  reads no process number: it signals whatever its stack held.
\<close>

lemma put_mark_fails:
  "desc_of (ptr_int ptr) s = None \<Longrightarrow> run_proc (put_mark ptr) s = (Done (), s)"
  by (simp add: put_mark_def pseq_def upd_def sys_def lseek_set_def file_write_def)

lemma connect_reads_nothing:
  assumes "desc_of (ptr_int (server_file session)) s = None"
  shows "run_proc (filesig_ipc_connect stk alive session) s = (Done 0, kill_usr1_any (sint (rd4 stk)) alive s)"
  using assms by (simp add: filesig_ipc_connect_def file_read_def pseq_def upd_def sys_def Let_def)

end
