(* ===== verification/Builds.thy ===== *)
theory Builds
  imports Localclient
begin

text \<open>
  The programs the Makefile builds: \<open>server/server.c\<close> and \<open>client/client.c\<close> linked with one transport
  each (\<open>SHMEM\<close>, \<open>FIFO\<close>, \<open>MSGQUEUE\<close>, \<open>SOCKET\<close>, \<open>FILES\<close>).  What the code leaves uninitialised and what
  the environment gives are parameters: the block of a new session (\<open>junk\<close>), the flags of \<open>sem_up\<close>
  (\<open>flg\<close>), the file \<open>ftok\<close> looks at (\<open>st\<close>), the arguments of the command line, the process number.
\<close>

section \<open>Servers\<close>

definition same :: "'n \<Rightarrow> ('s, unit) proc \<Rightarrow> ('s, 'n) proc" where
  "same session p = pseq p (Ret session)"

definition shm_server ::
    "file_stat \<Rightarrow> 16 word \<Rightarrow> nat \<Rightarrow> shm_session \<Rightarrow> ('z shm_state_scheme, shm_session) server_ops" where
  "shm_server st flg pid junk =
     \<lparr>so_newsession = shm_ipc_newsession junk,
      so_listen = shm_ipc_listen st,
      so_accept = (\<lambda>session. same session (shm_ipc_accept pid session)),
      so_shouldfork = shm_ipc_shouldfork,
      so_fork = shm_fork,
      so_sync = (\<lambda>child cli_count. shm_ipc_sync st flg child (sint cli_count)),
      so_waitsync = (\<lambda>session. same session (shm_ipc_waitsync pid session)),
      so_io = (\<lambda>child session. io_of (shm_receive_ptr SERVER child session)
                 (shm_ipc_send SERVER flg child session) (shm_ipc_disconnect SERVER session)),
      so_disconnect = shm_ipc_disconnect SERVER,
      so_free = shm_ipc_free SERVER\<rparr>"

text \<open>With pipes a write without a reader runs the handler of SIGPIPE, which cleans up and exits.\<close>

definition fifo_sigpipe :: "fifo_session \<Rightarrow> ('z fifo_state_scheme, int) proc" where
  "fifo_sigpipe session = pseq (fifo_ipc_disconnect SERVER session) (pseq (fifo_ipc_free SERVER session) (Halt 0))"

definition fifo_server ::
    "file_stat \<Rightarrow> (nat \<Rightarrow> char) \<Rightarrow> 16 word \<Rightarrow> nat \<Rightarrow> fifo_session \<Rightarrow>
     ('z fifo_state_scheme, fifo_session) server_ops" where
  "fifo_server st hp flg pid junk =
     \<lparr>so_newsession = fifo_ipc_newsession junk,
      so_listen = fifo_ipc_listen st,
      so_accept = fifo_ipc_accept,
      so_shouldfork = fifo_ipc_shouldfork,
      so_fork = fifo_fork,
      so_sync = (\<lambda>child cli_count session. fifo_ipc_sync hp flg (fifo_sigpipe session) child cli_count session),
      so_waitsync = (\<lambda>session. same session (fifo_ipc_waitsync pid session)),
      so_io = (\<lambda>child session. io_of (fifo_ipc_receive SERVER session)
                 (fifo_ipc_send SERVER (fifo_sigpipe session) session) (fifo_ipc_disconnect SERVER session)),
      so_disconnect = fifo_ipc_disconnect SERVER,
      so_free = fifo_ipc_free SERVER\<rparr>"

definition mq_server ::
    "file_stat \<Rightarrow> (nat \<Rightarrow> char) \<Rightarrow> i32 \<Rightarrow> msg_session \<Rightarrow> (msg_state, msg_session) server_ops" where
  "mq_server st hp pid junk =
     \<lparr>so_newsession = msg_ipc_newsession junk,
      so_listen = msg_ipc_listen st,
      so_accept = (\<lambda>session. same session (msg_ipc_accept hp pid session)),
      so_shouldfork = msg_ipc_shouldfork,
      so_fork = (\<lambda>session s. s),
      so_sync = (\<lambda>child cli_count session. same session (msg_ipc_sync session)),
      so_waitsync = (\<lambda>session. same session (msg_ipc_waitsync session)),
      so_io = (\<lambda>child session. io_of (msg_ipc_receive SERVER hp pid session)
                 (msg_ipc_send SERVER pid session) (msg_ipc_disconnect SERVER session)),
      so_disconnect = msg_ipc_disconnect SERVER,
      so_free = msg_ipc_free\<rparr>"

definition sock_server :: "string list \<Rightarrow> sock_session \<Rightarrow> (sock_state, sock_session) server_ops" where
  "sock_server args junk =
     \<lparr>so_newsession = sock_ipc_newsession junk,
      so_listen = sock_ipc_listen args,
      so_accept = sock_ipc_accept,
      so_shouldfork = sock_ipc_shouldfork,
      so_fork = (\<lambda>session. sock_fork (so_otherfd session)),
      so_sync = (\<lambda>child cli_count. sock_ipc_sync),
      so_waitsync = sock_ipc_waitsync,
      so_io = (\<lambda>child session. io_of (sock_ipc_receive SERVER session) (sock_ipc_send SERVER session)
                 (pseq (sock_ipc_disconnect SERVER session) (Ret ()))),
      so_disconnect = (\<lambda>session. pseq (sock_ipc_disconnect SERVER session) (Ret ())),
      so_free = sock_ipc_free\<rparr>"

definition files_server ::
    "file_stat \<Rightarrow> (nat \<Rightarrow> char) \<Rightarrow> 16 word \<Rightarrow> (nat \<Rightarrow> i32) \<Rightarrow> nat \<Rightarrow> files_session \<Rightarrow>
     ('z files_state_scheme, files_session) server_ops" where
  "files_server st hp flg getpid pid junk =
     \<lparr>so_newsession = files_ipc_newsession junk,
      so_listen = files_ipc_listen st,
      so_accept = files_ipc_accept (getpid pid),
      so_shouldfork = files_ipc_shouldfork,
      so_fork = (\<lambda>session. files_fork (fi_serverfd session)),
      so_sync = (\<lambda>child. files_ipc_sync hp flg child (getpid child)),
      so_waitsync = (\<lambda>session. same session (files_ipc_waitsync pid session)),
      so_io = (\<lambda>child session. io_of (files_ipc_receive (sint (getpid child)) session)
                 (files_ipc_send session) (files_ipc_disconnect SERVER session)),
      so_disconnect = files_ipc_disconnect SERVER,
      so_free = files_ipc_free SERVER\<rparr>"

section \<open>Clients\<close>

text \<open>\<open>ipc_connect\<close> on a new session, and the functions of the session it leaves.\<close>

definition connected ::
    "('s, int \<times> 'n) proc \<Rightarrow> ('n \<Rightarrow> 's client_io) \<Rightarrow> ('s, int \<times> 's client_io) proc" where
  "connected p io = pbind p (\<lambda>(err, session). Ret (err, io session))"

definition shm_client ::
    "file_stat \<Rightarrow> 16 word \<Rightarrow> nat \<Rightarrow> shm_session \<Rightarrow>
     ('z shm_state_scheme, int \<times> 'z shm_state_scheme client_io) proc" where
  "shm_client st flg pid junk =
     connected (shm_ipc_connect st flg pid (shm_ipc_newsession junk)) (\<lambda>session.
       \<lparr>ci_send = shm_ipc_send CLIENT flg pid session, ci_receive = shm_receive_ptr CLIENT pid session,
        ci_disconnect = shm_ipc_disconnect CLIENT session, ci_free = shm_ipc_free CLIENT session\<rparr>)"

text \<open>A client leaves SIGPIPE as it is: the process ends.\<close>

definition killed :: "('s, int) proc" where
  "killed = Halt 141"

definition fifo_client ::
    "(nat \<Rightarrow> char) \<Rightarrow> fifo_session \<Rightarrow> ('z fifo_state_scheme, int \<times> 'z fifo_state_scheme client_io) proc" where
  "fifo_client hp junk =
     connected (fifo_ipc_connect hp killed (fifo_ipc_newsession junk)) (\<lambda>session.
       \<lparr>ci_send = fifo_ipc_send CLIENT killed session, ci_receive = fifo_ipc_receive CLIENT session,
        ci_disconnect = fifo_ipc_disconnect CLIENT session, ci_free = fifo_ipc_free CLIENT session\<rparr>)"

definition mq_client ::
    "file_stat \<Rightarrow> (nat \<Rightarrow> char) \<Rightarrow> i32 \<Rightarrow> msg_session \<Rightarrow> (msg_state, int \<times> msg_state client_io) proc" where
  "mq_client st hp pid junk =
     connected (msg_ipc_connect st hp pid (msg_ipc_newsession junk)) (\<lambda>session.
       \<lparr>ci_send = msg_ipc_send CLIENT pid session, ci_receive = msg_ipc_receive CLIENT hp pid session,
        ci_disconnect = msg_ipc_disconnect CLIENT session, ci_free = msg_ipc_free session\<rparr>)"

definition sock_client :: "string list \<Rightarrow> sock_session \<Rightarrow> (sock_state, int \<times> sock_state client_io) proc" where
  "sock_client args junk =
     connected (sock_ipc_connect args (sock_ipc_newsession junk)) (\<lambda>session.
       \<lparr>ci_send = sock_ipc_send CLIENT session, ci_receive = sock_ipc_receive CLIENT session,
        ci_disconnect = pseq (sock_ipc_disconnect CLIENT session) (Ret ()), ci_free = sock_ipc_free session\<rparr>)"

definition files_client ::
    "(nat \<Rightarrow> char) \<Rightarrow> bytes \<Rightarrow> i32 \<Rightarrow> files_session \<Rightarrow>
     ('z files_state_scheme, int \<times> 'z files_state_scheme client_io) proc" where
  "files_client hp stk getpid junk =
     connected (files_ipc_connect hp stk getpid (files_ipc_newsession junk)) (\<lambda>session.
       \<lparr>ci_send = files_ipc_send session, ci_receive = files_ipc_receive (sint getpid) session,
        ci_disconnect = files_ipc_disconnect CLIENT session, ci_free = files_ipc_free CLIENT session\<rparr>)"

end
