(* ===== verification/Connect.thy ===== *)
theory Connect
  imports ShmemLaws
begin

text \<open>
  The connection over shared memory, client and server interleaved: \<open>ipc_listen\<close>, \<open>ipc_accept\<close>, the
  fork, \<open>ipc_sync\<close> in the child, \<open>ipc_waitsync\<close> in the parent, and \<open>ipc_connect\<close>.

  The steps are followed on an abstraction of the system: the names, the contents of the segments and
  the values of the semaphores, without the counts of attachments and the adjustments.
\<close>

section \<open>The abstraction\<close>

record shm_view =
  v_ids :: "i32 \<Rightarrow> int option"
  v_segs :: "int \<Rightarrow> bytes option"
  v_next :: int
  v_sids :: "i32 \<Rightarrow> int option"
  v_sets :: "int \<Rightarrow> nat list option"
  v_snext :: int

definition live_seg :: "shm_seg option \<Rightarrow> bytes option" where
  "live_seg x = (case x of None \<Rightarrow> None | Some g \<Rightarrow> if seg_removed g then None else Some (seg_bytes g))"

definition vw :: "'z shm_state_scheme \<Rightarrow> shm_view" where
  "vw s = \<lparr>v_ids = shm_ids s, v_segs = (\<lambda>i. live_seg (shm_segs s i)), v_next = shm_next s,
           v_sids = sem_ids s, v_sets = sem_sets s, v_snext = sem_next s\<rparr>"

definition roomy :: "'z shm_state_scheme \<Rightarrow> bool" where
  "roomy s \<longleftrightarrow> shm_room s \<and> sem_room s"

text \<open>A process that, run alone where the system looks like \<open>w\<close>, returns and leaves it like \<open>w'\<close>.\<close>

definition does :: "('z shm_state_scheme, 'a) proc \<Rightarrow> shm_view \<Rightarrow> 'a \<Rightarrow> shm_view \<Rightarrow> bool" where
  "does p w x w' \<longleftrightarrow>
     (\<forall>s. vw s = w \<longrightarrow> roomy s \<longrightarrow> (\<exists>s'. run_proc p s = (Done x, s') \<and> vw s' = w' \<and> roomy s'))"

lemma does_Ret: "does (Ret x) w x w"
  by (simp add: does_def)

lemma does_bind:
  assumes "does p w x w1" "does (k x) w1 y w2"
  shows "does (pbind p k) w y w2"
  unfolding does_def
proof (intro allI impI)
  fix s :: "'a shm_state_scheme" assume "vw s = w" "roomy s"
  then obtain s1 where "run_proc p s = (Done x, s1)" "vw s1 = w1" "roomy s1"
    using assms(1) unfolding does_def by blast
  moreover from this obtain s2 where "run_proc (k x) s1 = (Done y, s2)" "vw s2 = w2" "roomy s2"
    using assms(2) unfolding does_def by blast
  ultimately show "\<exists>s'. run_proc (pbind p k) s = (Done y, s') \<and> vw s' = w2 \<and> roomy s'"
    by (simp add: run_proc_bind)
qed

lemma does_seq: "does p w x w1 \<Longrightarrow> does q w1 y w2 \<Longrightarrow> does (pseq p q) w y w2"
  unfolding pseq_def by (rule does_bind)

lemma does_sys:
  assumes "\<And>s. vw s = w \<Longrightarrow> roomy s \<Longrightarrow> \<exists>s'. f s = Some (x, s') \<and> vw s' = w' \<and> roomy s'"
  shows "does (sys f) w x w'"
  unfolding does_def
proof (intro allI impI)
  fix s :: "'a shm_state_scheme" assume "vw s = w" "roomy s"
  with assms obtain s' where "f s = Some (x, s')" "vw s' = w' \<and> roomy s'" by blast
  then show "\<exists>s'. run_proc (sys f) s = (Done x, s') \<and> vw s' = w' \<and> roomy s'" by (simp add: sys_def)
qed

lemma vw_D:
  assumes "vw s = w"
  shows "shm_ids s = v_ids w" "live_seg (shm_segs s i) = v_segs w i" "shm_next s = v_next w"
    "sem_ids s = v_sids w" "sem_sets s = v_sets w" "sem_next s = v_snext w"
  using assms by (auto simp: vw_def)

lemma live_seg_Some: "live_seg x = Some b \<longleftrightarrow> (\<exists>g. x = Some g \<and> \<not> seg_removed g \<and> seg_bytes g = b)"
  by (auto simp: live_seg_def split: option.splits)

section \<open>What each call does\<close>

lemma vw_seg_upd:
  "vw (s\<lparr>shm_segs := (shm_segs s)(m := Some g)\<rparr>) =
     (vw s)\<lparr>v_segs := (v_segs (vw s))(m := live_seg (Some g))\<rparr>"
  by (auto simp: vw_def intro!: ext)

lemma vw_set_upd: "vw (s\<lparr>sem_sets := f, sem_adj := a\<rparr>) = (vw s)\<lparr>v_sets := f\<rparr>" "vw (s\<lparr>sem_sets := f\<rparr>) = (vw s)\<lparr>v_sets := f\<rparr>"
  by (simp_all add: vw_def)

lemma does_shmget:
  assumes "v_ids w k = Some m" "v_segs w m = Some b" "length b = SHMEM_SIZE" "k \<noteq> IPC_PRIVATE"
  shows "does (sys (\<lambda>s. Some (shmget k SHMEM_SIZE False False s))) w m w"
proof (rule does_sys)
  fix s :: "'a shm_state_scheme" assume s: "vw s = w" "roomy s"
  obtain g where "shm_segs s m = Some g" "seg_bytes g = b"
    using vw_D(2) [OF s(1), of m] assms(2) by (auto simp: live_seg_Some)
  moreover have "shm_ids s k = Some m" using vw_D(1) [OF s(1)] assms(1) by simp
  ultimately show "\<exists>s'. Some (shmget k SHMEM_SIZE False False s) = Some (m, s') \<and> vw s' = w \<and> roomy s'"
    using s assms(3,4) by (simp add: shmget_def)
qed

lemma does_get:
  assumes "v_ids w k = Some m" "v_segs w m = Some b" "length b = SHMEM_SIZE" "k \<noteq> IPC_PRIVATE" "m \<noteq> -1"
  shows "does (shmem_get_with_key session k) w (session\<lparr>ss_memid := m\<rparr>) w"
  unfolding shmem_get_with_key_def shmem_init_with_key_def
  by (rule does_bind [OF does_shmget [OF assms(1-4)]]) (use assms(5) in \<open>simp add: does_Ret\<close>)

lemma does_create:
  assumes "v_ids w k = None" "k \<noteq> IPC_PRIVATE" "v_next w \<noteq> -1"
  shows "does (shmem_create_with_key session k) w (session\<lparr>ss_memid := v_next w\<rparr>)
    (w\<lparr>v_ids := (v_ids w)(k := Some (v_next w)),
       v_segs := (v_segs w)(v_next w := Some (replicate SHMEM_SIZE NUL)), v_next := v_next w + 1\<rparr>)"
    (is "does _ _ _ ?w'")
  unfolding shmem_create_with_key_def shmem_init_with_key_def
proof (rule does_bind [where x = "v_next w"])
  show "does (sys (\<lambda>s. Some (shmget k SHMEM_SIZE True True s))) w (v_next w) ?w'"
    by (rule does_sys)
       (use assms in \<open>auto simp: shmget_def vw_def roomy_def live_seg_def intro!: ext split: option.splits\<close>)
qed (use assms in \<open>simp add: does_Ret\<close>)

lemma does_store:
  assumes "v_segs w a = Some b" "poke off bs b = Some b'"
  shows "does (store a off bs) w () (w\<lparr>v_segs := (v_segs w)(a := Some b')\<rparr>)"
  unfolding does_def
proof (intro allI impI)
  fix s :: "'a shm_state_scheme" assume s: "vw s = w" "roomy s"
  obtain g where g: "shm_segs s a = Some g" "\<not> seg_removed g" "seg_bytes g = b"
    using vw_D(2) [OF s(1), of a] assms(1) by (auto simp: live_seg_Some)
  then have "run_proc (store a off bs) s =
      (Done (), s\<lparr>shm_segs := (shm_segs s)(a := Some (g\<lparr>seg_bytes := b'\<rparr>))\<rparr>)"
    using assms(2) by (simp add: store_def access_def shm_store_def)
  then show "\<exists>s'. run_proc (store a off bs) s = (Done (), s') \<and>
      vw s' = w\<lparr>v_segs := (v_segs w)(a := Some b')\<rparr> \<and> roomy s'"
    using s g(2) by (simp add: vw_seg_upd live_seg_def roomy_def)
qed

lemma does_load:
  assumes "v_segs w a = Some b" "peek off n b = Some bs"
  shows "does (load a off n) w bs w"
  unfolding does_def
proof (intro allI impI)
  fix s :: "'a shm_state_scheme" assume s: "vw s = w" "roomy s"
  obtain g where "shm_segs s a = Some g" "seg_bytes g = b"
    using vw_D(2) [OF s(1), of a] assms(1) by (auto simp: live_seg_Some)
  then show "\<exists>s'. run_proc (load a off n) s = (Done bs, s') \<and> vw s' = w \<and> roomy s'"
    using assms(2) s by (simp add: load_def access_def shm_load_def)
qed

lemma vw_attached:
  assumes "vw s = w" "v_segs w m = Some b"
  shows "\<exists>g. shm_segs s m = Some g \<and> \<not> seg_removed g \<and>
    (\<forall>n. vw (s\<lparr>shm_segs := (shm_segs s)(m := Some (g\<lparr>seg_att := n\<rparr>))\<rparr>) = w)"
proof -
  obtain g where g: "shm_segs s m = Some g" "\<not> seg_removed g" "seg_bytes g = b"
    using vw_D(2) [OF assms(1), of m] assms(2) by (auto simp: live_seg_Some)
  moreover have "vw (s\<lparr>shm_segs := (shm_segs s)(m := Some (g\<lparr>seg_att := n\<rparr>))\<rparr>) = w" for n
    unfolding vw_seg_upd using assms g by (simp add: live_seg_def fun_upd_idem)
  ultimately show ?thesis by blast
qed

lemma does_shmat:
  assumes "v_segs w m = Some b"
  shows "does (sys (\<lambda>s. Some (shmat m s))) w m w"
proof (rule does_sys)
  fix s :: "'a shm_state_scheme" assume s: "vw s = w" "roomy s"
  with vw_attached [OF s(1) assms] show "\<exists>s'. Some (shmat m s) = Some (m, s') \<and> vw s' = w \<and> roomy s'"
    by (auto simp: shmat_def roomy_def)
qed

lemma does_attach:
  assumes "v_segs w (ss_memid session) = Some b" "length b = SHMEM_SIZE"
  shows "does (shmem_attach session) w (session\<lparr>ss_alloc := ss_memid session\<rparr>)
    (w\<lparr>v_segs := (v_segs w)(ss_memid session := Some (replicate SHMEM_SIZE NUL))\<rparr>)"
proof -
  have "poke 0 (replicate SHMEM_SIZE NUL) b = Some (replicate SHMEM_SIZE NUL)"
    using assms(2) by (simp add: poke_0)
  from does_bind [OF does_store [OF assms(1) this] does_Ret]
  show ?thesis unfolding shmem_attach_def by (rule does_bind [OF does_shmat [OF assms(1)]])
qed

lemma does_detach:
  assumes "v_segs w (ss_alloc session) = Some b"
  shows "does (shmem_detach session) w () w"
  unfolding shmem_detach_def upd_def
proof (rule does_sys)
  fix s :: "'a shm_state_scheme" assume s: "vw s = w" "roomy s"
  with vw_attached [OF s(1) assms]
  show "\<exists>s'. Some ((), shmdt (ss_alloc session) s) = Some ((), s') \<and> vw s' = w \<and> roomy s'"
    by (auto simp: shmdt_def roomy_def)
qed

lemma does_fork:
  assumes "v_segs w (ss_alloc session) = Some b"
  shows "does (upd (shm_fork session)) w () w"
  unfolding shm_fork_def upd_def
proof (rule does_sys)
  fix s :: "'a shm_state_scheme" assume s: "vw s = w" "roomy s"
  with vw_attached [OF s(1) assms]
  show "\<exists>s'. Some ((), snd (shmat (ss_alloc session) s)) = Some ((), s') \<and> vw s' = w \<and> roomy s'"
    by (auto simp: shmat_def roomy_def)
qed

text \<open>Semaphores.\<close>

lemma does_sem_old:
  assumes "v_sids w k = Some e" "v_sets w e = Some vs" "n \<le> length vs" "0 \<le> e" "k \<noteq> IPC_PRIVATE"
  shows "does (sem_init_with_key k n) w e w"
  unfolding sem_init_with_key_def
proof (rule does_bind [where x = e and ?w1.0 = w])
  show "does (sys (\<lambda>s. Some (semget k n False s))) w e w"
    by (rule does_sys) (use assms in \<open>auto simp: semget_def vw_def\<close>)
qed (use assms(4) in \<open>simp add: does_Ret\<close>)

definition with_sem :: "i32 \<Rightarrow> nat \<Rightarrow> shm_view \<Rightarrow> shm_view" where
  "with_sem k n w = w\<lparr>v_sids := (v_sids w)(k := Some (v_snext w)),
     v_sets := (v_sets w)(v_snext w := Some (replicate n 0)), v_snext := v_snext w + 1\<rparr>"

lemma does_sem_new:
  assumes "v_sids w k = None" "0 < n" "0 \<le> v_snext w" "k \<noteq> IPC_PRIVATE"
  shows "does (sem_init_with_key k n) w (v_snext w) (with_sem k n w)"
  unfolding sem_init_with_key_def
proof (rule does_bind)
  show "does (sys (\<lambda>s. Some (semget k n False s))) w (-1) w"
    by (rule does_sys) (use assms in \<open>auto simp: semget_def vw_def\<close>)
  have "does (sys (\<lambda>s. Some (semget k n True s))) w (v_snext w) (with_sem k n w)"
    by (rule does_sys) (use assms in \<open>auto simp: semget_def new_set_def vw_def roomy_def with_sem_def\<close>)
  then have "does (pbind (sys (\<lambda>s. Some (semget k n True s)))
      (\<lambda>semid. if semid = -1 then Halt 1 else Ret semid)) w (v_snext w) (with_sem k n w)"
    by (rule does_bind) (use assms(3) in \<open>simp add: does_Ret\<close>)
  then show "does (if 0 \<le> (-1 :: int) then Ret (-1) else pbind (sys (\<lambda>s. Some (semget k n True s)))
      (\<lambda>semid. if semid = -1 then Halt 1 else Ret semid)) w (v_snext w) (with_sem k n w)"
    by (simp del: pbind_sys)
qed

lemma queue_init_key: "sem_queue_init st n = sem_init_with_key (ftok st 0xFF) n"
  by (simp add: sem_queue_init_def sem_init_with_key_def Let_def)

lemma does_set:
  assumes "v_sets w e = Some vs" "n < length vs"
  shows "does (sem_set e n v) w () (w\<lparr>v_sets := (v_sets w)(e := Some (vs[n := v]))\<rparr>)"
  unfolding sem_set_def upd_def
  by (rule does_sys) (use assms in \<open>auto simp: semctl_SETVAL_def vw_def roomy_def\<close>)

lemma does_down:
  assumes "v_sets w e = Some vs" "n < length vs" "0 < vs ! n" "vs ! n \<le> 32768"
  shows "does (sem_down pid e n) w () (w\<lparr>v_sets := (v_sets w)(e := Some (vs[n := vs ! n - 1]))\<rparr>)"
  unfolding sem_down_def
  by (rule does_sys) (use assms in \<open>auto simp: semop_def vw_def roomy_def add_adj_def nat_diff_distrib\<close>)

lemma does_up:
  assumes "v_sets w e = Some vs" "n < length vs" "vs ! n < 32767"
  shows "does (sem_up flg pid e n) w () (w\<lparr>v_sets := (v_sets w)(e := Some (vs[n := vs ! n + 1]))\<rparr>)"
  unfolding sem_up_def
  by (rule does_sys) (use assms in \<open>auto simp: semop_def vw_def roomy_def add_adj_def nat_add_distrib\<close>)

end
