(* ===== verification/Handshake.thy ===== *)
theory Handshake
  imports Connect
begin

text \<open>
  A client connects to a server over shared memory: the calls of \<open>server.c\<close> and \<open>client.c\<close> as
  processes that interleave.  One interleaving ends with both sides connected; in another the server
  resets the semaphores after the client has raised them, and both wait for ever.
\<close>

section \<open>Steps of one process among others\<close>

lemma sys_step_at:
  "i < length ps \<Longrightarrow> ps ! i = Act f \<Longrightarrow> f s = Some (s', q) \<Longrightarrow> sys_step (s, ps) (s', ps[i := q])"
  by (rule sys_step.intros [of i]) simp

lemma run_reach:
  "run_proc p s = (Done x, s') \<Longrightarrow> i < length ps \<Longrightarrow> ps ! i = pbind p k \<Longrightarrow>
   sys_step\<^sup>*\<^sup>* (s, ps) (s', ps[i := k x])"
proof (induction p arbitrary: s ps rule: proc_induct)
  case (Ret y)
  then have "ps[i := k x] = ps" by (metis Pair_inject list_update_id outcome.inject(1) pbind.simps(1) run_proc.simps(1))
  with Ret show ?case by simp
next
  case (Act f)
  obtain s1 q where f: "f s = Some (s1, q)" using Act.prems(1) by (cases "f s") auto
  have "sys_step (s, ps) (s1, ps[i := pbind q k])"
    by (rule sys_step_at [OF Act.prems(2,3) [unfolded pbind.simps]]) (simp add: f)
  moreover have "sys_step\<^sup>*\<^sup>* (s1, ps[i := pbind q k]) (s', ps[i := pbind q k, i := k x])"
    by (rule Act.IH [OF f]) (use Act.prems f in simp_all)
  ultimately show ?case by (simp add: converse_rtranclp_into_rtranclp)
qed simp_all

lemma reach_does:
  assumes "does p w x w'" "vw s = w" "roomy s" "i < length ps" "ps ! i = pbind p k"
  shows "\<exists>s'. sys_step\<^sup>*\<^sup>* (s, ps) (s', ps[i := k x]) \<and> vw s' = w' \<and> roomy s'"
  using assms(1-3) run_reach [OF _ assms(4,5)] unfolding does_def by blast

section \<open>The processes\<close>

text \<open>What each process has in the end.\<close>

datatype ended = Accepted | Synced nat shm_session | Connected int shm_session

text \<open>One round of \<open>accept_loop\<close> in \<open>Server\<close>, up to the loop of the child.\<close>

definition hs_server ::
    "file_stat \<Rightarrow> 16 word \<Rightarrow> nat \<Rightarrow> int \<Rightarrow> shm_session \<Rightarrow> ('z shm_state_scheme, ended) proc" where
  "hs_server st flg pid cli_count session =
     pseq (shm_ipc_accept pid session)
    (pseq (upd (shm_fork session))
          (Fork (\<lambda>child. pbind (shm_ipc_sync st flg child cli_count session) (\<lambda>s. Ret (Synced child s)))
                (\<lambda>child. pseq (shm_ipc_waitsync pid session) (Ret Accepted))))"

definition hs_client ::
    "file_stat \<Rightarrow> 16 word \<Rightarrow> nat \<Rightarrow> shm_session \<Rightarrow> ('z shm_state_scheme, ended) proc" where
  "hs_client st flg pid session =
     pbind (shm_ipc_connect st flg pid session) (\<lambda>(r, s). Ret (Connected r s))"

text \<open>The parts between the calls at which a process waits for the other side.\<close>

definition connect_request ::
    "file_stat \<Rightarrow> 16 word \<Rightarrow> nat \<Rightarrow> shm_session \<Rightarrow> ('z shm_state_scheme, shm_session) proc" where
  "connect_request st flg pid session =
     pbind (shmem_get_with_key session (ftok st 0)) (\<lambda>session.
     pbind (shmem_attach session) (\<lambda>session.
     pbind (sem_init st 2) (\<lambda>semid.
     pbind (sem_queue_init st 2) (\<lambda>queueid.
     let session = session\<lparr>ss_semid := semid, ss_queueid := queueid\<rparr> in
     pseq (sem_down pid (ss_queueid session) SEM_QUEUE)
    (pseq (sem_up flg pid (ss_semid session) SEM_CLIENT)
    (pseq (store (ss_alloc session) 0 (le8 (of_nat (SIZEOF_DG SHMEM))))
    (pseq (store (ss_alloc session) 8 (le4 (opc OP_CONNECT)))
    (pseq (sem_up flg pid (ss_semid session) SEM_CLIENT)
          (Ret session)))))))))"

definition connect_answer ::
    "16 word \<Rightarrow> nat \<Rightarrow> shm_session \<Rightarrow> ('z shm_state_scheme, int \<times> shm_session) proc" where
  "connect_answer flg pid session =
     pbind (load (ss_alloc session) 12 4) (\<lambda>shmemkey.
     pseq (store (ss_alloc session) 0 (replicate SHMEM_SIZE NUL))
    (pseq (shmem_detach session)
    (let oldsemid = ss_semid session in
     pbind (shmem_get_with_key session (rd4 shmemkey)) (\<lambda>session.
     pbind (shmem_attach session) (\<lambda>session.
     pbind (sem_init_with_key (rd4 shmemkey) 2) (\<lambda>semid.
     let session = session\<lparr>ss_semid := semid\<rparr> in
     pseq (sem_up flg pid oldsemid SEM_CLIENT)
    (pseq (sem_up flg pid (ss_queueid session) SEM_QUEUE)
          (Ret (0, session)))))))))"

definition sync_reply ::
    "file_stat \<Rightarrow> 16 word \<Rightarrow> nat \<Rightarrow> int \<Rightarrow> shm_session \<Rightarrow> ('z shm_state_scheme, shm_session) proc" where
  "sync_reply st flg pid cli_count session =
     pseq (sem_down pid (ss_semid session) SEM_CLIENT)
    (pbind (load (ss_alloc session) 8 4) (\<lambda>opcode.
       if rd4 opcode \<noteq> opc OP_CONNECT then Halt 1
       else
         pseq (store (ss_alloc session) 12 (le4 (ftok st cli_count)))
        (pbind (load (ss_alloc session) 12 4) (\<lambda>shmemkey.
         pseq (shmem_detach session)
        (let oldsemid = ss_semid session in
         pbind (shmem_create_with_key session (rd4 shmemkey)) (\<lambda>session.
         pbind (shmem_attach session) (\<lambda>session.
         pbind (sem_init_with_key (rd4 shmemkey) 2) (\<lambda>semid.
         let session = session\<lparr>ss_semid := semid\<rparr> in
         pseq (sem_reset session)
        (pseq (sem_up flg pid oldsemid SEM_SERVER)
              (Ret session))))))))))"

lemmas proc_parts = pseq_def pbind_assoc Let_def

lemma connect_parts:
  "shm_ipc_connect st flg pid session =
     pbind (connect_request st flg pid session) (\<lambda>session.
     pseq (sem_down pid (ss_semid session) SEM_SERVER) (connect_answer flg pid session))"
  by (simp add: shm_ipc_connect_def connect_request_def connect_answer_def proc_parts)

lemma pbind_if: "pbind (if b then p else q) k = (if b then pbind p k else pbind q k)"
  by simp

lemma sync_parts:
  "shm_ipc_sync st flg pid cli_count session =
     pbind (sync_reply st flg pid cli_count session) (\<lambda>session'.
     pseq (sem_down pid (ss_semid session) SEM_CLIENT)
    (pseq (sem_up flg pid (ss_queueid session') SEM_SRV_QUEUE)
          (Ret session')))"
  by (simp add: shm_ipc_sync_def sync_reply_def proc_parts pbind_if cong: if_cong)

section \<open>The keys\<close>

text \<open>
  The high byte of a key is the number it was made with: the public objects have 0, the queue of the
  clients 255, and the client \<open>cli_count\<close> its number modulo 256.
\<close>

lemma ftok_eq:
  "ftok (Some f) i = ftok (Some f) j \<longleftrightarrow> i mod 256 = j mod 256"
proof -
  have t: "take_bit LENGTH(32) (x mod 256 * 16777216) = x mod 256 * 16777216" for x :: int
    using pos_mod_bound [of 256 x] pos_mod_sign [of 256 x] by (intro take_bit_int_eq_self) simp_all
  have "(word_of_int (i mod 256 * 16777216) :: i32) = word_of_int (j mod 256 * 16777216) \<longleftrightarrow>
      i mod 256 * 16777216 = j mod 256 * 16777216"
    unfolding word_of_int_eq_iff t by (rule refl)
  then show ?thesis by (cases f) (simp add: ftok_def)
qed

text \<open>No object has one of the keys yet, and the client's is neither the public one nor the queue's.\<close>

definition fresh_keys :: "file_stat \<Rightarrow> int \<Rightarrow> shm_view \<Rightarrow> bool" where
  "fresh_keys st c w \<longleftrightarrow>
     (\<exists>f. st = Some f) \<and> 0 < c mod 256 \<and> c mod 256 < 255 \<and>
     (\<forall>i. ftok st i \<noteq> IPC_PRIVATE \<and> v_ids w (ftok st i) = None \<and> v_sids w (ftok st i) = None) \<and>
     0 \<le> v_next w \<and> 0 \<le> v_snext w"

lemma fresh_keysD:
  assumes "fresh_keys st c w"
  shows "ftok st c \<noteq> ftok st 0" "ftok st c \<noteq> ftok st 255" "ftok st 255 \<noteq> ftok st 0"
    "ftok st i \<noteq> IPC_PRIVATE" "v_ids w (ftok st i) = None" "v_sids w (ftok st i) = None"
    "0 \<le> v_next w" "0 \<le> v_snext w"
  using assms unfolding fresh_keys_def by (auto simp: ftok_eq)

section \<open>What the system looks like on the way\<close>

abbreviation zeroed :: bytes where "zeroed \<equiv> replicate SHMEM_SIZE NUL"

text \<open>After \<open>ipc_listen\<close>: the contents of the public segment, the semaphores, the queue.\<close>

definition public_view :: "file_stat \<Rightarrow> shm_view \<Rightarrow> bytes \<Rightarrow> nat list \<Rightarrow> nat list \<Rightarrow> shm_view" where
  "public_view st w b vs qs =
     \<lparr>v_ids = (v_ids w)(ftok st 0 := Some (v_next w)), v_segs = (v_segs w)(v_next w := Some b),
      v_next = v_next w + 1,
      v_sids = (v_sids w)(ftok st 0 := Some (v_snext w), ftok st 255 := Some (v_snext w + 1)),
      v_sets = (v_sets w)(v_snext w := Some vs, v_snext w + 1 := Some qs),
      v_snext = v_snext w + 2\<rparr>"

text \<open>With the segment and the semaphores of the client.\<close>

definition private_view ::
    "file_stat \<Rightarrow> int \<Rightarrow> shm_view \<Rightarrow> bytes \<Rightarrow> nat list \<Rightarrow> nat list \<Rightarrow> bytes \<Rightarrow> nat list \<Rightarrow> shm_view" where
  "private_view st c w b vs qs pb ps =
     \<lparr>v_ids = (v_ids w)(ftok st 0 := Some (v_next w), ftok st c := Some (v_next w + 1)),
      v_segs = (v_segs w)(v_next w := Some b, v_next w + 1 := Some pb), v_next = v_next w + 2,
      v_sids = (v_sids w)(ftok st 0 := Some (v_snext w), ftok st 255 := Some (v_snext w + 1),
                          ftok st c := Some (v_snext w + 2)),
      v_sets = (v_sets w)(v_snext w := Some vs, v_snext w + 1 := Some qs, v_snext w + 2 := Some ps),
      v_snext = v_snext w + 3\<rparr>"

definition public_session :: "shm_view \<Rightarrow> shm_session" where
  "public_session w = \<lparr>ss_semid = v_snext w, ss_queueid = v_snext w + 1, ss_memid = v_next w, ss_alloc = v_next w\<rparr>"

definition private_session :: "shm_view \<Rightarrow> shm_session" where
  "private_session w =
     \<lparr>ss_semid = v_snext w + 2, ss_queueid = v_snext w + 1, ss_memid = v_next w + 1, ss_alloc = v_next w + 1\<rparr>"

lemma session_members:
  "ss_semid (public_session w) = v_snext w" "ss_queueid (public_session w) = v_snext w + 1"
  "ss_memid (public_session w) = v_next w" "ss_alloc (public_session w) = v_next w"
  "ss_semid (private_session w) = v_snext w + 2" "ss_queueid (private_session w) = v_snext w + 1"
  "ss_memid (private_session w) = v_next w + 1" "ss_alloc (private_session w) = v_next w + 1"
  by (simp_all add: public_session_def private_session_def)

lemma session_all:
  "junk\<lparr>ss_memid := m, ss_alloc := a, ss_semid := e, ss_queueid := q\<rparr> =
   \<lparr>ss_semid = e, ss_queueid = q, ss_memid = m, ss_alloc = a\<rparr>"
  by (cases junk) simp

lemmas views = public_view_def private_view_def public_session_def private_session_def

text \<open>A call that is made on one of these views gives another one.\<close>

lemma does_to: "does p w x w1 \<Longrightarrow> x = y \<Longrightarrow> w1 = w2 \<Longrightarrow> does p w y w2"
  by simp

lemma zeroed_poke: "length b = SHMEM_SIZE \<Longrightarrow> poke 0 zeroed b = Some zeroed"
  by (simp add: poke_0)

text \<open>The calls on the public objects, before and after the private ones exist.\<close>

lemma public_ops:
  "n < length qs \<Longrightarrow>
    does (sem_set (v_snext w + 1) n v) (public_view st w b vs qs) () (public_view st w b vs (qs[n := v]))"
  "n < length vs \<Longrightarrow>
    does (sem_set (v_snext w) n v) (public_view st w b vs qs) () (public_view st w b (vs[n := v]) qs)"
  "n < length qs \<Longrightarrow> 0 < qs ! n \<Longrightarrow> qs ! n \<le> 32768 \<Longrightarrow>
    does (sem_down pid (v_snext w + 1) n) (public_view st w b vs qs) ()
      (public_view st w b vs (qs[n := qs ! n - 1]))"
  "n < length vs \<Longrightarrow> 0 < vs ! n \<Longrightarrow> vs ! n \<le> 32768 \<Longrightarrow>
    does (sem_down pid (v_snext w) n) (public_view st w b vs qs) ()
      (public_view st w b (vs[n := vs ! n - 1]) qs)"
  "n < length vs \<Longrightarrow> vs ! n < 32767 \<Longrightarrow>
    does (sem_up flg pid (v_snext w) n) (public_view st w b vs qs) ()
      (public_view st w b (vs[n := vs ! n + 1]) qs)"
  "poke off bs b = Some b' \<Longrightarrow>
    does (store (v_next w) off bs) (public_view st w b vs qs) () (public_view st w b' vs qs)"
  "peek off m b = Some bs \<Longrightarrow>
    does (load (v_next w) off m) (public_view st w b vs qs) bs (public_view st w b vs qs)"
  by (rule does_to [OF does_set] does_to [OF does_down] does_to [OF does_up] does_to [OF does_store]
        does_load; simp add: public_view_def fun_eq_iff)+

lemma private_ops:
  "n < length ps \<Longrightarrow>
    does (sem_set (v_snext w + 2) n v) (private_view st c w b vs qs pb ps) ()
      (private_view st c w b vs qs pb (ps[n := v]))"
  "n < length qs \<Longrightarrow> 0 < qs ! n \<Longrightarrow> qs ! n \<le> 32768 \<Longrightarrow>
    does (sem_down pid (v_snext w + 1) n) (private_view st c w b vs qs pb ps) ()
      (private_view st c w b vs (qs[n := qs ! n - 1]) pb ps)"
  "n < length vs \<Longrightarrow> 0 < vs ! n \<Longrightarrow> vs ! n \<le> 32768 \<Longrightarrow>
    does (sem_down pid (v_snext w) n) (private_view st c w b vs qs pb ps) ()
      (private_view st c w b (vs[n := vs ! n - 1]) qs pb ps)"
  "n < length vs \<Longrightarrow> vs ! n < 32767 \<Longrightarrow>
    does (sem_up flg pid (v_snext w) n) (private_view st c w b vs qs pb ps) ()
      (private_view st c w b (vs[n := vs ! n + 1]) qs pb ps)"
  "n < length qs \<Longrightarrow> qs ! n < 32767 \<Longrightarrow>
    does (sem_up flg pid (v_snext w + 1) n) (private_view st c w b vs qs pb ps) ()
      (private_view st c w b vs (qs[n := qs ! n + 1]) pb ps)"
  "poke off bs b = Some b' \<Longrightarrow>
    does (store (v_next w) off bs) (private_view st c w b vs qs pb ps) ()
      (private_view st c w b' vs qs pb ps)"
  "peek off m b = Some bs \<Longrightarrow>
    does (load (v_next w) off m) (private_view st c w b vs qs pb ps) bs (private_view st c w b vs qs pb ps)"
  by (rule does_to [OF does_set] does_to [OF does_down] does_to [OF does_up] does_to [OF does_store]
        does_load; simp add: private_view_def fun_eq_iff)+

section \<open>Listening and asking\<close>

lemma listen_does:
  assumes "fresh_keys st c w"
  shows "does (shm_ipc_listen st junk) w (0, public_session w) (public_view st w zeroed [0, 0] [1, 0])"
proof -
  note k = fresh_keysD [OF assms]
  let ?w1 = "w\<lparr>v_ids := (v_ids w)(ftok st 0 := Some (v_next w)), v_segs := (v_segs w)(v_next w := Some zeroed),
      v_next := v_next w + 1\<rparr>"
  let ?w2 = "with_sem (ftok st 0) 2 ?w1"
  let ?s = "junk\<lparr>ss_memid := v_next w, ss_alloc := v_next w\<rparr>"
  have 1: "does (shmem_create_with_key junk (ftok st 0)) w (junk\<lparr>ss_memid := v_next w\<rparr>) ?w1"
    by (rule does_create) (use k in auto)
  have 2: "does (shmem_attach (junk\<lparr>ss_memid := v_next w\<rparr>)) ?w1 ?s ?w1"
    by (rule does_to [OF does_attach]) simp+
  have 3: "does (sem_init st 2) ?w1 (v_snext w) ?w2"
    unfolding sem_init_def by (rule does_to [OF does_sem_new]) (use k in simp_all)
  have 4: "does (sem_queue_init st 2) ?w2 (v_snext w + 1) (public_view st w zeroed [0, 0] [0, 0])"
    unfolding queue_init_key
    by (rule does_to [OF does_sem_new]) (use k in \<open>simp_all add: with_sem_def public_view_def numeral_2_eq_2\<close>)
  have "does (pseq (sem_set (v_snext w + 1) SEM_QUEUE 1) (pseq (sem_set (v_snext w + 1) SEM_SRV_QUEUE 0)
      (Ret (0 :: int, public_session w)))) (public_view st w zeroed [0, 0] [0, 0]) (0, public_session w)
      (public_view st w zeroed [0, 0] [1, 0])"
    by (rule does_to [OF does_seq [OF public_ops(1) does_seq [OF public_ops(1) does_Ret]]])
       (simp_all add: sem_numbers)
  then show ?thesis
    unfolding shm_ipc_listen_def Let_def
    by (intro does_bind [OF 1] does_bind [OF 2] does_bind [OF 3] does_bind [OF 4])
       (simp add: session_all public_session_def)
qed

text \<open>The request the client puts into the public segment.\<close>

definition asked :: bytes where
  "asked = le8 (of_nat (SIZEOF_DG SHMEM)) @ le4 (opc OP_CONNECT) @ replicate (SHMEM_SIZE - 12) NUL"

lemma asked_pokes:
  "poke 0 (le8 x) zeroed = Some (le8 x @ replicate (SHMEM_SIZE - 8) NUL)"
  "poke 8 (le4 y) (le8 x @ replicate (SHMEM_SIZE - 8) NUL) = Some (le8 x @ le4 y @ replicate (SHMEM_SIZE - 12) NUL)"
  by (simp_all add: poke_def layout)

lemma request_does:
  assumes "fresh_keys st c w"
  shows "does (connect_request st flg pid junk) (public_view st w zeroed [0, 0] [1, 0]) (public_session w)
    (public_view st w asked [0, 2] [0, 0])"
proof -
  note k = fresh_keysD [OF assms]
  let ?v = "public_view st w zeroed [0, 0] [1, 0]"
  let ?s = "junk\<lparr>ss_memid := v_next w, ss_alloc := v_next w\<rparr>"
  have 1: "does (shmem_get_with_key junk (ftok st 0)) ?v (junk\<lparr>ss_memid := v_next w\<rparr>) ?v"
    by (rule does_get) (use k in \<open>simp add: public_view_def; fail\<close>)+
  have 2: "does (shmem_attach (junk\<lparr>ss_memid := v_next w\<rparr>)) ?v ?s ?v"
    by (rule does_to [OF does_attach]) (simp add: public_view_def)+
  have 3: "does (sem_init st 2) ?v (v_snext w) ?v"
    unfolding sem_init_def by (rule does_sem_old) (use k in \<open>simp add: public_view_def; fail\<close>)+
  have 4: "does (sem_queue_init st 2) ?v (v_snext w + 1) ?v"
    unfolding queue_init_key by (rule does_sem_old) (use k in \<open>simp add: public_view_def; fail\<close>)+
  have "does (pseq (sem_down pid (v_snext w + 1) SEM_QUEUE) (pseq (sem_up flg pid (v_snext w) SEM_CLIENT)
      (pseq (store (v_next w) 0 (le8 (of_nat (SIZEOF_DG SHMEM)))) (pseq (store (v_next w) 8 (le4 (opc OP_CONNECT)))
      (pseq (sem_up flg pid (v_snext w) SEM_CLIENT) (Ret (public_session w))))))) ?v (public_session w)
      (public_view st w asked [0, 2] [0, 0])"
    by (rule does_to [OF does_seq [OF public_ops(3) does_seq [OF public_ops(5) does_seq [OF
          public_ops(6) [OF asked_pokes(1)] does_seq [OF public_ops(6) [OF asked_pokes(2)]
          does_seq [OF public_ops(5) does_Ret]]]]]])
       (simp_all add: sem_numbers asked_def numeral_2_eq_2)
  then show ?thesis
    unfolding connect_request_def Let_def
    by (intro does_bind [OF 1] does_bind [OF 2] does_bind [OF 3] does_bind [OF 4])
       (simp add: session_all public_session_def)
qed

section \<open>Replying\<close>

lemma reset_does:
  "does (sem_reset (public_session w)) (public_view st w b [x, y] qs) () (public_view st w b [0, 0] qs)"
  unfolding sem_reset_def session_members
  by (rule does_to [OF does_seq [OF public_ops(2) public_ops(2)]]) (simp_all add: sem_numbers)

text \<open>The reply: the key of the private segment in the place of \<open>_data\<close>.\<close>

definition replied :: "file_stat \<Rightarrow> int \<Rightarrow> bytes" where
  "replied st c = le8 (of_nat (SIZEOF_DG SHMEM)) @ le4 (opc OP_CONNECT) @ le4 (ftok st c) @
     replicate (SHMEM_SIZE - 16) NUL"

lemma replied_poke: "poke 12 (le4 (ftok st c)) asked = Some (replied st c)"
  by (simp add: poke_def asked_def replied_def layout)

lemma rd4_le4_only [simp]: "rd4 (le4 x) = x"
  using rd4_le4 [of x "[]"] by simp

lemma replied_peeks:
  "peek 8 4 asked = Some (le4 (opc OP_CONNECT))" "peek 12 4 (replied st c) = Some (le4 (ftok st c))"
  by (simp_all add: peek_def asked_def replied_def layout)

lemma reply_does:
  assumes "fresh_keys st c w"
  shows "does (sync_reply st flg pid c (public_session w)) (public_view st w asked [0, 1] qs)
    (private_session w) (private_view st c w (replied st c) [1, 0] qs zeroed [0, 0])"
proof -
  note k = fresh_keysD [OF assms]
  let ?p = "public_session w" let ?v = "public_view st w (replied st c) [0, 0] qs"
  let ?s = "?p\<lparr>ss_memid := v_next w + 1\<rparr>"
  let ?v1 = "?v\<lparr>v_ids := (v_ids ?v)(ftok st c := Some (v_next w + 1)),
      v_segs := (v_segs ?v)(v_next w + 1 := Some zeroed), v_next := v_next w + 2\<rparr>"
  let ?v2 = "private_view st c w (replied st c) [0, 0] qs zeroed [0, 0]"
  have 1: "does (shmem_detach ?p) ?v () ?v"
    by (rule does_detach) (simp add: views)
  have 2: "does (shmem_create_with_key ?p (ftok st c)) ?v ?s ?v1"
    by (rule does_to [OF does_create]) (use k in \<open>simp_all add: public_view_def\<close>)
  have 3: "does (shmem_attach ?s) ?v1 (?s\<lparr>ss_alloc := v_next w + 1\<rparr>) ?v1"
    by (rule does_to [OF does_attach]) simp+
  have 4: "does (sem_init_with_key (ftok st c) 2) ?v1 (v_snext w + 2) ?v2"
    by (rule does_to [OF does_sem_new]) (use k in \<open>simp_all add: with_sem_def views numeral_2_eq_2\<close>)
  have 5: "does (pseq (sem_reset (private_session w)) (pseq (sem_up flg pid (v_snext w) SEM_SERVER)
      (Ret (private_session w)))) ?v2 (private_session w) (private_view st c w (replied st c) [1, 0] qs zeroed [0, 0])"
    unfolding sem_reset_def session_members
    by (rule does_to [OF does_seq [OF does_seq [OF private_ops(1) private_ops(1)]
          does_seq [OF private_ops(4) does_Ret]]])
       (simp_all add: sem_numbers)
  have "does (pbind (shmem_create_with_key ?p (ftok st c)) (\<lambda>session. pbind (shmem_attach session) (\<lambda>session.
      pbind (sem_init_with_key (ftok st c) 2) (\<lambda>semid.
      pseq (sem_reset (session\<lparr>ss_semid := semid\<rparr>)) (pseq (sem_up flg pid (v_snext w) SEM_SERVER)
      (Ret (session\<lparr>ss_semid := semid\<rparr>))))))) ?v (private_session w) (private_view st c w (replied st c) [1, 0] qs zeroed [0, 0])"
    by (intro does_bind [OF 2] does_bind [OF 3] does_bind [OF 4])
       (use 5 in \<open>simp add: public_session_def private_session_def\<close>)
  note rest = does_seq [OF 1 this]
  have "does (pseq (store (v_next w) 12 (le4 (ftok st c))) (pbind (load (v_next w) 12 4) (\<lambda>shmemkey.
      pseq (shmem_detach ?p) (pbind (shmem_create_with_key ?p (rd4 shmemkey)) (\<lambda>session.
      pbind (shmem_attach session) (\<lambda>session. pbind (sem_init_with_key (rd4 shmemkey) 2) (\<lambda>semid.
      pseq (sem_reset (session\<lparr>ss_semid := semid\<rparr>)) (pseq (sem_up flg pid (v_snext w) SEM_SERVER)
      (Ret (session\<lparr>ss_semid := semid\<rparr>)))))))))) (public_view st w asked [0, 0] qs)
      (private_session w) (private_view st c w (replied st c) [1, 0] qs zeroed [0, 0])"
    by (rule does_seq [OF public_ops(6) [OF replied_poke] does_bind [OF public_ops(7) [OF replied_peeks(2)]]])
       (use rest in simp)
  moreover have "does (sem_down pid (v_snext w) SEM_CLIENT) (public_view st w asked [0, 1] qs) ()
      (public_view st w asked [0, 0] qs)"
    by (rule does_to [OF public_ops(4)]) (simp_all add: sem_numbers)
  ultimately show ?thesis
    unfolding sync_reply_def Let_def
    by (intro does_seq) (auto intro!: does_bind [OF public_ops(7) [OF replied_peeks(1)]] simp: public_session_def)
qed

section \<open>The client's end of it\<close>

lemma answer_does:
  assumes "fresh_keys st c w"
  shows "does (pseq (sem_down pid (v_snext w) SEM_SERVER) (connect_answer flg pid (public_session w)))
    (private_view st c w (replied st c) [1, 0] [0, 0] zeroed [0, 0]) (0, private_session w)
    (private_view st c w zeroed [0, 1] [1, 0] zeroed [0, 0])"
proof -
  note k = fresh_keysD [OF assms]
  let ?p = "public_session w" let ?v = "private_view st c w zeroed [0, 0] [0, 0] zeroed [0, 0]"
  let ?s = "?p\<lparr>ss_memid := v_next w + 1\<rparr>"
  have 1: "does (sem_down pid (v_snext w) SEM_SERVER) (private_view st c w (replied st c) [1, 0] [0, 0] zeroed [0, 0]) ()
      (private_view st c w (replied st c) [0, 0] [0, 0] zeroed [0, 0])"
    by (rule does_to [OF private_ops(3)]) (simp_all add: sem_numbers)
  have "length (replied st c) = SHMEM_SIZE" by (simp add: replied_def layout)
  from private_ops(6) [OF zeroed_poke [OF this]]
  have 2: "does (store (v_next w) 0 zeroed) (private_view st c w (replied st c) [0, 0] [0, 0] zeroed [0, 0]) () ?v" .
  have 3: "does (shmem_detach ?p) ?v () ?v"
    by (rule does_detach) (simp add: views)
  have 4: "does (shmem_get_with_key ?p (ftok st c)) ?v ?s ?v"
    by (rule does_get) (use k in \<open>simp add: private_view_def; fail\<close>)+
  have 5: "does (shmem_attach ?s) ?v (?s\<lparr>ss_alloc := v_next w + 1\<rparr>) ?v"
    by (rule does_to [OF does_attach]) (simp add: private_view_def)+
  have 6: "does (sem_init_with_key (ftok st c) 2) ?v (v_snext w + 2) ?v"
    by (rule does_sem_old) (use k in \<open>simp add: private_view_def; fail\<close>)+
  have 7: "does (pseq (sem_up flg pid (v_snext w) SEM_CLIENT) (pseq (sem_up flg pid (v_snext w + 1) SEM_QUEUE)
      (Ret (0 :: int, private_session w)))) ?v (0, private_session w)
      (private_view st c w zeroed [0, 1] [1, 0] zeroed [0, 0])"
    by (rule does_to [OF does_seq [OF private_ops(4) does_seq [OF private_ops(5) does_Ret]]])
       (simp_all add: sem_numbers)
  have "does (pbind (shmem_get_with_key ?p (ftok st c)) (\<lambda>session. pbind (shmem_attach session) (\<lambda>session.
      pbind (sem_init_with_key (ftok st c) 2) (\<lambda>semid.
      pseq (sem_up flg pid (v_snext w) SEM_CLIENT)
     (pseq (sem_up flg pid (ss_queueid (session\<lparr>ss_semid := semid\<rparr>)) SEM_QUEUE)
           (Ret (0 :: int, session\<lparr>ss_semid := semid\<rparr>))))))) ?v (0, private_session w)
      (private_view st c w zeroed [0, 1] [1, 0] zeroed [0, 0])"
    by (intro does_bind [OF 4] does_bind [OF 5] does_bind [OF 6])
       (use 7 in \<open>simp add: public_session_def private_session_def\<close>)
  note rest = does_seq [OF 2 does_seq [OF 3 this]]
  show ?thesis
    unfolding connect_answer_def Let_def session_members
    by (intro does_seq [OF 1] does_bind [OF private_ops(7) [OF replied_peeks(2)]]) (use rest in simp)
qed

section \<open>Connecting\<close>

lemma server_split:
  "hs_server st flg pid c session =
     pbind (sem_reset session) (\<lambda>_.
     pbind (sem_down pid (ss_semid session) SEM_CLIENT) (\<lambda>_.
     pbind (upd (shm_fork session)) (\<lambda>_.
     Fork (\<lambda>child. pbind (shm_ipc_sync st flg child c session) (\<lambda>s. Ret (Synced child s)))
          (\<lambda>child. pseq (shm_ipc_waitsync pid session) (Ret Accepted)))))"
  by (simp add: hs_server_def shm_ipc_accept_def pseq_def pbind_assoc)

lemma client_split:
  "hs_client st flg pid session =
     pbind (connect_request st flg pid session) (\<lambda>session.
     pbind (pseq (sem_down pid (ss_semid session) SEM_SERVER) (connect_answer flg pid session)) (\<lambda>(r, s).
     Ret (Connected r s)))"
  by (simp add: hs_client_def connect_parts pbind_assoc)

lemma child_split:
  "pbind (shm_ipc_sync st flg child c session) (\<lambda>s. Ret (Synced child s)) =
     pbind (sync_reply st flg child c session) (\<lambda>s.
     pbind (pseq (sem_down child (ss_semid session) SEM_CLIENT)
           (pseq (sem_up flg child (ss_queueid s) SEM_SRV_QUEUE) (Ret s))) (\<lambda>s. Ret (Synced child s)))"
  by (simp add: sync_parts pbind_assoc)

lemma child_ends:
  "does (pseq (sem_down child (ss_semid (public_session w)) SEM_CLIENT)
      (pseq (sem_up flg child (ss_queueid (private_session w)) SEM_SRV_QUEUE) (Ret (private_session w))))
    (private_view st c w zeroed [0, 1] [1, 0] zeroed [0, 0]) (private_session w)
    (private_view st c w zeroed [0, 0] [1, 1] zeroed [0, 0])"
  unfolding session_members
  by (rule does_to [OF does_seq [OF private_ops(3) does_seq [OF private_ops(5) does_Ret]]])
     (simp_all add: sem_numbers)

lemma parent_waits:
  "does (shm_ipc_waitsync pid (public_session w)) (private_view st c w zeroed [0, 0] [1, 1] zeroed [0, 0]) ()
    (private_view st c w zeroed [0, 0] [1, 0] zeroed [0, 0])"
  unfolding shm_ipc_waitsync_def session_members
  by (rule does_to [OF private_ops(2)]) (simp_all add: sem_numbers)

text \<open>The steps up to the fork: the client has asked before the server takes its first signal.\<close>

lemma accept_steps:
  fixes s :: "'z shm_state_scheme"
  assumes keys: "fresh_keys st c w" and v: "vw s = public_view st w zeroed [0, 0] [1, 0]" "roomy s"
  shows "\<exists>s'. sys_step\<^sup>*\<^sup>* (s, [hs_server st flg pid c (public_session w), hs_client st flg' pid' junk])
      (s', [pseq (shm_ipc_waitsync pid (public_session w)) (Ret Accepted),
            pbind (pseq (sem_down pid' (v_snext w) SEM_SERVER) (connect_answer flg' pid' (public_session w)))
              (\<lambda>(r, s). Ret (Connected r s)),
            pbind (shm_ipc_sync st flg 2 c (public_session w)) (\<lambda>s. Ret (Synced 2 s))]) \<and>
    vw s' = public_view st w asked [0, 1] [0, 0] \<and> roomy s'"
proof -
  let ?p = "public_session w"
  let ?fork = "Fork (\<lambda>child. pbind (shm_ipc_sync st flg child c ?p) (\<lambda>s. Ret (Synced child s)))
          (\<lambda>child. pseq (shm_ipc_waitsync pid ?p) (Ret Accepted))"
  let ?srv1 = "pbind (sem_down pid (ss_semid ?p) SEM_CLIENT) (\<lambda>_. pbind (upd (shm_fork ?p)) (\<lambda>_. ?fork))"
  let ?cl = "pbind (pseq (sem_down pid' (v_snext w) SEM_SERVER) (connect_answer flg' pid' ?p))
              (\<lambda>(r, s). Ret (Connected r s))"
  let ?c0 = "hs_client st flg' pid' junk :: ('z shm_state_scheme, ended) proc"
  obtain s1 where 1: "sys_step\<^sup>*\<^sup>* (s, [hs_server st flg pid c ?p, ?c0]) (s1, [?srv1, ?c0])"
      "vw s1 = public_view st w zeroed [0, 0] [1, 0]" "roomy s1"
    using reach_does [OF reset_does v, where i = 0 and ps = "[hs_server st flg pid c ?p, ?c0]" and k = "\<lambda>_. ?srv1"]
    by (auto simp: server_split)
  obtain s2 where 2: "sys_step\<^sup>*\<^sup>* (s1, [?srv1, ?c0]) (s2, [?srv1, ?cl])"
      "vw s2 = public_view st w asked [0, 2] [0, 0]" "roomy s2"
    using reach_does [OF request_does [OF keys] 1(2,3), where i = 1 and ps = "[?srv1, ?c0]"]
    by (force simp: client_split session_members)
  have d: "does (sem_down pid (ss_semid ?p) SEM_CLIENT) (public_view st w asked [0, 2] [0, 0]) ()
      (public_view st w asked [0, 1] [0, 0])"
    unfolding session_members by (rule does_to [OF public_ops(4)]) (simp_all add: sem_numbers)
  obtain s3 where 3: "sys_step\<^sup>*\<^sup>* (s2, [?srv1, ?cl]) (s3, [pbind (upd (shm_fork ?p)) (\<lambda>_. ?fork), ?cl])"
      "vw s3 = public_view st w asked [0, 1] [0, 0]" "roomy s3"
    using reach_does [OF d 2(2,3), where i = 0 and ps = "[?srv1, ?cl]"] by force
  have f: "does (upd (shm_fork ?p)) (public_view st w asked [0, 1] [0, 0]) () (public_view st w asked [0, 1] [0, 0])"
    by (rule does_fork) (simp add: views)
  obtain s4 where 4: "sys_step\<^sup>*\<^sup>* (s3, [pbind (upd (shm_fork ?p)) (\<lambda>_. ?fork), ?cl]) (s4, [?fork, ?cl])"
      "vw s4 = public_view st w asked [0, 1] [0, 0]" "roomy s4"
    using reach_does [OF f 3(2,3), where i = 0 and ps = "[pbind (upd (shm_fork ?p)) (\<lambda>_. ?fork), ?cl]"] by force
  have "sys_step (s4, [?fork, ?cl]) (s4, [pseq (shm_ipc_waitsync pid ?p) (Ret Accepted), ?cl,
      pbind (shm_ipc_sync st flg 2 c ?p) (\<lambda>s. Ret (Synced 2 s))])"
    by (rule sys_step.intros [of 0]) (simp add: numeral_2_eq_2)
  with 1(1) 2(1) 3(1) 4 show ?thesis by (meson rtranclp_trans rtranclp.rtrancl_into_rtrancl)
qed

lemma connect_steps:
  fixes s :: "'z shm_state_scheme"
  assumes keys: "fresh_keys st c w" and v: "vw s = public_view st w zeroed [0, 0] [1, 0]" "roomy s"
  shows "\<exists>s'. sys_step\<^sup>*\<^sup>* (s, [hs_server st flg pid c (public_session w), hs_client st flg' pid' junk])
      (s', [Ret Accepted, Ret (Connected 0 (private_session w)), Ret (Synced 2 (private_session w))]) \<and>
    vw s' = private_view st c w zeroed [0, 0] [1, 0] zeroed [0, 0]"
proof -
  let ?p = "public_session w" let ?q = "private_session w"
  let ?par = "pseq (shm_ipc_waitsync pid ?p) (Ret Accepted) :: ('z shm_state_scheme, ended) proc"
  let ?cl = "pbind (pseq (sem_down pid' (v_snext w) SEM_SERVER) (connect_answer flg' pid' ?p))
              (\<lambda>(r, s). Ret (Connected r s)) :: ('z shm_state_scheme, ended) proc"
  let ?ch = "pbind (shm_ipc_sync st flg 2 c ?p) (\<lambda>s. Ret (Synced 2 s)) :: ('z shm_state_scheme, ended) proc"
  let ?ch1 = "pbind (pseq (sem_down 2 (ss_semid ?p) SEM_CLIENT)
           (pseq (sem_up flg 2 (ss_queueid ?q) SEM_SRV_QUEUE) (Ret ?q))) (\<lambda>s. Ret (Synced 2 s)) :: ('z shm_state_scheme, ended) proc"
  obtain s1 where 1: "sys_step\<^sup>*\<^sup>* (s, [hs_server st flg pid c ?p, hs_client st flg' pid' junk]) (s1, [?par, ?cl, ?ch])"
      "vw s1 = public_view st w asked [0, 1] [0, 0]" "roomy s1"
    using accept_steps [OF keys v, of flg pid flg' pid' junk] by blast
  obtain s2 where 2: "sys_step\<^sup>*\<^sup>* (s1, [?par, ?cl, ?ch]) (s2, [?par, ?cl, ?ch1])"
      "vw s2 = private_view st c w (replied st c) [1, 0] [0, 0] zeroed [0, 0]" "roomy s2"
    using reach_does [OF reply_does [OF keys] 1(2,3), where i = 2 and ps = "[?par, ?cl, ?ch]"] by (force simp: child_split)
  obtain s3 where 3: "sys_step\<^sup>*\<^sup>* (s2, [?par, ?cl, ?ch1]) (s3, [?par, Ret (Connected 0 ?q), ?ch1])"
      "vw s3 = private_view st c w zeroed [0, 1] [1, 0] zeroed [0, 0]" "roomy s3"
    using reach_does [OF answer_does [OF keys] 2(2,3), where i = 1 and ps = "[?par, ?cl, ?ch1]"] by force
  obtain s4 where 4: "sys_step\<^sup>*\<^sup>* (s3, [?par, Ret (Connected 0 ?q), ?ch1]) (s4, [?par, Ret (Connected 0 ?q), Ret (Synced 2 ?q)])"
      "vw s4 = private_view st c w zeroed [0, 0] [1, 1] zeroed [0, 0]" "roomy s4"
    using reach_does [OF child_ends 3(2,3), where i = 2 and ps = "[?par, Ret (Connected 0 ?q), ?ch1]"] by force
  obtain s5 where "sys_step\<^sup>*\<^sup>* (s4, [?par, Ret (Connected 0 ?q), Ret (Synced 2 ?q)])
        (s5, [Ret Accepted, Ret (Connected 0 ?q), Ret (Synced 2 ?q)])"
      "vw s5 = private_view st c w zeroed [0, 0] [1, 0] zeroed [0, 0]"
    using reach_does [OF parent_waits 4(2,3), where i = 0 and ps = "[?par, Ret (Connected 0 ?q), Ret (Synced 2 ?q)]" and k = "\<lambda>_. Ret Accepted"]
    by (force simp: pseq_def)
  with 1(1) 2(1) 3(1) 4(1) show ?thesis by (meson rtranclp_trans)
qed

section \<open>What can come of it\<close>

lemma listen_runs:
  assumes "fresh_keys st c (vw s)" "roomy s"
  shows "\<exists>s1. run_proc (shm_ipc_listen st junk) s = (Done (0, public_session (vw s)), s1) \<and>
    vw s1 = public_view st (vw s) zeroed [0, 0] [1, 0] \<and> roomy s1"
  using listen_does [OF assms(1), of junk] assms(2) unfolding does_def by blast

lemma private_idle:
  assumes "vw s = private_view st c w b vs qs zeroed [0, 0]"
  shows "shm_idle (private_session w) s"
proof -
  have "live_seg (shm_segs s (v_next w + 1)) = Some zeroed" "sem_sets s (v_snext w + 2) = Some [0, 0]"
    using vw_D(2) [OF assms, of "v_next w + 1"] vw_D(5) [OF assms] by (simp_all add: private_view_def)
  then show ?thesis
    by (auto simp: shm_idle_def seg_ok_def session_members live_seg_Some sem_val_def sem_numbers)
qed

text \<open>
  C6: a client can connect over shared memory: from a system without objects of the program, the
  server listens, and there is a run of server, client and the server's child after which the client
  and the child have the same session, on a segment and semaphores of their own with nothing on the
  way, and the queue is open for the next client.  From there a conversation is the direct execution
  of its requests.
\<close>

theorem shm_connects:
  fixes s :: shm_state
  assumes "fresh_keys st c (vw s)" "roomy s"
  shows "\<exists>session s1 q s2. run_proc (shm_ipc_listen st junk) s = (Done (0, session), s1) \<and>
    sys_step\<^sup>*\<^sup>* (s1, [hs_server st flg pid c session, hs_client st flg' pid' junk'])
      (s2, [Ret Accepted, Ret (Connected 0 q), Ret (Synced 2 q)]) \<and>
    shm_idle q s2 \<and> ss_alloc q \<noteq> ss_alloc session \<and> ss_semid q \<noteq> ss_semid session \<and>
    sem_val s2 (ss_queueid session) SEM_QUEUE = Some 1"
proof -
  let ?p = "public_session (vw s)" let ?q = "private_session (vw s)"
  obtain s1 where 1: "run_proc (shm_ipc_listen st junk) s = (Done (0, ?p), s1)"
      "vw s1 = public_view st (vw s) zeroed [0, 0] [1, 0]" "roomy s1"
    using listen_runs [OF assms] by blast
  obtain s2 where 2: "sys_step\<^sup>*\<^sup>* (s1, [hs_server st flg pid c ?p, hs_client st flg' pid' junk'])
        (s2, [Ret Accepted, Ret (Connected 0 ?q), Ret (Synced 2 ?q)])"
      "vw s2 = private_view st c (vw s) zeroed [0, 0] [1, 0] zeroed [0, 0]"
    using connect_steps [OF assms(1) 1(2,3), of flg pid flg' pid' junk'] by blast
  have "sem_sets s2 (v_snext (vw s) + 1) = Some [1, 0]"
    using vw_D(5) [OF 2(2)] by (simp add: private_view_def)
  then have "sem_val s2 (ss_queueid ?p) SEM_QUEUE = Some 1"
    by (simp add: session_members sem_val_def sem_numbers)
  moreover have "ss_alloc ?q \<noteq> ss_alloc ?p" "ss_semid ?q \<noteq> ss_semid ?p" by (simp_all add: session_members)
  ultimately show ?thesis using 1(1) 2(1) private_idle [OF 2(2)] by blast
qed

definition ex_no_objects :: shm_state where
  "ex_no_objects = \<lparr>sem_ids = (\<lambda>_. None), sem_sets = (\<lambda>_. None), sem_adj = (\<lambda>_ _ _. 0), sem_next = 3,
     sem_room = True, shm_ids = (\<lambda>_. None), shm_segs = (\<lambda>_. None), shm_next = 7, shm_room = True\<rparr>"

lemma ex_key: "ftok (Some (5, 3)) i \<noteq> IPC_PRIVATE"
proof
  assume "ftok (Some (5, 3)) i = IPC_PRIVATE"
  then have "word_of_int (196613 + i mod 256 * 16777216) = (0 :: i32)"
    by (simp add: ftok_def IPC_PRIVATE_def)
  then have "(2 :: int) ^ 32 dvd 196613 + i mod 256 * 16777216"
    unfolding word_of_int_eq_0_iff by simp
  then have "(2 :: int) dvd 196613 + i mod 256 * 16777216"
    using dvd_trans [of 2 "2 ^ 32"] by fastforce
  then show False by presburger
qed

lemma ex_fresh: "fresh_keys (Some (5, 3)) 1 (vw ex_no_objects)" "roomy ex_no_objects"
  by (simp_all add: fresh_keys_def ex_key) (simp_all add: ex_no_objects_def vw_def roomy_def)

theorem shm_connects_witness:
  "\<exists>session s1 q s2. run_proc (shm_ipc_listen (Some (5, 3)) (public_session (vw ex_no_objects))) ex_no_objects =
      (Done (0, session), s1) \<and>
    sys_step\<^sup>*\<^sup>* (s1, [hs_server (Some (5, 3)) 0 40 1 session, hs_client (Some (5, 3)) 0 41 session])
      (s2, [Ret Accepted, Ret (Connected 0 q), Ret (Synced 2 q)]) \<and> shm_idle q s2"
proof -
  obtain s1 where l: "run_proc (shm_ipc_listen (Some (5, 3)) (public_session (vw ex_no_objects))) ex_no_objects =
      (Done (0, public_session (vw ex_no_objects)), s1)"
    using listen_runs [OF ex_fresh] by blast
  show ?thesis
    using shm_connects [OF ex_fresh, of "public_session (vw ex_no_objects)" 0 40 0 41 "public_session (vw ex_no_objects)"]
    unfolding l by auto
qed

text \<open>
  C27: the same processes can also block each other for ever: when the client asks before the server
  is back in \<open>ipc_accept\<close>, the server sets the semaphores the client has raised to 0 and waits for
  the client, which waits for the server; no step is possible any more.
\<close>

theorem shm_connect_blocks:
  fixes s :: shm_state
  assumes "fresh_keys st c (vw s)" "roomy s"
  shows "\<exists>session s1 s2 ps. run_proc (shm_ipc_listen st junk) s = (Done (0, session), s1) \<and>
    sys_step\<^sup>*\<^sup>* (s1, [hs_server st flg pid c session, hs_client st flg' pid' junk']) (s2, ps) \<and>
    length ps = 2 \<and> stuck (s2, ps)"
proof -
  let ?w = "vw s" let ?p = "public_session (vw s)"
  let ?srv = "hs_server st flg pid c ?p :: (shm_state, ended) proc"
  let ?c0 = "hs_client st flg' pid' junk' :: (shm_state, ended) proc"
  let ?srv1 = "pbind (sem_down pid (v_snext ?w) SEM_CLIENT) (\<lambda>_. pbind (upd (shm_fork ?p)) (\<lambda>_.
      Fork (\<lambda>child. pbind (shm_ipc_sync st flg child c ?p) (\<lambda>s. Ret (Synced child s)))
          (\<lambda>child. pseq (shm_ipc_waitsync pid ?p) (Ret Accepted))))"
  let ?cl = "pbind (pseq (sem_down pid' (v_snext ?w) SEM_SERVER) (connect_answer flg' pid' ?p))
              (\<lambda>(r, s). Ret (Connected r s))"
  obtain s1 where 1: "run_proc (shm_ipc_listen st junk) s = (Done (0, ?p), s1)"
      "vw s1 = public_view st ?w zeroed [0, 0] [1, 0]" "roomy s1"
    using listen_runs [OF assms] by blast
  obtain s2 where 2: "sys_step\<^sup>*\<^sup>* (s1, [?srv, ?c0]) (s2, [?srv, ?cl])"
      "vw s2 = public_view st ?w asked [0, 2] [0, 0]" "roomy s2"
    using reach_does [OF request_does [OF assms(1)] 1(2,3), where i = 1 and ps = "[?srv, ?c0]"]
    by (force simp: client_split session_members)
  obtain s3 where 3: "sys_step\<^sup>*\<^sup>* (s2, [?srv, ?cl]) (s3, [?srv1, ?cl])"
      "vw s3 = public_view st ?w asked [0, 0] [0, 0]"
    using reach_does [OF reset_does 2(2,3), where i = 0 and ps = "[?srv, ?cl]" and k = "\<lambda>_. ?srv1"]
    by (auto simp: server_split session_members)
  have "sem_sets s3 (v_snext ?w) = Some [0, 0]"
    using vw_D(5) [OF 3(2)] by (simp add: public_view_def)
  then have "stuck (s3, [?srv1, ?cl])"
    by (simp add: stuck_def less_Suc_eq sem_down_def semop_def sem_numbers pseq_def)
  moreover have "sys_step\<^sup>*\<^sup>* (s1, [?srv, ?c0]) (s3, [?srv1, ?cl])"
    using 2(1) 3(1) by (rule rtranclp_trans)
  moreover have "length [?srv1, ?cl] = 2" by simp
  ultimately show ?thesis using 1(1) by blast
qed

theorem shm_connect_blocks_witness:
  "\<exists>session s1 s2 ps. sys_step\<^sup>*\<^sup>* (s1, [hs_server (Some (5, 3)) 0 40 1 session, hs_client (Some (5, 3)) 0 41 session]) (s2, ps) \<and>
    run_proc (shm_ipc_listen (Some (5, 3)) session) ex_no_objects = (Done (0, session), s1) \<and> stuck (s2, ps)"
proof -
  obtain s1 where l: "run_proc (shm_ipc_listen (Some (5, 3)) (public_session (vw ex_no_objects))) ex_no_objects =
      (Done (0, public_session (vw ex_no_objects)), s1)"
    using listen_runs [OF ex_fresh] by blast
  then show ?thesis
    using shm_connect_blocks [OF ex_fresh, of "public_session (vw ex_no_objects)" 0 40 0 41 "public_session (vw ex_no_objects)"]
    by auto
qed

end
