(* ===== verification/Dialogue.thy ===== *)
theory Dialogue
  imports Builds Sharing Handshake
begin

text \<open>
  Whole sessions at the prompt.  \<open>dialogue\<close> is the reference: the lines typed, one after the other,
  each turned into a request, answered, and printed, with no processes and no transport.  The local
  client run alone is this function, and so are the networked client and the server that serves it,
  interleaved over any transport that keeps the contract of \<open>include/ipc.h\<close>.
\<close>

section \<open>The reference\<close>

text \<open>The direct execution of a request, where request and answer are short enough to be sent.\<close>

definition answered ::
    "build \<Rightarrow> (nat \<Rightarrow> char) \<Rightarrow> 'h db_ops \<Rightarrow> datagram \<Rightarrow> 'h \<Rightarrow> (datagram \<times> 'h) option" where
  "answered b hp ops d h =
     (if dg_size d \<le> of_nat DATAGRAM_MAXSIZE then
        (case execute_datagram b hp ops d h of
           Some (Val (Some a), h') \<Rightarrow> if dg_size a \<le> of_nat DATAGRAM_MAXSIZE then Some (a, h') else None
         | _ \<Rightarrow> None)
      else None)"

text \<open>
  The result: whether \<open>exit\<close> was typed, what was printed, and the state of the database; none when
  a line or an answer is more than the program can take.
\<close>

primrec dialogue ::
    "bytes list \<Rightarrow> build \<Rightarrow> (nat \<Rightarrow> char) \<Rightarrow> tz \<Rightarrow> (datagram \<Rightarrow> 'h \<Rightarrow> (datagram \<times> 'h) option) \<Rightarrow>
     bytes \<Rightarrow> bool \<Rightarrow> string \<Rightarrow> 'h \<Rightarrow> (bool \<times> string \<times> 'h) option" where
  "dialogue [] b hp z ask buf admin out h = Some (False, out, h)"
| "dialogue (chunk # input) b hp z ask buf admin out h =
     (if chunk = [] then Some (False, out, h)
      else
        let buf = fill_buffer chunk buf in
        case cstr buf of
          None \<Rightarrow> None
        | Some line \<Rightarrow>
            if line = [] then dialogue input b hp z ask buf admin out h
            else if line = ''exit'' then Some (True, out, h)
            else
              (case command_to_datagram b hp z admin buf of
                 Val rep \<Rightarrow>
                   (case rep_dg rep of
                      None \<Rightarrow>
                        dialogue input b hp z ask buf (rep_admin rep) (out @ rep_out rep @ print_prompt) h
                    | Some d \<Rightarrow>
                        (case ask d h of
                           None \<Rightarrow> None
                         | Some (a, h') \<Rightarrow>
                             (case parse_answer b z a of
                                Val text \<Rightarrow>
                                  dialogue input b hp z ask buf (rep_admin rep)
                                    (out @ rep_out rep @ text @ print_prompt) h'
                              | _ \<Rightarrow> None)))
               | _ \<Rightarrow> None))"

text \<open>What a line does, once and for all: the cases of a dialogue that goes on.\<close>

lemma dialogue_line:
  assumes "dialogue (chunk # input) b hp z ask buf admin out h = Some r" "chunk \<noteq> []"
    and "cstr (fill_buffer chunk buf) = Some line" "line \<noteq> []" "line \<noteq> ''exit''"
  obtains (quiet) rep where "command_to_datagram b hp z admin (fill_buffer chunk buf) = Val rep"
      "rep_dg rep = None"
      "dialogue input b hp z ask (fill_buffer chunk buf) (rep_admin rep)
        (out @ rep_out rep @ print_prompt) h = Some r"
  | (asks) rep d a h1 said where "command_to_datagram b hp z admin (fill_buffer chunk buf) = Val rep"
      "rep_dg rep = Some d" "ask d h = Some (a, h1)" "parse_answer b z a = Val said"
      "dialogue input b hp z ask (fill_buffer chunk buf) (rep_admin rep)
        (out @ rep_out rep @ said @ print_prompt) h1 = Some r"
  using assms by (auto simp: Let_def split: cres.splits option.splits)

lemma dialogue_exit:
  "chunk \<noteq> [] \<Longrightarrow> cstr (fill_buffer chunk buf) = Some ''exit'' \<Longrightarrow>
   dialogue (chunk # input) b hp z ask buf admin out h = Some (True, out, h)"
  by simp

lemma dialogue_asks:
  "chunk \<noteq> [] \<Longrightarrow> cstr (fill_buffer chunk buf) = Some line \<Longrightarrow> line \<noteq> [] \<Longrightarrow> line \<noteq> ''exit'' \<Longrightarrow>
   command_to_datagram b hp z admin (fill_buffer chunk buf) = Val rep \<Longrightarrow> rep_dg rep = Some d \<Longrightarrow>
   ask d h = Some (a, h') \<Longrightarrow> parse_answer b z a = Val said \<Longrightarrow>
   dialogue (chunk # input) b hp z ask buf admin out h =
     dialogue input b hp z ask (fill_buffer chunk buf) (rep_admin rep) (out @ rep_out rep @ said @ print_prompt) h'"
  by simp

section \<open>The local client\<close>

text \<open>Nobody holds the mutex, and the process may open its file.\<close>

definition mutex_free :: "'z lock_state_scheme \<Rightarrow> nat \<Rightarrow> string \<Rightarrow> bool" where
  "mutex_free ls pid path \<longleftrightarrow>
     \<not> lock_denied ls pid path \<and>
     lock_holder ls (case lock_files ls path of None \<Rightarrow> lock_next ls | Some i \<Rightarrow> i) = None"

lemma guarded_alone:
  assumes "mutex_free ls pid (fm_path mutex)" "execute_datagram b hp ops d h = Some (Val ans, h')"
  shows "\<exists>ls' mutex'. run_proc (guarded pid b hp ops mutex delay d) (ls, h) = (Done (mutex', ans), (ls', h')) \<and>
    mutex_free ls' pid (fm_path mutex') \<and> fm_path mutex' = fm_path mutex"
proof (cases "lock_files ls (fm_path mutex)")
  case None
  then show ?thesis
    using assms
    by (simp add: mutex_free_def guarded_def run_proc_bind run_on_ipc pseq_def fmutex_enter_def
        fmutex_leave_def lock_open_def lock_wait_def lock_drop_def on_db_def of_cres_def sleep_def upd_def
        sys_def)
next
  case (Some i)
  then have ls: "lock_holder ls i = None" "\<not> lock_denied ls pid (fm_path mutex)"
    using assms(1) by (simp_all add: mutex_free_def)
  have "mutex_free ls pid (fm_path (mutex\<lparr>fm_fd := int i\<rparr>))" using assms(1) by simp
  with guarded_runs [OF ls(2) Some ls(1) assms(2), of delay] show ?thesis by (metis fmutex.select_convs(1) fmutex.surjective fmutex.update_convs(2))
qed

text \<open>A line that \<open>setdelay\<close> does not start, as the local client alone knows that command.\<close>

definition no_setdelay :: "bytes list \<Rightarrow> bool" where
  "no_setdelay input \<longleftrightarrow> (\<forall>c \<in> set input. take 8 c \<noteq> ''setdelay'')"

lemma fill_buffer_prefix:
  assumes "cstr (fill_buffer chunk buf) = Some line" "chunk \<noteq> []"
  shows "\<exists>r. chunk = line @ r"
proof -
  have "fill_buffer chunk buf = butlast chunk @ NUL # drop (length chunk) buf"
    using assms(2) by (simp add: fill_buffer_def list_update_append list_update_beyond
        butlast_conv_take upd_conv_take_nth_drop)
  moreover have "\<exists>r. xs = line @ r" if "cstr (xs @ NUL # ys) = Some line" for xs ys
    using that by (induction xs arbitrary: line) (auto split: if_splits)
  ultimately obtain r where "butlast chunk = line @ r" using assms(1) by metis
  then have "chunk = line @ r @ [last chunk]" using assms(2) by (metis append_assoc append_butlast_last_id)
  then show ?thesis by blast
qed

lemma no_setdelay_line:
  assumes "no_setdelay (chunk # input)" "cstr (fill_buffer chunk buf) = Some line" "chunk \<noteq> []"
  shows "\<not> strneq 8 line ''setdelay''"
proof
  assume "strneq 8 line ''setdelay''"
  then have t: "take 8 line = ''setdelay''" by (simp add: strneq_def)
  from arg_cong [OF this, of length] have "8 \<le> length line" by simp
  moreover obtain r where "chunk = line @ r" using fill_buffer_prefix [OF assms(2,3)] by blast
  ultimately show False using assms(1) t by (simp add: no_setdelay_def)
qed


lemma run_local_request:
  assumes "run_proc (guarded pid b hp ops mutex delay d) (ls, h) = (Done (mutex', Some a), (ls', h'))"
    and "parse_answer b z a = Val said"
  shows "run_proc (pbind (guarded pid b hp ops mutex delay d) (\<lambda>(mutex, ans).
      case ans of
        None \<Rightarrow> Undef
      | Some a \<Rightarrow> (case parse_answer b z a of Exit n \<Rightarrow> Halt n | Crash \<Rightarrow> Undef | Val text \<Rightarrow> k mutex text))) (ls, h) =
    run_proc (k mutex' said) (ls', h')"
  using assms by (simp add: run_proc_bind)

lemma answered_executes:
  "answered b hp ops d h = Some (a, h') \<Longrightarrow>
   dg_size d \<le> of_nat DATAGRAM_MAXSIZE \<and> dg_size a \<le> of_nat DATAGRAM_MAXSIZE \<and>
   execute_datagram b hp ops d h = Some (Val (Some a), h')"
  by (auto simp: answered_def split: if_splits option.splits cres.splits)

text \<open>The local client run alone: its loop is the dialogue.\<close>

lemma local_dialogue:
  "dialogue input b hp z (answered b hp ops) buf admin out h = Some (ex, out', h') \<Longrightarrow>
   no_setdelay input \<Longrightarrow> mutex_free ls pid (fm_path mutex) \<Longrightarrow>
   \<exists>ls'. run_proc (local_loop input pid b hp z ops buf admin mutex delay out) (ls, h) = (Done out', (ls', h'))"
proof (induction input arbitrary: buf admin out h mutex ls)
  case Nil
  then show ?case by (simp add: local_end_def fmutex_free_def pseq_def)
next
  case (Cons chunk input)
  have nd: "no_setdelay input" using Cons.prems(2) by (simp add: no_setdelay_def)
  show ?case
  proof (cases "chunk = []")
    case True
    with Cons.prems(1) show ?thesis by (simp add: local_end_def fmutex_free_def pseq_def)
  next
    case chunk: False
    obtain line where line: "cstr (fill_buffer chunk buf) = Some line"
      using Cons.prems(1) chunk by (cases "cstr (fill_buffer chunk buf)") (simp_all add: Let_def)
    note no = no_setdelay_line [OF Cons.prems(2) line chunk]
    consider "line = []" | "line = ''exit''" | "line \<noteq> []" "line \<noteq> ''exit''" by blast
    then show ?thesis
    proof cases
      case 1
      with Cons.IH [OF _ nd Cons.prems(3)] Cons.prems(1) chunk line show ?thesis by simp
    next
      case 2
      with Cons.prems(1) chunk line show ?thesis
        by (simp add: streq_def local_end_def fmutex_free_def pseq_def)
    next
      case 3
      note go = chunk line 3 no
      from Cons.prems(1) chunk line 3 show ?thesis
      proof (cases rule: dialogue_line)
        case (quiet rep)
        with Cons.IH [OF quiet(3) nd Cons.prems(3)] go show ?thesis by (simp add: streq_def)
      next
        case (asks rep d a h1 said)
        obtain ls1 mutex' where g: "run_proc (guarded pid b hp ops mutex delay d) (ls, h) =
            (Done (mutex', Some a), (ls1, h1))" "mutex_free ls1 pid (fm_path mutex')"
          using guarded_alone [OF Cons.prems(3), of b hp ops d h "Some a" h1 delay] answered_executes [OF asks(3)]
          by auto
        from Cons.IH [OF asks(5) nd g(2)] asks(1,2) go show ?thesis
          by (simp add: streq_def run_local_request [OF g(1) asks(4)])
      qed
    qed
  qed
qed

section \<open>Client and server over a link\<close>

lemma on_ipc_bind:
  "(on_ipc (pbind p k) :: ('s \<times> 'h, 'b) proc) = pbind (on_ipc p) (\<lambda>x. on_ipc (k x))"
proof (induction p rule: proc_induct)
  case (Act f)
  have "(on_ipc (pbind (Act f) k) :: ('s \<times> 'h, 'b) proc) = Act (\<lambda>(s, h). map_option (\<lambda>(s', q). ((s', h), on_ipc (pbind q k))) (f s))"
    by (auto intro!: ext simp: option.map_comp comp_def map_prod_def case_prod_unfold)
  moreover have "(pbind (on_ipc (Act f)) (\<lambda>x. on_ipc (k x)) :: ('s \<times> 'h, 'b) proc) =
      Act (\<lambda>(s, h). map_option (\<lambda>(s', q). ((s', h), pbind (on_ipc q) (\<lambda>x. on_ipc (k x)))) (f s))"
    by (auto intro!: ext simp: option.map_comp comp_def map_prod_def case_prod_unfold)
  moreover have "map_option (\<lambda>(s', q). ((s', h), on_ipc (pbind q k) :: ('s \<times> 'h, 'b) proc)) (f s) =
      map_option (\<lambda>(s', q). ((s', h), pbind (on_ipc q) (\<lambda>x. on_ipc (k x)))) (f s)" for s and h :: 'h
  proof (cases "f s")
    case (Some x)
    obtain s' q where x: "f s = Some (s', q)" using Some by (cases x) auto
    from Act [OF x] x show ?thesis by simp
  qed simp
  ultimately show ?case by simp
qed simp_all

lemma on_ipc_seq: "on_ipc (pseq p q) = pseq (on_ipc p) (on_ipc q)"
  by (simp add: pseq_def on_ipc_bind)

lemma reach_ipc:
  assumes "run_proc p s = (Done x, s')" "i < length ps" "ps ! i = pbind (on_ipc p) k"
  shows "sys_step\<^sup>*\<^sup>* ((s, h), ps) ((s', h), ps[i := k x])"
  by (rule run_reach [OF _ assms(2,3)]) (simp add: run_on_ipc assms(1))


lemma waits_on_ipc [simp]: "waits_at (on_ipc p) (s, h) \<longleftrightarrow> waits_at p s"
  by (cases p) (simp_all add: waits_at_def Option.is_none_def)

text \<open>One call while the other side waits, with the database beside it and what each side does next.\<close>

lemma solo_left:
  "solo q p s x s' \<Longrightarrow> hand\<^sup>*\<^sup>* ((s, h), pbind (on_ipc p) k, pbind (on_ipc q) m) ((s', h), k x, pbind (on_ipc q) m)"
proof (induction rule: solo.induct)
  case (solo_Act f s s1 p x s')
  have "hand ((s, h), pbind (on_ipc (Act f)) k, pbind (on_ipc q) m) ((s1, h), pbind (on_ipc p) k, pbind (on_ipc q) m)"
    using solo_Act.hyps(1,2) by (auto intro!: hand.left waits_bind)
  with solo_Act.IH show ?case by (rule converse_rtranclp_into_rtranclp [rotated])
qed simp

lemma solo_right:
  "solo q p s x s' \<Longrightarrow> hand\<^sup>*\<^sup>* ((s, h), pbind (on_ipc q) m, pbind (on_ipc p) k) ((s', h), pbind (on_ipc q) m, k x)"
proof (induction rule: solo.induct)
  case (solo_Act f s s1 p x s')
  have "hand ((s, h), pbind (on_ipc q) m, pbind (on_ipc (Act f)) k) ((s1, h), pbind (on_ipc q) m, pbind (on_ipc p) k)"
    using solo_Act.hyps(1,2) by (auto intro!: hand.right waits_bind)
  with solo_Act.IH show ?case by (rule converse_rtranclp_into_rtranclp [rotated])
qed simp

lemma db_left:
  assumes "f h = Some (Val x, h')" "waits_at q s"
  shows "hand ((s, h), pbind (on_db f) k, pbind (on_ipc q) m) ((s, h'), k x, pbind (on_ipc q) m)"
  using assms by (auto simp: on_db_def of_cres_def intro!: hand.left waits_bind)

text \<open>What the client does with a line.\<close>

lemma client_skips:
  assumes "chunk \<noteq> []" "cstr (fill_buffer chunk buf) = Some []"
  shows "client_loop (chunk # input) b hp z io buf admin out =
    client_loop input b hp z io (fill_buffer chunk buf) admin out"
  using assms by simp

lemma client_exits:
  assumes "chunk \<noteq> []" "cstr (fill_buffer chunk buf) = Some ''exit''"
  shows "client_loop (chunk # input) b hp z io buf admin out =
    pbind (ci_send io (new_dg b hp (SIZEOF_DG b) OP_EXIT)) (\<lambda>_. client_end io (out @ ''Enviando comando EXIT'' @ nl))"
  using assms by (simp add: streq_def send_exit_def pseq_def)

lemma client_quiet:
  assumes "chunk \<noteq> []" "cstr (fill_buffer chunk buf) = Some line" "line \<noteq> []" "line \<noteq> ''exit''"
    and "command_to_datagram b hp z admin (fill_buffer chunk buf) = Val rep" "rep_dg rep = None"
  shows "client_loop (chunk # input) b hp z io buf admin out =
    client_loop input b hp z io (fill_buffer chunk buf) (rep_admin rep) (out @ rep_out rep @ print_prompt)"
  using assms by (simp add: streq_def)

lemma client_asks:
  assumes "chunk \<noteq> []" "cstr (fill_buffer chunk buf) = Some line" "line \<noteq> []" "line \<noteq> ''exit''"
    and "command_to_datagram b hp z admin (fill_buffer chunk buf) = Val rep" "rep_dg rep = Some d"
  shows "\<exists>k. client_loop (chunk # input) b hp z io buf admin out =
      pbind (ci_send io d) (\<lambda>_. pbind (ci_receive io) k) \<and>
    (\<forall>a said. parse_answer b z a = Val said \<longrightarrow>
       k (Some a) = client_loop input b hp z io (fill_buffer chunk buf) (rep_admin rep)
         (out @ rep_out rep @ said @ print_prompt))"
  using assms by (auto simp: streq_def pseq_def)

text \<open>
  The server is the process \<open>i\<close> of the system and the client the process \<open>j\<close>; both go on with
  something else when they are done (\<open>ki\<close>, \<open>kj\<close>).
\<close>

lemma serve_receives:
  "\<exists>f. serve (Suc n) b hp ops (io_of rcv sndr disc) = pbind (on_ipc rcv) f \<and>
     (\<forall>d. dg_opcode d = opc OP_EXIT \<longrightarrow> f (Some d) = pseq (on_ipc disc) (Halt 0))"
  by auto

lemma serve_answers:
  "\<exists>f. serve (Suc n) b hp ops (io_of rcv sndr disc) = pbind (on_ipc rcv) f \<and>
     (\<forall>d. dg_opcode d \<noteq> opc OP_EXIT \<longrightarrow>
        (\<exists>g. f (Some d) = pbind (on_db (execute_datagram b hp ops d)) g \<and>
           (\<forall>a. g (Some a) = pbind (on_ipc (sndr a)) (\<lambda>_. serve n b hp ops (io_of rcv sndr disc)))))"
proof -
  let ?io = "io_of rcv sndr disc"
  let ?g = "\<lambda>ans. case ans of None \<Rightarrow> serve n b hp ops ?io | Some a \<Rightarrow> pseq (on_ipc (sndr a)) (serve n b hp ops ?io)"
  let ?f = "\<lambda>datagram. case datagram of None \<Rightarrow> Undef | Some d \<Rightarrow>
      if dg_opcode d = opc OP_EXIT then pseq (on_ipc disc) (Halt 0)
      else pbind (on_db (execute_datagram b hp ops d)) ?g"
  have "serve (Suc n) b hp ops ?io = pbind (on_ipc rcv) ?f" unfolding serve.simps io_of_simps by (rule refl)
  moreover have "?f (Some d) = pbind (on_db (execute_datagram b hp ops d)) ?g" if "dg_opcode d \<noteq> opc OP_EXIT" for d
    using that by simp
  moreover have "?g (Some a) = pbind (on_ipc (sndr a)) (\<lambda>_. serve n b hp ops ?io)" for a by (simp add: pseq_def)
  ultimately show ?thesis by blast
qed

text \<open>Where a dialogue leaves the link: idle, or with the last request there for the server to take.\<close>

definition asked :: "('s, datagram option) proc \<Rightarrow> ('s \<Rightarrow> bool) \<Rightarrow> bool \<Rightarrow> datagram \<Rightarrow> 's \<Rightarrow> bool" where
  "asked rcv idl ex d s \<longleftrightarrow>
     (if ex then \<exists>s'. run_proc rcv s = (Done (Some d), s') \<and> idl s' else idl s)"

context ipc_turns
begin

text \<open>A request and its answer: the two processes take turns.\<close>

lemma round_hands:
  assumes idle: "idle s" and req: "req_fits d" "dg_opcode (req_seen d) \<noteq> opc OP_EXIT"
    and ex: "execute_datagram b hp ops (req_seen d) h = Some (Val (Some a), h')" "ans_fits a"
  shows "\<exists>s'. idle s' \<and> hand\<^sup>*\<^sup>*
    ((s, h), pbind (serve (Suc (Suc n)) b hp ops (io_of s_recv s_send disc)) ki,
      pbind (on_ipc (c_send d)) (\<lambda>_. pbind (on_ipc c_recv) k))
    ((s', h'), pbind (serve (Suc n) b hp ops (io_of s_recv s_send disc)) ki, k (Some (ans_seen a)))"
proof -
  let ?srv = "serve (Suc n) b hp ops (io_of s_recv s_send disc)"
  obtain f g where f: "serve (Suc (Suc n)) b hp ops (io_of s_recv s_send disc) = pbind (on_ipc s_recv) f"
    and g: "f (Some (req_seen d)) = pbind (on_db (execute_datagram b hp ops (req_seen d))) g"
      "g (Some a) = pbind (on_ipc (s_send a)) (\<lambda>_. ?srv)"
    using serve_answers [of "Suc n" b hp ops s_recv s_send disc] req(2) by metis
  obtain f' where f': "?srv = pbind (on_ipc s_recv) f'"
    using serve_answers [of n b hp ops s_recv s_send disc] by blast
  obtain s1 s2 where r: "solo s_recv (c_send d) s 0 s1" "solo c_recv s_recv s1 (Some (req_seen d)) s2" "idle s2"
    using req_turn [OF idle req(1)] by blast
  obtain s3 s4 where t: "solo c_recv (s_send a) s2 0 s3" "solo s_recv c_recv s3 (Some (ans_seen a)) s4" "idle s4"
    using ans_turn [OF r(3) ex(2)] by blast
  let ?cl = "pbind (on_ipc c_recv) k"
  have "hand\<^sup>*\<^sup>* ((s, h), pbind (on_ipc s_recv) (\<lambda>x. pbind (f x) ki), pbind (on_ipc (c_send d)) (\<lambda>_. ?cl))
      ((s1, h), pbind (on_ipc s_recv) (\<lambda>x. pbind (f x) ki), ?cl)"
    by (rule solo_right [OF r(1)])
  also have "hand\<^sup>*\<^sup>* \<dots> ((s2, h), pbind (f (Some (req_seen d))) ki, ?cl)"
    by (rule solo_left [OF r(2)])
  also have "hand \<dots> ((s2, h'), pbind (pbind (on_ipc (s_send a)) (\<lambda>_. ?srv)) ki, ?cl)"
    unfolding g(1) pbind_assoc g(2) [symmetric] by (rule db_left) (rule ex(1), rule c_asleep [OF r(3)])
  also have "hand\<^sup>*\<^sup>* \<dots> ((s3, h'), pbind ?srv ki, ?cl)"
    unfolding pbind_assoc by (rule solo_left [OF t(1)])
  also have "hand\<^sup>*\<^sup>* \<dots> ((s4, h'), pbind ?srv ki, k (Some (ans_seen a)))"
    unfolding f' pbind_assoc by (rule solo_right [OF t(2)])
  finally show ?thesis using t(3) unfolding f pbind_assoc by blast
qed

text \<open>
  The whole dialogue.  The client comes to its end with the text of the reference and the database in
  the state of the reference; the server has received every request but the \<open>exit\<close>, which is there
  for it if it was typed.
\<close>

lemma dialogue_hands:
  assumes io: "ci_send io = c_send" "ci_receive io = c_recv"
    and ask: "\<And>d h a h'. good h \<Longrightarrow> dg_wf b d \<Longrightarrow> dg_opcode d \<noteq> opc OP_EXIT \<Longrightarrow> ask d h = Some (a, h') \<Longrightarrow>
      req_fits d \<and> dg_opcode (req_seen d) \<noteq> opc OP_EXIT \<and> good h' \<and>
      (\<exists>a'. execute_datagram b hp ops (req_seen d) h = Some (Val (Some a'), h') \<and> ans_fits a' \<and> ans_seen a' = a)"
    and bye: "bye = new_dg b hp (SIZEOF_DG b) OP_EXIT" "req_fits bye"
  shows "dialogue input b hp z ask buf admin out h = Some (ex, out', h') \<Longrightarrow> idle s \<Longrightarrow> good h \<Longrightarrow>
    length buf = DATAGRAM_MAXSIZE \<Longrightarrow> \<forall>c \<in> set input. length c \<le> DATAGRAM_MAXSIZE \<Longrightarrow> length input < n \<Longrightarrow>
    \<exists>s' n'. asked s_recv idle ex (req_seen bye) s' \<and> hand\<^sup>*\<^sup>*
      ((s, h), pbind (serve n b hp ops (io_of s_recv s_send disc)) ki,
         pbind (on_ipc (client_loop input b hp z io buf admin out)) kj)
      ((s', h'), pbind (serve (Suc n') b hp ops (io_of s_recv s_send disc)) ki,
         pbind (on_ipc (client_end io (out' @ (if ex then ''Enviando comando EXIT'' @ nl else [])))) kj)"
proof (induction input arbitrary: s h buf admin out n)
  case Nil
  then obtain m where "n = Suc m" by (cases n) auto
  with Nil show ?case by (intro exI [of _ s] exI [of _ m]) (simp add: asked_def)
next
  case (Cons chunk input)
  note prems = Cons.prems
  obtain m where n: "n = Suc m" "length input < m" using prems(6) by (cases n) auto
  show ?case
  proof (cases "chunk = []")
    case True
    with prems n(1) show ?thesis by (intro exI [of _ s] exI [of _ m]) (simp add: asked_def)
  next
    case chunk: False
    let ?buf = "fill_buffer chunk buf"
    have len: "length ?buf = DATAGRAM_MAXSIZE" and inp: "\<forall>c \<in> set input. length c \<le> DATAGRAM_MAXSIZE"
      using prems(4,5) by simp_all
    have short: "length input < n" using n by simp
    obtain line where line: "cstr ?buf = Some line"
      using prems(1) chunk by (cases "cstr ?buf") (simp_all add: Let_def)
    consider "line = []" | "line = ''exit''" | "line \<noteq> []" "line \<noteq> ''exit''" by blast
    then show ?thesis
    proof cases
      case 1
      then have "dialogue input b hp z ask ?buf admin out h = Some (ex, out', h')"
        using prems(1) chunk line by simp
      from Cons.IH [OF this prems(2,3) len inp short] 1 line show ?thesis
        by (simp only: client_skips [OF chunk])
    next
      case 2
      then have e: "ex" "out' = out" "h' = h" using prems(1) chunk line by simp_all
      obtain f where f: "serve n b hp ops (io_of s_recv s_send disc) = pbind (on_ipc s_recv) f"
        using serve_answers [of m b hp ops s_recv s_send disc] n(1) by blast
      obtain s1 s2 where r: "solo s_recv (c_send bye) s 0 s1" "solo c_recv s_recv s1 (Some (req_seen bye)) s2" "idle s2"
        using req_turn [OF prems(2) bye(2)] by blast
      have "hand\<^sup>*\<^sup>* ((s, h), pbind (on_ipc s_recv) (\<lambda>x. pbind (f x) ki), pbind (on_ipc (c_send bye))
            (\<lambda>_. pbind (on_ipc (client_end io (out @ ''Enviando comando EXIT'' @ nl))) kj))
          ((s1, h), pbind (on_ipc s_recv) (\<lambda>x. pbind (f x) ki),
            pbind (on_ipc (client_end io (out @ ''Enviando comando EXIT'' @ nl))) kj)"
        by (rule solo_right [OF r(1)])
      then have "hand\<^sup>*\<^sup>* ((s, h), pbind (serve n b hp ops (io_of s_recv s_send disc)) ki,
            pbind (on_ipc (client_loop (chunk # input) b hp z io buf admin out)) kj)
          ((s1, h), pbind (serve (Suc m) b hp ops (io_of s_recv s_send disc)) ki,
            pbind (on_ipc (client_end io (out @ ''Enviando comando EXIT'' @ nl))) kj)"
        unfolding n(1) [symmetric] f pbind_assoc client_exits [OF chunk line [unfolded 2]] on_ipc_bind io bye(1) .
      moreover have "asked s_recv idle True (req_seen bye) s1" using solo_runs [OF r(2)] r(3) by (auto simp: asked_def)
      ultimately show ?thesis unfolding e(2,3) eqTrueI [OF e(1)] if_True by blast
    next
      case 3
      from prems(1) chunk line 3 show ?thesis
      proof (cases rule: dialogue_line)
        case (quiet rep)
        from Cons.IH [OF quiet(3) prems(2,3) len inp short] show ?thesis
          by (simp only: client_quiet [OF chunk line 3 quiet(1,2)])
      next
        case (asks rep d a h1 said)
        have rq: "dg_wf b d" "dg_opcode d \<noteq> opc OP_EXIT"
          using command_ok [OF asks(1)] asks(2) len by (auto simp: request_ok_def layout)
        obtain a' where a': "req_fits d" "dg_opcode (req_seen d) \<noteq> opc OP_EXIT" "good h1"
            "execute_datagram b hp ops (req_seen d) h = Some (Val (Some a'), h1)" "ans_fits a'" "ans_seen a' = a"
          using ask [OF prems(3) rq asks(3)] by blast
        obtain k where k: "client_loop (chunk # input) b hp z io buf admin out =
              pbind (ci_send io d) (\<lambda>_. pbind (ci_receive io) k)"
            "k (Some a) = client_loop input b hp z io ?buf (rep_admin rep) (out @ rep_out rep @ said @ print_prompt)"
          using client_asks [OF chunk line 3 asks(1,2), of input io out] asks(4) by blast
        obtain m' where m: "m = Suc m'" using n(2) by (cases m) auto
        obtain s1 where s1: "idle s1" "hand\<^sup>*\<^sup>*
            ((s, h), pbind (serve n b hp ops (io_of s_recv s_send disc)) ki,
              pbind (on_ipc (client_loop (chunk # input) b hp z io buf admin out)) kj)
            ((s1, h1), pbind (serve m b hp ops (io_of s_recv s_send disc)) ki, pbind (on_ipc (k (Some a))) kj)"
          using round_hands [OF prems(2) a'(1,2,4,5), of m' disc ki "\<lambda>x. pbind (on_ipc (k x)) kj"]
          unfolding n(1) m k(1) io on_ipc_bind pbind_assoc a'(6) by blast
        from Cons.IH [OF asks(5) s1(1) a'(3) len inp n(2)] rtranclp_trans [OF s1(2)] show ?thesis
          unfolding k(2) by blast
      qed
    qed
  qed
qed

text \<open>The same among other processes, and the server ended by \<open>exit\<close>.\<close>

lemma dialogue_reach:
  assumes ij: "i \<noteq> j" and io: "ci_send io = c_send" "ci_receive io = c_recv"
    and ask: "\<And>d h a h'. good h \<Longrightarrow> dg_wf b d \<Longrightarrow> dg_opcode d \<noteq> opc OP_EXIT \<Longrightarrow> ask d h = Some (a, h') \<Longrightarrow>
      req_fits d \<and> dg_opcode (req_seen d) \<noteq> opc OP_EXIT \<and> good h' \<and>
      (\<exists>a'. execute_datagram b hp ops (req_seen d) h = Some (Val (Some a'), h') \<and> ans_fits a' \<and> ans_seen a' = a)"
    and bye: "req_fits (new_dg b hp (SIZEOF_DG b) OP_EXIT)"
      "dg_opcode (req_seen (new_dg b hp (SIZEOF_DG b) OP_EXIT)) = opc OP_EXIT"
    and dia: "dialogue input b hp z ask buf admin out h = Some (True, out', h')" "idle s" "good h"
      "length buf = DATAGRAM_MAXSIZE" "\<forall>c \<in> set input. length c \<le> DATAGRAM_MAXSIZE" "length input < n"
    and ps: "i < length ps" "j < length ps"
      "ps ! i = pbind (serve n b hp ops (io_of s_recv s_send disc)) ki"
      "ps ! j = pbind (on_ipc (client_loop input b hp z io buf admin out)) kj"
  shows "\<exists>s'. idle s' \<and> sys_step\<^sup>*\<^sup>* ((s, h), ps)
      ((s', h'), ps[i := pbind (pseq (on_ipc disc) (Halt 0)) ki,
                    j := pbind (on_ipc (client_end io (out' @ ''Enviando comando EXIT'' @ nl))) kj])"
proof -
  let ?over = "pbind (on_ipc (client_end io (out' @ ''Enviando comando EXIT'' @ nl))) kj"
  obtain s1 n' where s1: "asked s_recv idle True (req_seen (new_dg b hp (SIZEOF_DG b) OP_EXIT)) s1" "hand\<^sup>*\<^sup>*
      ((s, h), ps ! i, ps ! j) ((s1, h'), pbind (serve (Suc n') b hp ops (io_of s_recv s_send disc)) ki, ?over)"
    using dialogue_hands [OF io ask refl bye(1) dia(1-6), where disc = disc and ki = ki and kj = kj]
    unfolding ps(3,4) if_True by blast
  obtain s2 where s2: "run_proc s_recv s1 = (Done (Some (req_seen (new_dg b hp (SIZEOF_DG b) OP_EXIT))), s2)" "idle s2"
    using s1(1) by (auto simp: asked_def)
  obtain f where f: "serve (Suc n') b hp ops (io_of s_recv s_send disc) = pbind (on_ipc s_recv) f"
      "f (Some (req_seen (new_dg b hp (SIZEOF_DG b) OP_EXIT))) = pseq (on_ipc disc) (Halt 0)"
    using serve_receives [of n' b hp ops s_recv s_send disc] bye(2) by blast
  let ?ps = "ps[i := pbind (serve (Suc n') b hp ops (io_of s_recv s_send disc)) ki, j := ?over]"
  have 1: "sys_step\<^sup>*\<^sup>* ((s, h), ps) ((s1, h'), ?ps)"
    using hands_among [OF s1(2) ps(1,2) ij] by (simp del: serve.simps)
  have "?ps ! i = pbind (on_ipc s_recv) (\<lambda>x. pbind (f x) ki)"
    using ps(1) ij by (simp add: f(1) pbind_assoc del: serve.simps)
  from reach_ipc [OF s2(1) _ this, of h'] ps(1) f(2)
  have 2: "sys_step\<^sup>*\<^sup>* ((s1, h'), ?ps) ((s2, h'), ?ps[i := pbind (pseq (on_ipc disc) (Halt 0)) ki])" by (simp del: serve.simps)
  have "?ps[i := x] = ps[i := x, j := ?over]" for x
    using ij by (simp add: list_update_swap [of j i])
  with rtranclp_trans [OF 1 2] s2(2) show ?thesis by auto
qed

end

end
