(* ===== verification/Endtoend.thy ===== *)
theory Endtoend
  imports Dialogue Reports
begin

text \<open>
  The programs as they are started: \<open>server.c\<close> and \<open>client.c\<close> built over shared memory, from a system
  without objects of theirs to the end of the client.  The connection of \<open>Handshake\<close> is carried over to
  the state that has the database as well, and the dialogue of \<open>Dialogue\<close> follows it.
\<close>

section \<open>Steps carried over\<close>

text \<open>A run on the objects of the operating system alone is a run with the database, whatever follows.\<close>

lemma step_of_lift:
  assumes "step_of i (s, ps) = Some (s', ps')"
  shows "step_of i ((s, h), map (\<lambda>p. pbind (on_ipc p) K) ps) = Some ((s', h), map (\<lambda>p. pbind (on_ipc p) K) ps')"
proof -
  have i: "i < length ps" using assms by (simp split: if_splits)
  show ?thesis
  proof (cases "ps ! i")
    case (Act f)
    then obtain q where "f s = Some (s', q)" "ps' = ps[i := q]" using assms i by auto
    with Act i show ?thesis by (simp add: map_update)
  next
    case (Fork c p)
    with assms i show ?thesis by (auto simp: map_update)
  qed (use assms i in simp_all)
qed

lemma steps_lift:
  assumes "sys_step\<^sup>*\<^sup>* c c'"
  shows "sys_step\<^sup>*\<^sup>* ((fst c, h), map (\<lambda>p. pbind (on_ipc p) K) (snd c))
    ((fst c', h), map (\<lambda>p. pbind (on_ipc p) K) (snd c'))"
  using assms
proof (induction rule: rtranclp_induct)
  case (step c1 c2)
  obtain i where "step_of i c1 = Some c2" using step.hyps(2) by (auto elim: sys_step.cases)
  then have "step_of i (fst c1, snd c1) = Some (fst c2, snd c2)" by simp
  from sys_step.intros [OF step_of_lift [OF this]] step.IH show ?case
    by (rule rtranclp.rtrancl_into_rtrancl [rotated])
qed simp

section \<open>What follows the connection\<close>

definition banner :: string where
  "banner = ''Iniciando cliente...'' @ nl @ ''----------------------------------'' @ nl @
     COLOR_GREEN @ ''Ejecute 'help' para obtener ayuda.'' @ nl @ COLOR_RESET @ print_prompt"

text \<open>The continuations of the processes of \<open>Handshake\<close>: server, child of the server, client.\<close>

definition after_connect ::
    "nat \<Rightarrow> nat \<Rightarrow> junk \<Rightarrow> (nat \<Rightarrow> ('h, 'q) sqlite) \<Rightarrow> file_stat \<Rightarrow> 16 word \<Rightarrow> 16 word \<Rightarrow> shm_session \<Rightarrow> (i32 \<Rightarrow> bool) \<Rightarrow>
     shm_session \<Rightarrow> tz \<Rightarrow> bytes list \<Rightarrow> ended \<Rightarrow> (shm_state \<times> 'h, string option) proc" where
  "after_connect m n jk api st flg flg' junk forks session z input e =
     (case e of
        Accepted \<Rightarrow>
          pbind (accept_loop m n SHMEM jk api (shm_server st flg 0 junk) forks 0 1 session) (\<lambda>_. Ret None)
      | Synced child q \<Rightarrow>
          pbind (on_db (\<lambda>h. Some (db_open (api child) DB_PATH h))) (\<lambda>_.
          pbind (serve n SHMEM (heap jk) (sqlite_ops SHMEM jk (api child))
             (io_of (shm_receive_ptr SERVER child q) (shm_ipc_send SERVER flg child q) (shm_ipc_disconnect SERVER q)))
            (\<lambda>_. Ret None))
      | Connected r q \<Rightarrow>
          if r = -1 then Halt 1
          else pbind (on_ipc (client_loop input SHMEM (heap jk) z
             \<lparr>ci_send = shm_ipc_send CLIENT flg' 1 q, ci_receive = shm_receive_ptr CLIENT 1 q,
              ci_disconnect = shm_ipc_disconnect CLIENT q, ci_free = shm_ipc_free CLIENT q\<rparr>
             empty_buffer False banner)) (\<lambda>out. Ret (Some out)))"


text \<open>What the two programs are in these terms.\<close>

definition the_server ::
    "nat \<Rightarrow> nat \<Rightarrow> junk \<Rightarrow> (nat \<Rightarrow> ('h, 'q) sqlite) \<Rightarrow> file_stat \<Rightarrow> 16 word \<Rightarrow> shm_session \<Rightarrow> (i32 \<Rightarrow> bool) \<Rightarrow>
     (shm_state \<times> 'h, string option) proc" where
  "the_server m n jk api st flg junk forks =
     pbind (server_main (Suc m) n SHMEM jk api (shm_server st flg 0 junk) forks 0) (\<lambda>_. Ret None)"

definition the_client ::
    "junk \<Rightarrow> tz \<Rightarrow> file_stat \<Rightarrow> 16 word \<Rightarrow> shm_session \<Rightarrow> bytes list \<Rightarrow> (shm_state \<times> 'h, string option) proc" where
  "the_client jk z st flg junk input =
     pbind (on_ipc (client_main SHMEM (heap jk) z (shm_client st flg 1 junk) input)) (\<lambda>out. Ret (Some out))"

lemma shm_server_fields:
  "so_newsession (shm_server st flg pid junk) = junk"
  "so_listen (shm_server st flg pid junk) = shm_ipc_listen st"
  "so_accept (shm_server st flg pid junk) session = pbind (shm_ipc_accept pid session) (\<lambda>_. Ret session)"
  "so_shouldfork (shm_server st flg pid junk)"
  "so_fork (shm_server st flg pid junk) = shm_fork"
  "so_sync (shm_server st flg pid junk) child c session = shm_ipc_sync st flg child (sint c) session"
  "so_waitsync (shm_server st flg pid junk) session = pbind (shm_ipc_waitsync pid session) (\<lambda>_. Ret session)"
  "so_io (shm_server st flg pid junk) child session =
     io_of (shm_receive_ptr SERVER child session) (shm_ipc_send SERVER flg child session)
       (shm_ipc_disconnect SERVER session)"
  by (simp_all add: shm_server_def shm_ipc_newsession_def shm_ipc_shouldfork_def same_def pseq_def)

lemma server_starts:
  "the_server m n jk api st flg junk forks =
     pbind (on_ipc (shm_ipc_listen st junk)) (\<lambda>(err, session).
       pbind (if err = -1 then Halt 1
              else accept_loop (Suc m) n SHMEM jk api (shm_server st flg 0 junk) forks 0 0 session) (\<lambda>_. Ret None))"
  by (simp add: the_server_def server_main_def shm_server_fields pbind_assoc case_prod_unfold
      del: accept_loop.simps)

lemma server_accepts:
  assumes "forks 1"
  shows "pbind (accept_loop (Suc m) n SHMEM jk api (shm_server st flg 0 junk) forks 0 0 session) (\<lambda>_. Ret None) =
    pbind (on_ipc (hs_server st flg 0 1 session)) (after_connect m n jk api st flg flg' junk forks session z input)"
  using assms
  by (simp add: hs_server_def shm_server_fields serve_client_def pseq_def
      on_ipc_bind pbind_assoc Let_def after_connect_def fun_eq_iff)

lemma client_connects:
  "the_client jk z st flg' junk' input =
    pbind (on_ipc (hs_client st flg' 1 junk')) (after_connect m n jk api st flg flg' junk forks session z input)"
  unfolding the_client_def client_main_def shm_client_def connected_def hs_client_def
    shm_ipc_newsession_def on_ipc_bind pbind_assoc case_prod_unfold banner_def on_ipc.simps pbind.simps
    after_connect_def ended.case
  by (auto intro!: arg_cong2 [where f = pbind] ext)


section \<open>From the start to the end\<close>

lemma shm_disconnects: "\<exists>s'. run_proc (shm_ipc_disconnect r session) s = (Done (), s')"
  by (simp add: shm_ipc_disconnect_def shmem_destroy_def shmem_detach_def sem_destroy_def pseq_def upd_def sys_def)

lemma shm_client_ends:
  "\<exists>s'. run_proc (client_end \<lparr>ci_send = snd_op, ci_receive = rcv_op, ci_disconnect = shm_ipc_disconnect CLIENT q,
      ci_free = shm_ipc_free CLIENT q\<rparr> out) s = (Done out, s')"
  using shm_disconnects [of CLIENT q s]
  by (auto simp: client_end_def pseq_def run_proc_bind shm_ipc_free_def)

text \<open>Opening a database that is well formed, or creating it.\<close>

lemma db_create_wf:
  assumes "sqlite_ok api rd" "view_wf (view rd h)" "db_create api h = (Val (), h')"
  shows "view_wf (view rd h')"
  using db_create_outcome [OF assms(1,3)] script_wf [OF _ assms(2)] by auto

lemma db_open_wf:
  assumes ok: "sqlite_ok api rd" and wf: "view_wf (view rd h)" and run: "db_open api DB_PATH h = (Val 0, h')"
  shows "view_wf (view rd h')"
proof -
  obtain rc h1 where o: "api_open api DB_PATH h = (rc, h1)" by force
  have rc: "rc = SQLITE_OK" using run o by (auto simp: db_open_eq split: if_splits)
  have "committed (view rd h1) = committed (view rd h)" "pending (view rd h1) = None"
    using open_view [OF ok o] rc by auto
  then have v1: "view_wf (view rd h1)" using wf by (simp add: view_wf_def current_def)
  show ?thesis
  proof (cases "db_file_exist api DB_PATH h")
    case True
    with run o rc v1 show ?thesis by (auto simp: db_open_eq quiet_views [OF ok])
  next
    case False
    let ?h = "db_report api [] ''Database does not exist. Creating...'' h1"
    obtain h2 where c: "db_create api ?h = (Val (), h2)" "h' = db_report api [] ''Opened database successfully'' h2"
      using run o rc False by (cases "db_create api ?h"; cases "fst (db_create api ?h)") (auto simp: db_open_eq)
    have "view_wf (view rd ?h)" using v1 by (simp add: quiet_views [OF ok])
    from db_create_wf [OF ok this c(1)] c(2) show ?thesis by (simp add: quiet_views [OF ok])
  qed
qed

text \<open>What a dialogue needs of the requests and answers, and what shared memory needs.\<close>

lemma answered_sent:
  assumes ok: "sqlite_ok api rd" and wf: "view_wf (view rd h)" and d: "dg_wf b d"
    and a: "answered b hp (sqlite_ops b jk api) d h = Some (a, h')"
  shows "view_wf (view rd h')" "execute_datagram b hp (sqlite_ops b jk api) d h = Some (Val (Some a), h')"
    "dg_size d \<le> of_nat DATAGRAM_MAXSIZE" "dg_size a \<le> of_nat DATAGRAM_MAXSIZE" "dg_wf b a"
    "b = MSGQUEUE \<Longrightarrow> dg_sender a = dg_sender d"
proof -
  note ex = answered_executes [OF a]
  show "view_wf (view rd h')"
    using sql_db.execute_total [of api rd h b hp jk d] ok wf ex by auto
  show "dg_wf b a" "b = MSGQUEUE \<Longrightarrow> dg_sender a = dg_sender d"
    using sql_db.execute_answer [of api rd h d b hp jk a h'] ok wf ex dg_wf_raw [OF d] by auto
  show "execute_datagram b hp (sqlite_ops b jk api) d h = Some (Val (Some a), h')"
    "dg_size d \<le> of_nat DATAGRAM_MAXSIZE" "dg_size a \<le> of_nat DATAGRAM_MAXSIZE"
    using ex by simp_all
qed

lemma shm_answered:
  assumes ok: "sqlite_ok api rd" and wf: "view_wf (view rd h)" and d: "dg_wf SHMEM d"
    and a: "answered SHMEM hp (sqlite_ops SHMEM jk api) d h = Some (a, h')"
  shows "shm_fits d \<and> view_wf (view rd h') \<and>
    execute_datagram SHMEM hp (sqlite_ops SHMEM jk api) d h = Some (Val (Some a), h') \<and> shm_fits a"
  using answered_sent [OF assms] d by (simp add: shm_fits_def sizes_same)

lemma shm_bye: "shm_fits (new_dg SHMEM hp (SIZEOF_DG SHMEM) OP_EXIT)"
  using sizes_small [of SHMEM] by (simp add: shm_fits_def sizes_same)


lemma connected_reach:
  fixes s :: shm_state
  assumes keys: "fresh_keys st 1 (vw s)" "roomy s" and forks: "forks 1"
  shows "\<exists>s' session q. shm_idle q s' \<and>
    sys_step\<^sup>*\<^sup>* ((s, h), [the_server m n jk api st flg junk forks, the_client jk z st flg' junk' input])
      ((s', h), map (after_connect m n jk api st flg flg' junk forks session z input)
         [Accepted, Connected 0 q, Synced 2 q])"
proof -
  let ?p = "public_session (vw s)" let ?q = "private_session (vw s)"
  let ?K = "after_connect m n jk api st flg flg' junk forks ?p z input"
  let ?srv = "the_server m n jk api st flg junk forks" let ?cl = "the_client jk z st flg' junk' input"
  obtain s1 where l: "run_proc (shm_ipc_listen st junk) s = (Done (0, ?p), s1)"
      "vw s1 = public_view st (vw s) zeroed [0, 0] [1, 0]" "roomy s1"
    using listen_runs [OF keys] by blast
  have "sys_step\<^sup>*\<^sup>* ((s, h), [?srv, ?cl]) ((s1, h), [?srv, ?cl][0 := pbind (on_ipc (hs_server st flg 0 1 ?p)) ?K])"
    using reach_ipc [OF l(1), of 0 "[?srv, ?cl]", OF _ trans [OF nth_Cons_0 server_starts], of h]
    by (simp add: server_accepts [where forks = forks and flg' = flg' and z = z and input = input, OF forks] del: accept_loop.simps)
  then have 1: "sys_step\<^sup>*\<^sup>* ((s, h), [?srv, ?cl])
      ((s1, h), map (\<lambda>p. pbind (on_ipc p) ?K) [hs_server st flg 0 1 ?p, hs_client st flg' 1 junk'])"
    by (simp add: client_connects [where m = m and n = n and api = api and flg = flg and junk = junk
        and forks = forks and session = ?p])
  obtain s2 where 2: "sys_step\<^sup>*\<^sup>* (s1, [hs_server st flg 0 1 ?p, hs_client st flg' 1 junk'])
        (s2, [Ret Accepted, Ret (Connected 0 ?q), Ret (Synced 2 ?q)])"
      "vw s2 = private_view st 1 (vw s) zeroed [0, 0] [1, 0] zeroed [0, 0]"
    using connect_steps [OF keys(1) l(2,3), of flg 0 flg' 1 junk'] by blast
  have "sys_step\<^sup>*\<^sup>* ((s1, h), map (\<lambda>p. pbind (on_ipc p) ?K) [hs_server st flg 0 1 ?p, hs_client st flg' 1 junk'])
      ((s2, h), map ?K [Accepted, Connected 0 ?q, Synced 2 ?q])"
    using steps_lift [OF 2(1), of h ?K] by simp
  with 1 private_idle [OF 2(2)] show ?thesis by (meson rtranclp_trans)
qed

lemma both_end:
  "\<exists>s'. sys_step\<^sup>*\<^sup>* ((s, h), [x, pbind (on_ipc (client_end
       \<lparr>ci_send = snd_op, ci_receive = rcv_op, ci_disconnect = shm_ipc_disconnect CLIENT q,
        ci_free = shm_ipc_free CLIENT q\<rparr> out)) k, pbind (pseq (on_ipc (shm_ipc_disconnect SERVER q)) (Halt 0)) ki])
    ((s', h), [x, k out, Halt 0])"
    (is "\<exists>s'. sys_step\<^sup>*\<^sup>* (_, [x, pbind (on_ipc ?client) k, ?server]) _")
proof -
  obtain s1 where d: "run_proc (shm_ipc_disconnect SERVER q) s = (Done (), s1)" using shm_disconnects by blast
  obtain s2 where c: "run_proc ?client s1 = (Done out, s2)" using shm_client_ends by blast
  have "sys_step\<^sup>*\<^sup>* ((s, h), [x, pbind (on_ipc ?client) k, ?server])
      ((s1, h), [x, pbind (on_ipc ?client) k, ?server][2 := Halt 0])"
    by (rule reach_ipc [OF d, where k = "\<lambda>_. Halt 0"]) (simp_all add: pseq_def pbind_assoc)
  moreover have "sys_step\<^sup>*\<^sup>* ((s1, h), [x, pbind (on_ipc ?client) k, Halt 0])
      ((s2, h), [x, pbind (on_ipc ?client) k, Halt 0][1 := k out])"
    by (rule reach_ipc [OF c]) simp_all
  ultimately show ?thesis by (auto intro: rtranclp_trans)
qed

lemma session_reach:
  fixes s :: shm_state
  assumes ok: "sqlite_ok (api 2) rd" and wf: "view_wf (view rd h0)" and opened: "db_open (api 2) DB_PATH h0 = (Val 0, h)"
    and keys: "fresh_keys st 1 (vw s)" "roomy s" and forks: "forks 1"
    and input: "\<forall>c \<in> set input. length c \<le> DATAGRAM_MAXSIZE" "length input < n"
    and dia: "dialogue input SHMEM (heap jk) z (answered SHMEM (heap jk) (sqlite_ops SHMEM jk (api 2)))
      empty_buffer False banner h = Some (True, out, h')"
  shows "\<exists>s' ps. sys_step\<^sup>*\<^sup>* ((s, h0), [the_server m n jk api st flg junk forks, the_client jk z st flg' junk' input])
      ((s', h'), ps) \<and>
    ps ! 1 = Ret (Some (out @ ''Enviando comando EXIT'' @ nl)) \<and> ps ! 2 = Halt 0"
proof -
  obtain s1 session q where 1: "shm_idle q s1"
      "sys_step\<^sup>*\<^sup>* ((s, h0), [the_server m n jk api st flg junk forks, the_client jk z st flg' junk' input])
      ((s1, h0), map (after_connect m n jk api st flg flg' junk forks session z input)
         [Accepted, Connected 0 q, Synced 2 q])"
    using connected_reach [where forks = forks and h = h0 and m = m and n = n and jk = jk and api = api
        and flg = flg and junk = junk and z = z and flg' = flg' and junk' = junk' and input = input, OF keys forks]
    by blast
  let ?K = "after_connect m n jk api st flg flg' junk forks session z input"
  let ?io = "\<lparr>ci_send = shm_ipc_send CLIENT flg' 1 q, ci_receive = shm_receive_ptr CLIENT 1 q,
              ci_disconnect = shm_ipc_disconnect CLIENT q, ci_free = shm_ipc_free CLIENT q\<rparr>"
  let ?disc = "shm_ipc_disconnect SERVER q"
  let ?srv = "pbind (serve n SHMEM (heap jk) (sqlite_ops SHMEM jk (api 2))
      (io_of (shm_receive_ptr SERVER 2 q) (shm_ipc_send SERVER flg 2 q) ?disc)) (\<lambda>_. Ret None)"
  let ?ps1 = "map ?K [Accepted, Connected 0 q, Synced 2 q]"
  have srv: "?ps1 ! 2 = pbind (on_db (\<lambda>h. Some (db_open (api 2) DB_PATH h))) (\<lambda>_. ?srv)"
    by (simp add: after_connect_def)
  have "run_proc (on_db (\<lambda>h. Some (db_open (api 2) DB_PATH h))) (s1, h0) = (Done 0, (s1, h))"
    by (simp add: on_db_def of_cres_def opened)
  then have 2: "sys_step\<^sup>*\<^sup>* ((s1, h0), ?ps1) ((s1, h), ?ps1[2 := ?srv])"
    by (rule run_reach [OF _ _ srv]) simp
  let ?ps2 = "?ps1[2 := ?srv]"
  have cl: "?ps2 ! 1 = pbind (on_ipc (client_loop input SHMEM (heap jk) z ?io empty_buffer False banner))
      (\<lambda>out. Ret (Some out))"
    by (simp add: after_connect_def)
  have ask: "shm_fits d \<and> dg_opcode d \<noteq> opc OP_EXIT \<and> view_wf (view rd h') \<and>
      (\<exists>a'. execute_datagram SHMEM (heap jk) (sqlite_ops SHMEM jk (api 2)) d h = Some (Val (Some a'), h') \<and>
         shm_fits a' \<and> a' = a)"
    if "view_wf (view rd h)" "dg_wf SHMEM d" "dg_opcode d \<noteq> opc OP_EXIT"
      "answered SHMEM (heap jk) (sqlite_ops SHMEM jk (api 2)) d h = Some (a, h')" for d h a h'
    using shm_answered [OF ok that(1,2,4)] that(3) by simp
  let ?over = "?ps2[2 := pbind (pseq (on_ipc ?disc) (Halt 0)) (\<lambda>_ :: unit. Ret None),
      1 := pbind (on_ipc (client_end ?io (out @ ''Enviando comando EXIT'' @ nl))) (\<lambda>out. Ret (Some out))]"
  have here: "(2 :: nat) \<noteq> 1" "ci_send ?io = shm_ipc_send CLIENT flg' 1 q" "ci_receive ?io = shm_receive_ptr CLIENT 1 q"
      "dg_opcode (new_dg SHMEM (heap jk) (SIZEOF_DG SHMEM) OP_EXIT) = opc OP_EXIT"
      "length empty_buffer = DATAGRAM_MAXSIZE" "2 < length ?ps2" "1 < length ?ps2" "?ps2 ! 2 = ?srv"
    by (simp_all add: empty_buffer_def)
  obtain s2 where 3: "sys_step\<^sup>*\<^sup>* ((s1, h), ?ps2) ((s2, h'), ?over)"
    using shm_turns.dialogue_reach [where good = "\<lambda>h. view_wf (view rd h)", OF here(1-3) ask shm_bye here(4)
        dia 1(1) db_open_wf [OF ok wf opened] here(5) input here(6-8) cl]
    by blast
  have e: "?over = [?K Accepted, pbind (on_ipc (client_end ?io (out @ ''Enviando comando EXIT'' @ nl))) (\<lambda>out. Ret (Some out)),
      pbind (pseq (on_ipc ?disc) (Halt 0)) (\<lambda>_ :: unit. Ret None)]"
    by simp
  obtain s3 where 4: "sys_step\<^sup>*\<^sup>* ((s2, h'), ?over)
      ((s3, h'), [?K Accepted, Ret (Some (out @ ''Enviando comando EXIT'' @ nl)), Halt 0])"
    unfolding e
    using both_end [where k = "\<lambda>out. Ret (Some out)" and ki = "\<lambda>_. Ret None" and x = "?K Accepted"
        and s = s2 and h = h' and q = q and snd_op = "shm_ipc_send CLIENT flg' 1 q"
        and rcv_op = "shm_receive_ptr CLIENT 1 q" and out = "out @ ''Enviando comando EXIT'' @ nl"] by blast
  show ?thesis
    using rtranclp_trans [OF 1(2) rtranclp_trans [OF 2 rtranclp_trans [OF 3 4]]]
    by (intro exI conjI) (assumption, simp_all)
qed


section \<open>The same layout\<close>

text \<open>But for message queues and files, every build has the datagrams of the local client.\<close>

abbreviation same_as_local :: "build \<Rightarrow> bool" where
  "same_as_local b \<equiv> b \<noteq> MSGQUEUE \<and> b \<noteq> FILES"

lemma same_layout:
  assumes "same_as_local b"
  shows "HDR b = HDR LOCAL" "SIZEOF_DG b = SIZEOF_DG LOCAL"
  using assms by (simp_all add: layout)

lemma same_blocks:
  assumes "same_as_local b"
  shows "malloc_dg b = malloc_dg LOCAL" "new_dg b = new_dg LOCAL" "copy_sender b = copy_sender LOCAL"
  using assms by (simp_all add: malloc_dg_def new_dg_def copy_sender_def layout fun_eq_iff)

lemma same_dump:
  assumes "same_as_local b"
  shows "dump_datagram b = dump_datagram LOCAL"
proof -
  have "datagram_print b = datagram_print LOCAL"
    using assms unfolding datagram_print_def fun_eq_iff by simp
  then show ?thesis by (simp add: dump_datagram_def fun_eq_iff)
qed

lemma same_commands:
  assumes b: "same_as_local b"
  shows "command_to_datagram b = command_to_datagram LOCAL"
  unfolding command_to_datagram_def cmd_ping_def cmd_consult_def cmd_addflight_def same_layout [OF b] same_blocks [OF b]
  by (rule refl)

lemma same_answers:
  assumes b: "same_as_local b"
  shows "parse_answer b = parse_answer LOCAL"
  unfolding parse_answer_def same_dump [OF b] by (rule refl)

lemma same_ops:
  assumes b: "same_as_local b"
  shows "sqlite_ops b = sqlite_ops LOCAL"
  unfolding sqlite_ops_def db_consult_flights_def consult_finish_def same_layout [OF b] same_blocks [OF b] by (rule refl)

lemma same_answered:
  assumes b: "same_as_local b"
  shows "answered b = answered LOCAL"
  unfolding answered_def execute_datagram_def execute_switch_def same_layout [OF b] same_blocks [OF b] by (rule refl)

lemma same_dialogue:
  assumes b: "same_as_local b"
  shows "dialogue input b = dialogue input LOCAL"
proof (induction input)
  case (Cons c cs)
  then show ?case unfolding dialogue.simps fun_eq_iff Cons.IH same_commands [OF b] same_answers [OF b] by blast
qed (simp add: fun_eq_iff)

lemma same_session:
  assumes "same_as_local b"
  shows "dialogue input b hp z (answered b hp (sqlite_ops b jk api)) = dialogue input LOCAL hp z (answered LOCAL hp (sqlite_ops LOCAL jk api))"
  unfolding same_dialogue [OF assms] same_answered [OF assms] same_ops [OF assms] by (rule refl)


section \<open>The networked programs and the local one\<close>

lemma local_session:
  assumes "12 \<le> usable 8" "mutex_free ls pid LOCALCLIENT_MUTEX_PATH" "no_setdelay input"
    and opened: "db_open api DB_PATH h0 = (Val 0, h)"
    and dia: "dialogue input LOCAL (heap jk) z (answered LOCAL (heap jk) (sqlite_ops LOCAL jk api))
      empty_buffer False banner h = Some (ex, out, h')"
  shows "\<exists>ls'. run_proc (local_main usable pid LOCAL jk z api input) (ls, h0) = (Done out, (ls', h'))"
proof -
  let ?mutex = "\<lparr>fm_path = LOCALCLIENT_MUTEX_PATH, fm_fd = -2\<rparr>"
  obtain ls' where "run_proc (local_loop input pid LOCAL (heap jk) z (sqlite_ops LOCAL jk api) empty_buffer False
      ?mutex 0 banner) (ls, h) = (Done out, (ls', h'))"
    using local_dialogue [OF dia assms(3), of ls pid ?mutex 0] assms(2) by auto
  then show ?thesis
    using assms(1) opened
    by (simp add: local_main_def fmutex_new_def of_cres_def run_proc_bind on_db_def banner_def)
qed

text \<open>What was printed before a dialogue stays in front of what it prints.\<close>

lemma dialogue_after:
  "dialogue input b hp z ask buf admin (out @ said) h =
     map_option (\<lambda>(ex, text, h'). (ex, out @ text, h')) (dialogue input b hp z ask buf admin said h)"
proof (induction input arbitrary: buf admin said h)
  case (Cons chunk input)
  then show ?case by (simp add: Let_def split: option.split cres.split)
qed simp

lemma dialogue_begins:
  "dialogue input b hp z ask buf admin [] h = Some (ex, text, h') \<Longrightarrow>
   dialogue input b hp z ask buf admin out h = Some (ex, out @ text, h')"
  using dialogue_after [of input b hp z ask buf admin out "[]" h] by simp

text \<open>A dialogue to the end is one in which the database code prints nothing.\<close>

lemma dialogue_quiet:
  assumes ok: "sqlite_ok api rd"
  shows "dialogue input b hp z (answered b hp (sqlite_ops b jk api)) buf admin out h = Some (ex, out', h') \<Longrightarrow>
    console rd h' = console rd h"
proof (induction input arbitrary: buf admin out h)
  case (Cons chunk input)
  show ?case
  proof (cases "chunk = []")
    case False
    obtain line where line: "cstr (fill_buffer chunk buf) = Some line"
      using Cons.prems False by (cases "cstr (fill_buffer chunk buf)") (simp_all add: Let_def)
    consider "line = []" | "line = ''exit''" | "line \<noteq> []" "line \<noteq> ''exit''" by blast
    then show ?thesis
    proof cases
      case 3
      from Cons.prems False line 3 show ?thesis
      proof (cases rule: dialogue_line)
        case (asks rep d a h1 said)
        from Cons.IH [OF asks(5)] execute_quiet [OF ok] answered_executes [OF asks(3)] show ?thesis by metis
      qed (rule Cons.IH)
    qed (use Cons False line in simp_all)
  qed (use Cons.prems in simp)
qed simp

text \<open>
  C3: the networked program can do what the local one does: for the same lines typed, ending with
  \<open>exit\<close>, there is a run of server and client over shared memory, from a system without objects of
  the program to the end of the client and of its server process, in which the client prints between its
  first prompt and the \<open>exit\<close> what the local client prints there (\<open>text\<close>), and the database ends in
  the same state; and that is what \<open>dialogue\<close> computes, provided no request or answer is longer than
  4096 bytes and \<open>setdelay\<close>, a command only the local client has, is not typed.  The database code, which
  writes to the terminal of the local client, prints nothing meanwhile.

  A run is what there is: another order of the first steps blocks the connection (\<open>Handshake\<close>).  The
  terminals show other lines outside of \<open>text\<close>: those of \<open>ipc_connect\<close> before and of \<open>ipc_disconnect\<close>
  after it for the networked client, and those of \<open>db_open\<close> before it for the local one.
\<close>

theorem networked_is_local:
  fixes s :: shm_state
  assumes db: "sqlite_ok api rd" "view_wf (view rd h0)" "db_open api DB_PATH h0 = (Val 0, h)"
    and system: "fresh_keys st 1 (vw s)" "roomy s" "forks 1"
    and input: "\<forall>c \<in> set input. length c \<le> DATAGRAM_MAXSIZE" "length input < n" "no_setdelay input"
    and mutex: "12 \<le> usable 8" "mutex_free ls pid LOCALCLIENT_MUTEX_PATH"
    and dia: "dialogue input LOCAL (heap jk) z (answered LOCAL (heap jk) (sqlite_ops LOCAL jk api))
      empty_buffer False [] h = Some (True, text, h')"
  shows "console rd h' = console rd h \<and>
    (\<exists>ls'. run_proc (local_main usable pid LOCAL jk z api input) (ls, h0) = (Done (banner @ text), (ls', h'))) \<and>
    (\<exists>s' ps. sys_step\<^sup>*\<^sup>* ((s, h0),
        [pbind (server_main (Suc m) n SHMEM jk (\<lambda>_. api) (shm_server st flg 0 junk) forks 0) (\<lambda>_. Ret None),
         pbind (on_ipc (client_main SHMEM (heap jk) z (shm_client st flg' 1 junk') input)) (\<lambda>out. Ret (Some out))])
        ((s', h'), ps) \<and>
      ps ! 1 = Ret (Some (banner @ text @ ''Enviando comando EXIT'' @ nl)) \<and> ps ! 2 = Halt 0)"
proof (intro conjI)
  note printed = dialogue_begins [OF dia, of banner]
  show "console rd h' = console rd h" by (rule dialogue_quiet [OF db(1) dia])
  show "\<exists>ls'. run_proc (local_main usable pid LOCAL jk z api input) (ls, h0) = (Done (banner @ text), (ls', h'))"
    by (rule local_session [where usable = usable, OF mutex input(3) db(3) printed])
  have d: "dialogue input SHMEM (heap jk) z (answered SHMEM (heap jk) (sqlite_ops SHMEM jk api))
      empty_buffer False banner h = Some (True, banner @ text, h')"
    using printed unfolding same_session [of SHMEM, simplified] .
  from session_reach [where api = "\<lambda>_. api" and forks = forks and m = m and flg = flg and flg' = flg' and junk = junk
      and junk' = junk', OF db system input(1,2) d]
  show "\<exists>s' ps. sys_step\<^sup>*\<^sup>* ((s, h0),
        [pbind (server_main (Suc m) n SHMEM jk (\<lambda>_. api) (shm_server st flg 0 junk) forks 0) (\<lambda>_. Ret None),
         pbind (on_ipc (client_main SHMEM (heap jk) z (shm_client st flg' 1 junk') input)) (\<lambda>out. Ret (Some out))])
        ((s', h'), ps) \<and>
      ps ! 1 = Ret (Some (banner @ text @ ''Enviando comando EXIT'' @ nl)) \<and> ps ! 2 = Halt 0"
    unfolding the_server_def the_client_def append_assoc .
qed


text \<open>The lines \<open>purchase 2\<close> and \<open>exit\<close> on the engine of \<open>SqliteRef\<close>.\<close>

definition ex_lines :: "bytes list" where
  "ex_lines = [''purchase 2'' @ nl, ''exit'' @ nl]"

lemma filled_typed: "nul_free line \<Longrightarrow> fill_buffer (line @ nl) buf = typed line (drop (length line + 1) buf)"
  by (simp add: fill_buffer_def typed_def nl_def list_update_append)

lemma ex_opened:
  obtains h where "db_open ref_api DB_PATH ex_state = (Val 0, h)" "current (ref_view h) = ex_tables"
proof
  show "db_open ref_api DB_PATH ex_state = (Val 0, db_report ref_api [] ''Opened database successfully''
      (snd (api_open ref_api DB_PATH ex_state)))"
    by (simp add: db_open_eq db_file_exist_def ref_api_def ref_access_def ref_open_def ex_state_def)
  show "current (ref_view (db_report ref_api [] ''Opened database successfully''
      (snd (api_open ref_api DB_PATH ex_state)))) = ex_tables"
    using db_report_view [OF ref_sqlite_ok] by (simp add: ref_api_def ref_open_def ex_state_def current_def)
qed

lemma ex_sold:
  assumes "view_wf (ref_view h)" "current (ref_view h) = ex_tables"
  obtains a h' where "answered LOCAL hp (sqlite_ops LOCAL jk ref_api)
      ((new_dg LOCAL hp (SIZEOF_DG LOCAL) OP_PURCHASE)\<lparr>dg_data := 2\<rparr>) h = Some (a, h')"
    "parse_answer LOCAL z a = Val (COLOR_GREEN @ ''Compra exitosa. ID del ticket: 0002'' @ nl @ COLOR_RESET @ nl)"
    "committed (ref_view h') = add_row 2 ex_tables"
proof -
  let ?d = "(new_dg LOCAL hp (SIZEOF_DG LOCAL) OP_PURCHASE)\<lparr>dg_data := 2 :: i32\<rparr>"
  have n: "seq_ticket ex_tables = 1" by (simp add: ex_tables_def)
  obtain h' where h': "db_purchase ref_api 2 h = (Val 2, h')" "committed (ref_view h') = add_row 2 ex_tables"
    using purchase_ready [OF ref_sqlite_ok ref_sqlite_ready, of h 2] assms ex_sellable ex_flight_ids
    by (auto simp: ex_current n)
  have ex: "execute_datagram LOCAL hp (sqlite_ops LOCAL jk ref_api) ?d h = Some (Val (Some ?d), h')"
    using h'(1) by (simp add: execute_datagram_def execute_switch_def sqlite_ops_def Let_def copy_sender_def)
  have "answered LOCAL hp (sqlite_ops LOCAL jk ref_api) ?d h = Some (?d, h')"
    unfolding answered_def ex using sizes_small [of LOCAL] by simp
  moreover have "parse_answer LOCAL z ?d =
      Val (COLOR_GREEN @ ''Compra exitosa. ID del ticket: 0002'' @ nl @ COLOR_RESET @ nl)"
  proof -
    have "dec4 2 = ''0002''" by (simp add: dec4_def dec_nat.simps digit_def numeral_eq_Suc)
    then show ?thesis by (simp add: parse_answer_def)
  qed
  ultimately show ?thesis using that h'(2) by blast
qed


lemma ex_line: "line_ok [''purchase'', ''2'']" "unwords [''purchase'', ''2''] = ''purchase 2''"
  by (simp_all add: line_ok_def writable_def plain_def short_def arg_bounds word_text_def)

lemma ex_command:
  "command_to_datagram LOCAL hp z admin (typed ''purchase 2'' rest) =
     a_request admin [] ((new_dg LOCAL hp (SIZEOF_DG LOCAL) OP_PURCHASE)\<lparr>dg_data := 2\<rparr>)"
proof -
  have "dec (sint (2 :: i32)) = ''2''" by (simp add: dec_def dec_nat.simps digit_def)
  then have "atoi ''2'' = 2" using atoi_dec [of "2 :: i32"] by simp
  then show ?thesis using run_purchase [OF ex_line(1), of LOCAL hp z admin rest] unfolding ex_line(2) by simp
qed

definition ex_text :: string where
  "ex_text = COLOR_GREEN @ ''Compra exitosa. ID del ticket: 0002'' @ nl @ COLOR_RESET @ nl @ print_prompt"

definition ex_out :: string where
  "ex_out = banner @ ex_text"

lemma typed_line: "nul_free line \<Longrightarrow> cstr (typed line rest) = Some line"
  by (simp add: typed_def)

lemma ex_talk:
  assumes "view_wf (ref_view h)" "current (ref_view h) = ex_tables"
  obtains h' where "dialogue ex_lines LOCAL hp z (answered LOCAL hp (sqlite_ops LOCAL jk ref_api)) empty_buffer False [] h =
      Some (True, ex_text, h')" "committed (ref_view h') = add_row 2 ex_tables"
proof -
  let ?ask = "answered LOCAL hp (sqlite_ops LOCAL jk ref_api)"
  let ?d = "(new_dg LOCAL hp (SIZEOF_DG LOCAL) OP_PURCHASE)\<lparr>dg_data := 2\<rparr>"
  obtain a h' where s: "?ask ?d h = Some (a, h')"
      "parse_answer LOCAL z a = Val (COLOR_GREEN @ ''Compra exitosa. ID del ticket: 0002'' @ nl @ COLOR_RESET @ nl)"
      "committed (ref_view h') = add_row 2 ex_tables"
    using ex_sold [OF assms] by blast
  have nul: "nul_free ''purchase 2''" "nul_free ''exit''" by (simp_all add: nul_free_def)
  have last: "dialogue [''exit'' @ nl] LOCAL hp z ?ask buf admin out h' = Some (True, out, h')" for buf admin out
    by (rule dialogue_exit) (use typed_line [OF nul(2)] in \<open>simp_all only: filled_typed [OF nul(2)]\<close>, simp_all add: nl_def)
  have "dialogue ex_lines LOCAL hp z ?ask empty_buffer False [] h = Some (True, ex_text, h')"
    unfolding ex_lines_def ex_text_def
    using dialogue_asks [of "''purchase 2'' @ nl" empty_buffer "''purchase 2''" LOCAL hp z False _ ?d ?ask h a h' _
        "[''exit'' @ nl]" "[]", unfolded filled_typed [OF nul(1)] ex_command a_request_def, OF _ typed_line [OF nul(1)] _ _ refl _ s(1,2)]
      last by simp
  then show ?thesis using that s(3) by blast
qed

lemma ex_dialogue:
  assumes "view_wf (ref_view h)" "current (ref_view h) = ex_tables"
  obtains h' where "dialogue ex_lines LOCAL hp z (answered LOCAL hp (sqlite_ops LOCAL jk ref_api)) empty_buffer False banner h =
      Some (True, ex_out, h')" "committed (ref_view h') = add_row 2 ex_tables"
  using ex_talk [OF assms, of hp z jk] dialogue_begins unfolding ex_out_def by metis

theorem networked_is_local_witness:
  "\<exists>ls' s' ps h'. run_proc (local_main (\<lambda>_. 24) 5 LOCAL ex_junk ex_tz ref_api ex_lines) (no_lock (\<lambda>_ _. False), ex_state) =
      (Done ex_out, (ls', h')) \<and>
    sys_step\<^sup>*\<^sup>* ((ex_no_objects, ex_state),
        [pbind (server_main 2 3 SHMEM ex_junk (\<lambda>_. ref_api)
           (shm_server (Some (5, 3)) 0 0 (public_session (vw ex_no_objects))) (\<lambda>_. True) 0) (\<lambda>_. Ret None),
         pbind (on_ipc (client_main SHMEM (heap ex_junk) ex_tz
           (shm_client (Some (5, 3)) 0 1 (public_session (vw ex_no_objects))) ex_lines)) (\<lambda>out. Ret (Some out))])
        ((s', h'), ps) \<and>
    ps ! 1 = Ret (Some (ex_out @ ''Enviando comando EXIT'' @ nl)) \<and> ps ! 2 = Halt 0 \<and>
    committed (ref_view h') = add_row 2 ex_tables"
proof -
  obtain h where h: "db_open ref_api DB_PATH ex_state = (Val 0, h)" "current (ref_view h) = ex_tables"
    by (rule ex_opened)
  have wf: "view_wf (view ref_reading ex_state)" using ex_state_wf by simp
  have "view_wf (ref_view h)" using db_open_wf [OF ref_sqlite_ok wf h(1)] by simp
  from ex_talk [OF this h(2)] obtain h' where d: "dialogue ex_lines LOCAL (heap ex_junk) ex_tz
      (answered LOCAL (heap ex_junk) (sqlite_ops LOCAL ex_junk ref_api)) empty_buffer False [] h =
        Some (True, ex_text, h')" "committed (ref_view h') = add_row 2 ex_tables" by blast
  have lines: "\<forall>c \<in> set ex_lines. length c \<le> DATAGRAM_MAXSIZE" "length ex_lines < 3" "no_setdelay ex_lines"
    by (simp_all add: ex_lines_def no_setdelay_def layout nl_def)
  have locks: "(12 :: nat) \<le> 24" "mutex_free (no_lock (\<lambda>_ _. False)) 5 LOCALCLIENT_MUTEX_PATH"
    by (simp_all add: mutex_free_def no_lock_def)
  from networked_is_local [where usable = "\<lambda>_. 24" and forks = "\<lambda>_. True" and m = 1 and flg = 0 and flg' = 0
      and junk = "public_session (vw ex_no_objects)" and junk' = "public_session (vw ex_no_objects)",
      OF ref_sqlite_ok wf h(1) ex_fresh TrueI lines locks d(1)]
  show ?thesis using d(2) by (auto simp: numeral_2_eq_2 ex_out_def)
qed

end
