(* ===== verification/Determined.thy ===== *)
theory Determined
  imports Endtoend
begin

text \<open>
  A session is determined: once client and server are connected, the scheduler has nothing to choose.
  Client and server as two processes, over shared memory, named pipes and message queues, with the
  lines typed, the library and the contents of the database as they may be.
\<close>

section \<open>Over a link that takes turns\<close>

context ipc_turns
begin

lemma session_one_run:
  assumes io: "ci_send io = c_send" "ci_receive io = c_recv"
    and ask: "\<And>d h a h'. good h \<Longrightarrow> dg_wf b d \<Longrightarrow> dg_opcode d \<noteq> opc OP_EXIT \<Longrightarrow> ask d h = Some (a, h') \<Longrightarrow>
      req_fits d \<and> dg_opcode (req_seen d) \<noteq> opc OP_EXIT \<and> good h' \<and>
      (\<exists>a'. execute_datagram b hp ops (req_seen d) h = Some (Val (Some a'), h') \<and> ans_fits a' \<and> ans_seen a' = a)"
    and bye: "req_fits (new_dg b hp (SIZEOF_DG b) OP_EXIT)"
    and dia: "dialogue input b hp z ask buf admin out h = Some (ex, out', h')" "idle s" "good h"
      "length buf = DATAGRAM_MAXSIZE" "\<forall>c \<in> set input. length c \<le> DATAGRAM_MAXSIZE" "length input < n"
  shows "\<exists>s' n'. asked s_recv idle ex (req_seen (new_dg b hp (SIZEOF_DG b) OP_EXIT)) s' \<and>
    one_run
      ((s, h), [pbind (serve n b hp ops (io_of s_recv s_send disc)) ki,
         pbind (on_ipc (client_loop input b hp z io buf admin out)) kj])
      ((s', h'), [pbind (serve (Suc n') b hp ops (io_of s_recv s_send disc)) ki,
         pbind (on_ipc (client_end io (out' @ (if ex then ''Enviando comando EXIT'' @ nl else [])))) kj])"
proof -
  obtain s' n' where "asked s_recv idle ex (req_seen (new_dg b hp (SIZEOF_DG b) OP_EXIT)) s'" "hand\<^sup>*\<^sup>*
      ((s, h), pbind (serve n b hp ops (io_of s_recv s_send disc)) ki,
         pbind (on_ipc (client_loop input b hp z io buf admin out)) kj)
      ((s', h'), pbind (serve (Suc n') b hp ops (io_of s_recv s_send disc)) ki,
         pbind (on_ipc (client_end io (out' @ (if ex then ''Enviando comando EXIT'' @ nl else [])))) kj)"
    using dialogue_hands [OF io ask refl bye dia, where disc = disc and ki = ki and kj = kj] by blast
  from this(1) hands_one_run [OF this(2)] show ?thesis by (intro exI conjI)
qed

end

section \<open>An example session\<close>

text \<open>The lines \<open>purchase 2\<close> and \<open>exit\<close>, for each build with the layout of the local one.\<close>

lemma ex_lines_ok: "\<forall>c \<in> set ex_lines. length c \<le> DATAGRAM_MAXSIZE" "length ex_lines < 3"
  by (simp_all add: ex_lines_def layout nl_def)

lemma ex_session:
  assumes "same_as_local b"
  shows "\<exists>h h'. view_wf (view ref_reading h) \<and>
    dialogue ex_lines b hp z (answered b hp (sqlite_ops b jk ref_api)) empty_buffer False banner h = Some (True, ex_out, h') \<and>
    committed (ref_view h') = add_row 2 ex_tables"
proof -
  obtain h where h: "db_open ref_api DB_PATH ex_state = (Val 0, h)" "current (ref_view h) = ex_tables"
    by (rule ex_opened)
  have wf: "view_wf (view ref_reading ex_state)" using ex_state_wf by simp
  have "view_wf (ref_view h)" using db_open_wf [OF ref_sqlite_ok wf h(1)] by simp
  moreover obtain h' where "dialogue ex_lines LOCAL hp z (answered LOCAL hp (sqlite_ops LOCAL jk ref_api)) empty_buffer
      False banner h = Some (True, ex_out, h')" "committed (ref_view h') = add_row 2 ex_tables"
    using ex_dialogue [OF calculation h(2), where hp = hp and z = z and jk = jk] by blast
  ultimately show ?thesis unfolding same_session [OF assms] view_ref by blast
qed

definition shm_ex_io :: "shm_state client_io" where
  "shm_ex_io = \<lparr>ci_send = shm_ipc_send CLIENT 0 1 ex_shm_session, ci_receive = shm_receive_ptr CLIENT 1 ex_shm_session,
     ci_disconnect = shm_ipc_disconnect CLIENT ex_shm_session, ci_free = shm_ipc_free CLIENT ex_shm_session\<rparr>"

definition fifo_ex_io :: "fifo_state client_io" where
  "fifo_ex_io = \<lparr>ci_send = fifo_ipc_send CLIENT killed ex_fifo_session, ci_receive = fifo_ipc_receive CLIENT ex_fifo_session,
     ci_disconnect = fifo_ipc_disconnect CLIENT ex_fifo_session, ci_free = fifo_ipc_free CLIENT ex_fifo_session\<rparr>"

lemma ex_io:
  "ci_send shm_ex_io = shm_ipc_send CLIENT 0 1 ex_shm_session" "ci_receive shm_ex_io = shm_receive_ptr CLIENT 1 ex_shm_session"
  "ci_send fifo_ex_io = fifo_ipc_send CLIENT killed ex_fifo_session" "ci_receive fifo_ex_io = fifo_ipc_receive CLIENT ex_fifo_session"
  by (simp_all add: shm_ex_io_def fifo_ex_io_def)

lemma ex_fifo_ends: "fs_serverfd_r ex_fifo_session \<noteq> fs_serverfd_w ex_fifo_session"
  by (simp add: ex_fifo_session_def)

section \<open>Over the transports\<close>

lemma fifo_bye: "fifo_fits (new_dg FIFO hp (SIZEOF_DG FIFO) OP_EXIT)"
  using sizes_small [of FIFO] by (simp add: fifo_fits_def)

lemma mq_bye: "msg_fits (new_dg MSGQUEUE hp (SIZEOF_DG MSGQUEUE) OP_EXIT)"
  using sizes_small [of MSGQUEUE] by (simp add: msg_fits_def)

text \<open>
  C7: a session over shared memory is determined: from a connected session, whatever the order in
  which the two processes are scheduled, client and server are on one run; it comes to the end of the
  client, with the text printed and the database left as \<open>dialogue\<close> computes them, and nothing that
  can happen before keeps it from there.
\<close>

theorem shm_session_determined:
  fixes s :: "'z shm_state_scheme"
  assumes db: "sqlite_ok api rd" "view_wf (view rd h)" and idle: "shm_idle session s"
    and input: "\<forall>c \<in> set input. length c \<le> DATAGRAM_MAXSIZE" "length input < n"
    and io: "ci_send io = shm_ipc_send CLIENT flg' p session" "ci_receive io = shm_receive_ptr CLIENT p session"
    and dia: "dialogue input SHMEM hp z (answered SHMEM hp (sqlite_ops SHMEM jk api)) empty_buffer admin out h =
      Some (ex, out', h')"
  shows "\<exists>s' n'. asked (shm_receive_ptr SERVER q session) (shm_idle session) ex
      (new_dg SHMEM hp (SIZEOF_DG SHMEM) OP_EXIT) s' \<and>
    one_run
      ((s, h), [pbind (serve n SHMEM hp (sqlite_ops SHMEM jk api)
           (io_of (shm_receive_ptr SERVER q session) (shm_ipc_send SERVER flg q session) disc)) (\<lambda>_. Ret None),
         pbind (on_ipc (client_loop input SHMEM hp z io empty_buffer admin out)) (\<lambda>out. Ret (Some out))])
      ((s', h'), [pbind (serve (Suc n') SHMEM hp (sqlite_ops SHMEM jk api)
           (io_of (shm_receive_ptr SERVER q session) (shm_ipc_send SERVER flg q session) disc)) (\<lambda>_. Ret None),
         pbind (on_ipc (client_end io (out' @ (if ex then ''Enviando comando EXIT'' @ nl else []))))
           (\<lambda>out. Ret (Some out))])"
proof (rule shm_turns.session_one_run [where good = "\<lambda>h. view_wf (view rd h)", OF io _ shm_bye dia idle db(2) _ input])
  fix d h a h'
  assume "view_wf (view rd h)" "dg_wf SHMEM d" "dg_opcode d \<noteq> opc OP_EXIT"
    "answered SHMEM hp (sqlite_ops SHMEM jk api) d h = Some (a, h')"
  then show "shm_fits d \<and> dg_opcode d \<noteq> opc OP_EXIT \<and> view_wf (view rd h') \<and>
      (\<exists>a'. execute_datagram SHMEM hp (sqlite_ops SHMEM jk api) d h = Some (Val (Some a'), h') \<and>
         shm_fits a' \<and> a' = a)"
    using shm_answered [OF db(1)] by blast
qed (simp add: empty_buffer_def)

theorem shm_session_determined_witness:
  "\<exists>h s' h' n'. asked (shm_receive_ptr SERVER 2 ex_shm_session) (shm_idle ex_shm_session) True (new_dg SHMEM ex_heap (SIZEOF_DG SHMEM) OP_EXIT) s' \<and>
    one_run
      ((ex_shm, h), [pbind (serve 3 SHMEM ex_heap (sqlite_ops SHMEM ex_junk ref_api)
           (io_of (shm_receive_ptr SERVER 2 ex_shm_session) (shm_ipc_send SERVER 0 2 ex_shm_session) (shm_ipc_disconnect SERVER ex_shm_session))) (\<lambda>_. Ret None),
         pbind (on_ipc (client_loop ex_lines SHMEM ex_heap ex_tz shm_ex_io empty_buffer False banner)) (\<lambda>out. Ret (Some out))])
      ((s', h'), [pbind (serve (Suc n') SHMEM ex_heap (sqlite_ops SHMEM ex_junk ref_api)
           (io_of (shm_receive_ptr SERVER 2 ex_shm_session) (shm_ipc_send SERVER 0 2 ex_shm_session) (shm_ipc_disconnect SERVER ex_shm_session))) (\<lambda>_. Ret None),
         pbind (on_ipc (client_end shm_ex_io (ex_out @ ''Enviando comando EXIT'' @ nl))) (\<lambda>out. Ret (Some out))]) \<and>
    committed (ref_view h') = add_row 2 ex_tables"
proof -
  obtain h h' where h: "view_wf (view ref_reading h)" "dialogue ex_lines SHMEM ex_heap ex_tz
      (answered SHMEM ex_heap (sqlite_ops SHMEM ex_junk ref_api)) empty_buffer False banner h = Some (True, ex_out, h')"
      "committed (ref_view h') = add_row 2 ex_tables"
    using ex_session [of SHMEM ex_heap ex_tz ex_junk] by auto
  from shm_session_determined [OF ref_sqlite_ok h(1) ex_shm_idle ex_lines_ok ex_io(1,2) h(2)] h(3)
  show ?thesis unfolding if_True by blast
qed

text \<open>
  C8: a session over named pipes is determined in the same way, given that its two pipes are different
  ones.
\<close>

theorem fifo_session_determined:
  fixes s :: "'z fifo_state_scheme"
  assumes db: "sqlite_ok api rd" "view_wf (view rd h)"
    and idle: "fifo_idle session s" "fs_serverfd_r session \<noteq> fs_serverfd_w session"
    and input: "\<forall>c \<in> set input. length c \<le> DATAGRAM_MAXSIZE" "length input < n"
    and io: "ci_send io = fifo_ipc_send CLIENT csig session" "ci_receive io = fifo_ipc_receive CLIENT session"
    and dia: "dialogue input FIFO hp z (answered FIFO hp (sqlite_ops FIFO jk api)) empty_buffer admin out h =
      Some (ex, out', h')"
  shows "\<exists>s' n'. asked (fifo_ipc_receive SERVER session) (fifo_idle session) ex
      (new_dg FIFO hp (SIZEOF_DG FIFO) OP_EXIT) s' \<and>
    one_run
      ((s, h), [pbind (serve n FIFO hp (sqlite_ops FIFO jk api)
           (io_of (fifo_ipc_receive SERVER session) (fifo_ipc_send SERVER ssig session) disc)) (\<lambda>_. Ret None),
         pbind (on_ipc (client_loop input FIFO hp z io empty_buffer admin out)) (\<lambda>out. Ret (Some out))])
      ((s', h'), [pbind (serve (Suc n') FIFO hp (sqlite_ops FIFO jk api)
           (io_of (fifo_ipc_receive SERVER session) (fifo_ipc_send SERVER ssig session) disc)) (\<lambda>_. Ret None),
         pbind (on_ipc (client_end io (out' @ (if ex then ''Enviando comando EXIT'' @ nl else []))))
           (\<lambda>out. Ret (Some out))])"
    (is "\<exists>s' n'. _ s' \<and> ?run s' n'")
proof -
  have "\<exists>s' n'. asked (fifo_ipc_receive SERVER session) (fifo_apart session) ex
      (new_dg FIFO hp (SIZEOF_DG FIFO) OP_EXIT) s' \<and> ?run s' n'"
  proof (rule fifo_turns.session_one_run [where good = "\<lambda>h. view_wf (view rd h)", OF io _ fifo_bye dia _ db(2) _ input])
    fix d h a h'
    assume wf: "view_wf (view rd h)" and d: "dg_wf FIFO d" "dg_opcode d \<noteq> opc OP_EXIT"
      and a: "answered FIFO hp (sqlite_ops FIFO jk api) d h = Some (a, h')"
    from answered_sent [OF db(1) wf d(1) a] d show "fifo_fits d \<and> dg_opcode d \<noteq> opc OP_EXIT \<and> view_wf (view rd h') \<and>
        (\<exists>a'. execute_datagram FIFO hp (sqlite_ops FIFO jk api) d h = Some (Val (Some a'), h') \<and>
           fifo_fits a' \<and> a' = a)"
      by (simp add: fifo_fits_def)
  qed (use idle in \<open>simp_all add: empty_buffer_def fifo_apart_def\<close>)
  moreover have "asked r (fifo_apart session) ex d s' \<Longrightarrow> asked r (fifo_idle session) ex d s'" for r d s'
    by (auto simp: asked_def fifo_apart_def)
  ultimately show ?thesis by blast
qed

theorem fifo_session_determined_witness:
  "\<exists>h s' h' n'. asked (fifo_ipc_receive SERVER ex_fifo_session) (fifo_idle ex_fifo_session) True (new_dg FIFO ex_heap (SIZEOF_DG FIFO) OP_EXIT) s' \<and>
    one_run
      ((ex_fifo, h), [pbind (serve 3 FIFO ex_heap (sqlite_ops FIFO ex_junk ref_api)
           (io_of (fifo_ipc_receive SERVER ex_fifo_session) (fifo_ipc_send SERVER (fifo_sigpipe ex_fifo_session) ex_fifo_session) (fifo_ipc_disconnect SERVER ex_fifo_session))) (\<lambda>_. Ret None),
         pbind (on_ipc (client_loop ex_lines FIFO ex_heap ex_tz fifo_ex_io empty_buffer False banner)) (\<lambda>out. Ret (Some out))])
      ((s', h'), [pbind (serve (Suc n') FIFO ex_heap (sqlite_ops FIFO ex_junk ref_api)
           (io_of (fifo_ipc_receive SERVER ex_fifo_session) (fifo_ipc_send SERVER (fifo_sigpipe ex_fifo_session) ex_fifo_session) (fifo_ipc_disconnect SERVER ex_fifo_session))) (\<lambda>_. Ret None),
         pbind (on_ipc (client_end fifo_ex_io (ex_out @ ''Enviando comando EXIT'' @ nl))) (\<lambda>out. Ret (Some out))]) \<and>
    committed (ref_view h') = add_row 2 ex_tables"
proof -
  obtain h h' where h: "view_wf (view ref_reading h)" "dialogue ex_lines FIFO ex_heap ex_tz
      (answered FIFO ex_heap (sqlite_ops FIFO ex_junk ref_api)) empty_buffer False banner h = Some (True, ex_out, h')"
      "committed (ref_view h') = add_row 2 ex_tables"
    using ex_session [of FIFO ex_heap ex_tz ex_junk] by auto
  from fifo_session_determined [OF ref_sqlite_ok h(1) ex_fifo_idle ex_fifo_ends ex_lines_ok ex_io(3,4) h(2)] h(3)
  show ?thesis unfolding if_True by blast
qed

text \<open>Over message queues the server sees the requests with the number of the client's process.\<close>

theorem mq_session_determined:
  assumes db: "sqlite_ok api rd" "view_wf (view rd h)" and idle: "msg_idle session s" "0 < sint pid"
    and input: "\<forall>c \<in> set input. length c \<le> DATAGRAM_MAXSIZE" "length input < n"
    and io: "ci_send io = msg_ipc_send CLIENT pid session" "ci_receive io = msg_ipc_receive CLIENT hp pid session"
    and dia: "dialogue input MSGQUEUE hp z
      (\<lambda>d. answered MSGQUEUE hp (sqlite_ops MSGQUEUE jk api) (d\<lparr>dg_sender := pid\<rparr>)) empty_buffer admin out h =
      Some (ex, out', h')"
  shows "\<exists>s' n'. asked (msg_ipc_receive SERVER hp srv session) (\<lambda>s. msg_idle session s \<and> 0 < sint pid) ex
      ((new_dg MSGQUEUE hp (SIZEOF_DG MSGQUEUE) OP_EXIT)\<lparr>dg_sender := pid\<rparr>) s' \<and>
    one_run
      ((s, h), [pbind (serve n MSGQUEUE hp (sqlite_ops MSGQUEUE jk api)
           (io_of (msg_ipc_receive SERVER hp srv session) (msg_ipc_send SERVER srv session) disc)) (\<lambda>_. Ret None),
         pbind (on_ipc (client_loop input MSGQUEUE hp z io empty_buffer admin out)) (\<lambda>out. Ret (Some out))])
      ((s', h'), [pbind (serve (Suc n') MSGQUEUE hp (sqlite_ops MSGQUEUE jk api)
           (io_of (msg_ipc_receive SERVER hp srv session) (msg_ipc_send SERVER srv session) disc)) (\<lambda>_. Ret None),
         pbind (on_ipc (client_end io (out' @ (if ex then ''Enviando comando EXIT'' @ nl else []))))
           (\<lambda>out. Ret (Some out))])"
proof (rule mq_turns.session_one_run [where good = "\<lambda>h. view_wf (view rd h)", OF io _ mq_bye dia _ db(2) _ input])
  fix d h a h'
  assume wf: "view_wf (view rd h)" and d: "dg_wf MSGQUEUE d" "dg_opcode d \<noteq> opc OP_EXIT"
    and a: "answered MSGQUEUE hp (sqlite_ops MSGQUEUE jk api) (d\<lparr>dg_sender := pid\<rparr>) h = Some (a, h')"
  have "dg_wf MSGQUEUE (d\<lparr>dg_sender := pid\<rparr>)" using d(1) by (simp add: dg_wf_def)
  from answered_sent [OF db(1) wf this a] d
  show "msg_fits d \<and> dg_opcode (d\<lparr>dg_sender := pid\<rparr>) \<noteq> opc OP_EXIT \<and> view_wf (view rd h') \<and>
      (\<exists>a'. execute_datagram MSGQUEUE hp (sqlite_ops MSGQUEUE jk api) (d\<lparr>dg_sender := pid\<rparr>) h = Some (Val (Some a'), h') \<and>
         (msg_fits a' \<and> dg_sender a' = pid) \<and> a' = a)"
    by (simp add: msg_fits_def)
qed (use idle in \<open>simp_all add: empty_buffer_def\<close>)

end
