(* ===== verification/Created.thy ===== *)
theory Created
  imports Catalogue
begin

text \<open>
  The database file \<open>db_open\<close> has to create: \<open>db_create\<close> of \<open>server/db/database.c\<close> runs one text with
  the statements for both tables.  When it succeeds the database is empty and usable at once; when it
  fails the file stays behind without the table \<open>flight\<close>, and no later start creates it.
\<close>

section \<open>Creation that succeeds\<close>

definition empty_tables :: tables where
  "empty_tables = \<lparr>tickets = Some [], flights = Some [], seq_ticket = 0, seq_flight = 0\<rparr>"

lemma creation_exec:
  assumes "current v = no_tables" "pending v = None"
  shows "script_exec creation v = Some (v\<lparr>committed := empty_tables\<rparr>)"
  using assms by (simp add: creation_def no_tables_def empty_tables_def put_current_def current_def)

lemma create_ready:
  assumes ok: "sqlite_ok api rd" and rdy: "sqlite_ready api rd"
    and new: "file_access api DB_PATH h \<noteq> 0"
  shows "\<exists>h'. db_open api DB_PATH h = (Val 0, h') \<and>
    view rd h' = \<lparr>committed = empty_tables, pending = None, last_rowid = 0\<rparr>"
proof -
  obtain rc h1 where o: "api_open api DB_PATH h = (rc, h1)" by force
  then have rc: "rc = SQLITE_OK" using ready_rules(1) [OF rdy, of h] by simp
  have v1: "committed (view rd h1) = no_tables" "pending (view rd h1) = None" "last_rowid (view rd h1) = 0"
    using open_view [OF ok o] access_view [OF ok new] rc by auto
  let ?h1 = "db_report api [] ''Database does not exist. Creating...'' h1"
  obtain r h2 where c: "db_create api ?h1 = (r, h2)" by force
  have ex: "script_exec creation (view rd ?h1) = Some ((view rd h1)\<lparr>committed := empty_tables\<rparr>)"
    using creation_exec v1 by (simp add: current_def quiet_views [OF ok])
  with db_create_outcome [OF ok c] rdy
  have r: "r = Val ()" "view rd h2 = (view rd h1)\<lparr>committed := empty_tables\<rparr>" by auto
  have "db_open api DB_PATH h = (Val 0, db_report api [] ''Opened database successfully'' h2)"
    using o rc new c r(1) by (simp add: db_open_eq db_file_exist_def)
  then show ?thesis using r(2) v1 by (simp add: quiet_views [OF ok])
qed

text \<open>
  C21: a database file that \<open>db_open\<close> has to create is usable at once: the open succeeds with both
  tables empty, the first flight entered gets the id 1, and the first ticket sold for it the id 1.
\<close>

theorem fresh_database_works:
  assumes "sqlite_ok api rd" "sqlite_ready api rd" "file_access api DB_PATH h \<noteq> 0"
  shows "\<exists>h1 h2 h3. db_open api DB_PATH h = (Val 0, h1) \<and> committed (view rd h1) = empty_tables \<and>
    db_add_flight api dep og dest h1 = (Val 1, h2) \<and> db_purchase api 1 h2 = (Val 1, h3) \<and>
    committed (view rd h3) =
      \<lparr>tickets = Some [(1, 1)], flights = Some [(1, sint dep, sint og, sint dest)], seq_ticket = 1, seq_flight = 1\<rparr>"
proof -
  let ?t = "\<lparr>tickets = Some [], flights = Some [(1, sint dep, sint og, sint dest)], seq_ticket = 0, seq_flight = 1\<rparr>"
  obtain h1 where h1: "db_open api DB_PATH h = (Val 0, h1)"
      "view rd h1 = \<lparr>committed = empty_tables, pending = None, last_rowid = 0\<rparr>"
    using create_ready [OF assms] by blast
  then obtain h2 where h2: "db_add_flight api dep og dest h1 = (Val 1, h2)"
      "view rd h2 = \<lparr>committed = ?t, pending = None, last_rowid = 1\<rparr>"
    using add_flight_ready [OF assms(1,2), of h1 dep og dest]
    by (auto simp: current_def empty_tables_def add_flight_row_def flight_list_def put_current_def MAX_ROWID_def)
  have "view_wf (view rd h2)" "sellable (current (view rd h2))" "sint (1 :: i32) \<in> flight_ids (current (view rd h2))"
    by (simp_all add: h2(2) view_wf_def tables_wf_def tickets_valid_def ids_ok_def ticket_list_def flight_list_def
        current_def sellable_def flight_ids_def MAX_ROWID_def)
  from purchase_existing [OF assms(1,2) this]
  obtain h3 where "db_purchase api 1 h2 = (Val 1, h3)" "committed (view rd h3) = add_row 1 ?t"
    by (auto simp: h2(2) current_def)
  with h1 h2(1) show ?thesis by (auto simp: add_row_def ticket_list_def)
qed

definition no_file :: ref_state where
  "no_file = \<lparr>ref_view = \<lparr>committed = no_tables, pending = None, last_rowid = 0\<rparr>, ref_file = False,
     ref_console = []\<rparr>"

lemma no_file_access: "file_access ref_api DB_PATH no_file \<noteq> 0"
  by (simp add: ref_api_def ref_access_def no_file_def)

theorem fresh_database_works_witness:
  "\<exists>h1 h2 h3. db_open ref_api DB_PATH no_file = (Val 0, h1) \<and>
     db_add_flight ref_api 100 20 31 h1 = (Val 1, h2) \<and> db_purchase ref_api 1 h2 = (Val 1, h3) \<and>
     flights (committed (ref_view h3)) = Some [(1, 100, 20, 31)]"
  using fresh_database_works [OF ref_sqlite_ok ref_sqlite_ready no_file_access, of 100 20 31] by auto

section \<open>Creation that fails\<close>

lemma creation_stopped:
  assumes "stopped rc creation v v'" "committed v = no_tables"
  shows "flights (committed (rollback v')) = None"
proof -
  have u: "flights (committed w') = None" if "unharmed rc w w'" "flights (committed w) = None" for w w'
    using that by (auto simp: unharmed_def)
  have none: "flights (committed v) = None" using assms(2) by (simp add: no_tables_def)
  from assms(1) consider "unharmed rc v v'"
    | w where "stmt_exec Create_ticket v = Some w" "unharmed rc w v'"
    by (auto simp: creation_def simp del: stmt_exec.simps split: option.splits)
  then show ?thesis
  proof cases
    case 1
    with u [OF _ none] show ?thesis by simp
  next
    case 2
    have "flights (committed w) = None"
      using 2(1) none by (auto simp: put_current_def current_def split: option.splits)
    with u [OF 2(2)] show ?thesis by simp
  qed
qed

lemma create_fails:
  assumes ok: "sqlite_ok api rd" and run: "db_open api DB_PATH h = (Exit 1, h')"
  shows "flights (committed (view rd h')) = None"
proof -
  obtain rc h1 where o: "api_open api DB_PATH h = (rc, h1)" by force
  let ?h1 = "db_report api [] ''Database does not exist. Creating...'' h1"
  obtain r h2 where c: "db_create api ?h1 = (r, h2)" by force
  have new: "file_access api DB_PATH h \<noteq> 0" and r: "r = Exit 1" "h' = h2"
    using run o c db_create_outcome [OF ok c] by (auto simp: db_open_eq db_file_exist_def split: if_splits)
  have "committed (view rd ?h1) = no_tables"
    using open_view(1) [OF ok o] access_view [OF ok new] by (simp add: quiet_views [OF ok])
  with db_create_outcome [OF ok c] r show ?thesis using creation_stopped by fastforce
qed

lemma no_flights_add:
  assumes "sqlite_ok api rd" "flights (current (view rd h)) = None"
  shows "fst (db_add_flight api dep og dest h) = Exit 1"
proof -
  obtain r h' where run: "db_add_flight api dep og dest h = (r, h')" by force
  from db_add_flight_outcome [OF assms(1) run] assms(2) run show ?thesis by auto
qed

lemma no_flights_consult:
  assumes "sqlite_ok api rd" "flights (current (view rd h)) = None"
  shows "map_option fst (db_consult_flights b jk api og dest h) = Some (Exit 1)"
proof -
  have none: "consult_rows og dest (view rd h) = None"
    using assms(2) by (simp add: consult_rows_def)
  from db_consult_outcome [OF assms(1), of b jk og dest h] show ?thesis unfolding none by auto
qed

lemma no_flights_purchase:
  assumes ok: "sqlite_ok api rd" and none: "flights (committed (view rd h)) = None" "pending (view rd h) = None"
  shows "fst (db_purchase api fid h) = Exit 1"
proof -
  let ?h1 = "snd (api_exec api (stmt_text Begin_transaction) h)"
  have c1: "flights (current (view rd ?h1)) = None" using none begin_keeps [OF ok none(2)] by simp
  obtain p h2 where p: "DB_PREPARE_STATEMENT api (query_text (Count_flight (sint fid))) ?h1 = (p, h2)"
    by force
  have "p = Exit 1" using prepare_outcome [OF ok p] c1 by auto
  then show ?thesis using p by (simp add: db_purchase_def db_flight_exists_def csimps)
qed

text \<open>
  Opening a database successfully creates its file, if it was not there, and none of the other calls
  that \<open>db_open\<close> makes before it gives up removes it.
\<close>

definition file_spec :: "('h, 'q) sqlite \<Rightarrow> bool" where
  "file_spec api \<longleftrightarrow>
     (\<forall>h h'. api_open api DB_PATH h = (SQLITE_OK, h') \<longrightarrow> file_access api DB_PATH h' = 0) \<and>
     (\<forall>h. file_access api DB_PATH (snd (api_exec api (script_text creation) h)) = file_access api DB_PATH h) \<and>
     (\<forall>h. file_access api DB_PATH (api_close api h) = file_access api DB_PATH h) \<and>
     (\<forall>msg h. file_access api DB_PATH (api_free api msg h) = file_access api DB_PATH h) \<and>
     (\<forall>msg h. file_access api DB_PATH (api_printf api msg h) = file_access api DB_PATH h)"

lemma file_rules:
  assumes "file_spec api"
  shows "api_open api DB_PATH h = (SQLITE_OK, h') \<Longrightarrow> file_access api DB_PATH h' = 0"
    and "api_exec api (script_text creation) h = (rc, h') \<Longrightarrow> file_access api DB_PATH h' = file_access api DB_PATH h"
    and "file_access api DB_PATH (api_close api h) = file_access api DB_PATH h"
    and "file_access api DB_PATH (api_free api msg h) = file_access api DB_PATH h"
    and "file_access api DB_PATH (db_report api what msg h) = file_access api DB_PATH h"
  using assms unfolding file_spec_def db_report_def by (metis snd_conv)+

lemma create_leaves_file:
  assumes fs: "file_spec api" and run: "db_open api DB_PATH h = (Exit 1, h')"
  shows "file_access api DB_PATH h' = 0"
proof -
  obtain rc h1 where o: "api_open api DB_PATH h = (rc, h1)" by force
  let ?h1 = "db_report api [] ''Database does not exist. Creating...'' h1"
  obtain rc2 h2 where e: "api_exec api (script_text creation) ?h1 = (rc2, h2)" by force
  let ?msg = "api_exec_err api (script_text creation) ?h1"
  have rc: "rc = SQLITE_OK" using run o by (auto simp: db_open_eq split: if_splits)
  have "h' = api_close api (api_free api ?msg (db_report api ''SQL error: '' ?msg h2))"
    using run o rc e by (auto simp: db_open_eq db_create_script split: if_splits)
  moreover have "file_access api DB_PATH h2 = 0"
    using file_rules(1) [OF fs o [unfolded rc]] file_rules(2) [OF fs e] by (simp add: file_rules(5) [OF fs])
  ultimately show ?thesis by (simp add: file_rules(3-5) [OF fs])
qed

text \<open>
  C22: when the creation of the tables fails, the server exits and the file stays; any later start that
  can open it, with the file and what is in it as they were left, finds the file, creates nothing and
  reports success, and then every consultation, purchase or new flight ends the server process with
  status 1: whether to create is decided by the file alone.
\<close>

theorem failed_creation_lasts:
  assumes ok: "sqlite_ok api rd" and files: "file_spec api" and fails: "db_open api DB_PATH h = (Exit 1, h1)"
    and later: "committed (view rd h2) = committed (view rd h1)"
      "file_access api DB_PATH h2 = file_access api DB_PATH h1" "fst (api_open api DB_PATH h2) = SQLITE_OK"
  shows "file_access api DB_PATH h1 = 0 \<and>
    (\<exists>h3. db_open api DB_PATH h2 = (Val 0, h3) \<and> committed (view rd h3) = committed (view rd h1) \<and>
      flights (committed (view rd h3)) = None \<and>
      fst (db_add_flight api dep og dest h3) = Exit 1 \<and> fst (db_purchase api fid h3) = Exit 1 \<and>
      map_option fst (db_consult_flights b jk api og' dest' h3) = Some (Exit 1))"
proof -
  have there: "file_access api DB_PATH h1 = 0" by (rule create_leaves_file [OF files fails])
  obtain h4 where o: "api_open api DB_PATH h2 = (SQLITE_OK, h4)" using later(3) by (metis prod.collapse)
  let ?h3 = "db_report api [] ''Opened database successfully'' h4"
  have run: "db_open api DB_PATH h2 = (Val 0, ?h3)"
    using o there later(2) by (simp add: db_open_eq db_file_exist_def)
  have kept: "committed (view rd ?h3) = committed (view rd h1)" "pending (view rd ?h3) = None"
    using open_view [OF ok o] later(1) by (simp_all add: quiet_views [OF ok])
  with create_fails [OF ok fails] have none: "flights (committed (view rd ?h3)) = None" by simp
  then have "flights (current (view rd ?h3)) = None" using kept(2) by (simp add: current_def)
  with there run kept none show ?thesis
    using no_flights_add [OF ok] no_flights_consult [OF ok] no_flights_purchase [OF ok] by blast
qed

text \<open>The engine of \<open>SqliteRef\<close> on a disk that is full when the tables are created.\<close>

definition full_api :: "(ref_state, ref_stmt) sqlite" where
  "full_api = ref_api\<lparr>api_exec := \<lambda>sql h.
     if sql = script_text creation then (SQLITE_FULL, h) else api_exec ref_api sql h\<rparr>"

lemma full_sqlite_ok: "sqlite_ok full_api ref_reading"
proof -
  have "exec_spec ref_api ref_reading" using ref_sqlite_ok by (simp add: sqlite_ok_def)
  then have "exec_spec full_api ref_reading"
    unfolding full_api_def by (rule exec_spec_failing) (auto simp: unharmed_def result_codes split: if_splits)
  then show ?thesis
    unfolding full_api_def by (rule sqlite_ok_exec [OF ref_sqlite_ok]) (simp add: ref_exec_console)
qed

lemma full_file: "file_spec full_api"
proof -
  have "ref_file (snd (ref_exec sql h)) = ref_file h" for sql h
    by (simp add: ref_exec_def split: option.split prod.split)
  then show ?thesis
    by (simp add: file_spec_def full_api_def ref_api_def ref_access_def ref_open_def)
qed

theorem failed_creation_lasts_witness:
  "\<exists>h1 h3. db_open full_api DB_PATH no_file = (Exit 1, h1) \<and> file_access full_api DB_PATH h1 = 0 \<and>
     db_open full_api DB_PATH h1 = (Val 0, h3) \<and>
     fst (db_add_flight full_api 100 20 31 h3) = Exit 1 \<and> fst (db_purchase full_api 1 h3) = Exit 1 \<and>
     map_option fst (db_consult_flights SHMEM ex_junk full_api (-1) (-1) h3) = Some (Exit 1)"
proof -
  obtain h1 where h1: "db_open full_api DB_PATH no_file = (Exit 1, h1)"
    by (simp add: db_open_eq db_create_script db_file_exist_def full_api_def ref_api_def ref_access_def ref_open_def
        no_file_def db_report_def result_codes)
  have opens: "fst (api_open full_api DB_PATH h1) = SQLITE_OK"
    by (simp add: full_api_def ref_api_def ref_open_def)
  from failed_creation_lasts [OF full_sqlite_ok full_file h1 refl refl opens] h1 show ?thesis by blast
qed

end
