(* ===== verification/Spec2Isabelle.thy ===== *)
theory Spec2Isabelle
  imports Pieces Progress Reports Filesig Determined Created
begin

text \<open>
  So-WannaFlight: a flight reservation service in C.  A client reads commands at a prompt, turns
  each into a request datagram and prints the answer; a server executes the request on an SQLite
  database.  Client and server talk over one of five transports, chosen when they are built
  (shared memory, named pipes, message queues, TCP, files and signals); a local client executes the
  requests itself, one process at a time, behind a lock on a file.

  \<^bold>\<open>Parts and theories.\<close>  The theories follow the files of \<open>src/\<close>; a definition has the name of the
  function it translates, with a prefix where several files define the same one
  (\<open>shm_ipc_send\<close>, \<open>fifo_ipc_send\<close>, \<open>msg_ipc_send\<close>, \<open>sock_ipc_send\<close>, \<open>files_ipc_send\<close>).

  \<^item> \<open>Prelude\<close>, \<open>CLib\<close>: outcomes of a C function (a value, \<open>exit\<close>, undefined behaviour), blocks of
    bytes with bounds, little-endian integers, strings, \<open>sprintf\<close>, \<open>atoi\<close>, calendar times.
  \<^item> \<open>Datagram\<close>: \<open>include/database.h\<close>, \<open>include/config.h\<close>: the layout of datagrams and flights in
    memory, the macros that read and write them, the dump macros.
  \<^item> \<open>Sqlite\<close>, \<open>SqliteRef\<close>: what \<open>server/sqlite3/sqlite3.h\<close> documents of the calls the program makes
    (\<open>sqlite_ok\<close>: any call may fail; \<open>sqlite_ready\<close>: what makes sense succeeds), and a small engine
    that meets both.  \<open>Locked\<close> adds what the header says of a table another process has locked, and
    \<open>Reports\<close> what it says of error messages, and with it what the server prints before an exit.
  \<^item> \<open>Database\<close>, \<open>DatabaseLaws\<close>, \<open>ConsultLaws\<close>: \<open>server/db/database.c\<close>.  \<open>Booking\<close> and \<open>Catalogue\<close>
    hold the properties of tickets and of flights, \<open>Created\<close> those of a database the program creates.
  \<^item> \<open>Libserver\<close>, \<open>Answers\<close>: \<open>server/libserver.c\<close> over the functions of \<open>include/database.h\<close>; the
    contract of these is the locale \<open>database\<close>, interpreted on \<open>database.c\<close> as \<open>sql_db\<close>.
  \<^item> \<open>Libclient\<close>, \<open>LibclientLaws\<close>, \<open>Commands\<close>: \<open>client/libclient.c\<close>: the line parser, the commands,
    the printing of answers.  \<open>Sessions\<close>: a command, its execution and what is printed.
  \<^item> \<open>Proc\<close>: processes as resumptions, one atomic step for each system call, interleaved by
    \<open>sys_step\<close>; a call that waits is \<open>None\<close>, \<open>fork\<close> is a constructor.
  \<^item> \<open>Semaphore\<close>: \<open>ipc/lib/semaphore.c\<close>; \<open>Ipc\<close>: \<open>include/ipc.h\<close> as the locales \<open>ipc_channel\<close>,
    \<open>ipc_checked\<close> and \<open>ipc_link\<close>; \<open>Turns\<close>: two processes of which one waits whenever the other can
    take a step (\<open>hand\<close>), and the links that make them so (\<open>ipc_turns\<close>, a sublocale of \<open>ipc_link\<close>).
  \<^item> \<open>Shmem\<close>, \<open>Fifo\<close>, \<open>Msgqueue\<close>, \<open>Socket\<close>, \<open>Files\<close> with \<open>ShmemLaws\<close>, \<open>FifoLaws\<close>, \<open>FilesLaws\<close>: the
    five files of \<open>ipc/\<close> over models of the system objects they use.  Four of them are interpreted
    as links of \<open>Ipc\<close>, and those but the one over TCP as links that take turns; the one over files is
    no channel, and its laws say why.
    \<open>Filesig\<close>: \<open>ipc/filesig.c\<close>, a draft that is not built.
  \<^item> \<open>Server\<close>, \<open>Client\<close>: \<open>server/server.c\<close> and \<open>client/client.c\<close>, over the operations of any
    transport; \<open>Builds\<close> puts each transport in.  \<open>Filemutex\<close>: \<open>ipc/lib/filemutex.c\<close>; \<open>Localclient\<close>:
    \<open>client/localclient.c\<close>.
  \<^item> \<open>Connect\<close>, \<open>Handshake\<close>: the connection over shared memory, server, child and client interleaved,
    followed on an abstraction of the system (\<open>vw\<close>) on which each call is a function (\<open>does\<close>).
  \<^item> \<open>Dialogue\<close>, \<open>Endtoend\<close>: whole sessions at the prompt: a reference without processes or
    transport (\<open>dialogue\<close>), the local client, and server and client interleaved, first over any
    link, then over shared memory from the start of both programs to the end of the client.
    \<open>Determined\<close>: client and server, once connected, have one run (\<open>one_run\<close>).
  \<^item> \<open>Transports\<close>, \<open>Limits\<close>, \<open>Pieces\<close>, \<open>Sharing\<close>, \<open>Progress\<close>: the properties of components together.

  \<^bold>\<open>State and effects.\<close>  The database library and the operating system are state that is passed on;
  a component of the state is a record, extended where a file uses more of the system.  What the
  code finds in memory it did not write (\<open>malloc\<close>, uninitialised locals, the flags \<open>sem_up\<close> does not
  set) is a parameter, so a theorem holds for all contents.  The result of a C function is in
  \<open>'a cres\<close>; a write or a read out of bounds is \<open>Crash\<close> (\<open>Undef\<close> for a process).  Integers have the
  width they have in C, and \<open>-DMSGQUEUE\<close> changes the layout as it does there (\<open>build\<close>).

  \<^bold>\<open>What the lemmas show.\<close>  For the database: a purchase commits one row or nothing whatever fails,
  the tables stay well formed, a consultation shows exactly the flights that match, and a database
  the program creates is usable at once; and where the code falls short: a creation that failed is
  never made up for, the transaction a failed purchase leaves open, a sale that is reported and not
  committed, an exit for every busy moment of the file.  For the client: words are split as typed within the limits of
  ten words and twenty bytes, and every request is well formed.  For a transport: datagrams arrive as
  sent and in order, so that with the server's loop a conversation is the direct execution of its
  requests (\<open>shmem_conversation\<close> and its three companions); what a transport does not carry is stated
  as such.  For shared memory a client can connect from an empty system (\<open>shm_connects\<close>), and can also
  block with the server for ever (\<open>shm_connect_blocks\<close>); and there is a run of the two programs in which
  the client prints, between its first prompt and \<open>exit\<close>, what the local client prints for the same lines,
  and the database ends the same (\<open>networked_is_local\<close>).  Once they
  are connected, over shared memory, pipes or message queues, the order in which the two are scheduled
  changes nothing: every reachable state is on the one run that ends as the dialogue does
  (\<open>shm_session_determined\<close>, \<open>fifo_session_determined\<close>, \<open>mq_session_determined\<close>).  For processes that
  share: the file mutex excludes and can always be entered, and the queue semaphore grows with every
  client that ends.

  \<^bold>\<open>Bounds and fuel.\<close>  \<open>DATAGRAM_MAXSIZE\<close> is 4096: room for 26 flights.  Queries are printed into
  128 bytes, always enough.  \<open>consult_loop\<close> is a partial function: the C loop has no bound and writes
  past its block after 26 rows, where the model stops with \<open>Crash\<close>.  For a library that meets its
  documentation it returns, and with no more rows than that a request never ends in \<open>Crash\<close>
  (\<open>requests_end\<close>).
  The endless loops of \<open>serve\<close> and \<open>accept_loop\<close> take the number of rounds, and the theorems give
  them more rounds than there are requests and end them with the \<open>exit\<close> of the client; the loop of a
  client takes the list of what \<open>read\<close> returns.  \<open>pause_while\<close> of \<open>Filesig\<close> takes the number of looks
  at its flag; two are enough, since the handler that ends a \<open>pause\<close> clears it.

  \<^bold>\<open>Not modelled.\<close>  The diagnostics \<open>server.c\<close> and the transports print (those of \<open>database.c\<close> are:
  they are in the state of the library, also where they appear on the terminal of the local client); the inside of SQLite and of
  the C library; the failure of \<open>malloc\<close>; \<open>ipc_receive\<close> of \<open>filesig.c\<close>, which does not compile; the
  Makefiles and the data file.  The rest of \<open>sqlite3.h\<close> is not used by the program.

  \<^bold>\<open>Plan.\<close>  What could follow: the connections of the other transports in the way of \<open>Handshake\<close>, and
  with them \<open>networked_is_local\<close> for those; several clients one after another; two server processes
  with one database file and its locks; a session determined from the start of the programs, where the
  connection makes it depend on who comes first.
\<close>

end
